theory Spec2Isabelle
  imports Complex_Main "HOL-Library.Char_ord" "HOL-Library.List_Lexorder" "HOL-Library.Word"
begin

section \<open>Values, errors and array access\<close>

text \<open>
  The model follows \<^verbatim>\<open>layout.js\<close> (the Layout navigation engine) and
  \<^verbatim>\<open>tables/gdef.js\<close> (the GDEF codec) of opentype.js.

  JavaScript numbers that hold glyph ids, class ids and array indices are integers;
  they are modelled as \<^typ>\<open>int\<close> (or \<^typ>\<open>nat\<close> where the source only ever stores an
  array length or a 16-bit field). Tags are strings, compared by \<^verbatim>\<open>===\<close> and
  \<^verbatim>\<open><\<close>: the lexicographic order on character codes, which is the order of
  \<^typ>\<open>string\<close> here.

  An exception of the source is a value: the functions return \<open>error + 'a\<close>, with
  \<open>Inl\<close> for a raise. \<^verbatim>\<open>undefined\<close> as a result is \<open>None\<close>.
\<close>

datatype error =
    TypeError            \<comment> \<open>reading a property of \<^verbatim>\<open>undefined\<close>\<close>
  | CheckFailed string   \<comment> \<open>\<^verbatim>\<open>check.assert\<close> / \<^verbatim>\<open>check.argument\<close> with a false condition\<close>
  | RangeError           \<comment> \<open>reading the byte buffer out of its bounds\<close>
  | UnsupportedFormat    \<comment> \<open>a Coverage or ClassDef format other than 1 and 2\<close>

text \<open>\<^verbatim>\<open>arr[i]\<close>: the element, or \<^verbatim>\<open>undefined\<close> when \<open>i\<close> is not an index of the array.\<close>

definition js_index :: "'a list \<Rightarrow> int \<Rightarrow> 'a option" where
  "js_index arr i = (if 0 \<le> i \<and> i < int (length arr) then Some (arr ! nat i) else None)"

text \<open>
  \<^verbatim>\<open>arr.splice(start, 0, item)\<close>: a negative \<open>start\<close> counts from the end, and the
  position is clamped to the array; the item is inserted there.
\<close>

definition splice_start :: "'a list \<Rightarrow> int \<Rightarrow> nat" where
  "splice_start arr start =
     (let len = int (length arr)
      in if start < 0 then nat (max (len + start) 0) else nat (min start len))"

definition splice_insert :: "'a list \<Rightarrow> int \<Rightarrow> 'a \<Rightarrow> 'a list" where
  "splice_insert arr start item =
     take (splice_start arr start) arr @ [item] @ drop (splice_start arr start) arr"

text \<open>
  Modelled from the spec: \<^verbatim>\<open>check.assert\<close> of the missing \<^verbatim>\<open>check.js\<close>. A violated
  contract "fails immediately and loudly": the call raises with the given message when
  the condition is false and does nothing otherwise.
\<close>

definition check_assert :: "bool \<Rightarrow> string \<Rightarrow> error + unit" where
  "check_assert predicate message = (if predicate then Inr () else Inl (CheckFailed message))"

text \<open>
  Modelled from the spec: \<^verbatim>\<open>check.argument\<close> of the missing \<^verbatim>\<open>check.js\<close>. An
  unsupported version or format "aborts the entire parse": the call raises with the
  given message when the condition is false and does nothing otherwise.
\<close>

definition check_argument :: "bool \<Rightarrow> string \<Rightarrow> error + unit" where
  "check_argument predicate message = (if predicate then Inr () else Inl (CheckFailed message))"

section \<open>The three binary searches\<close>

text \<open>
  The loops of \<^verbatim>\<open>searchTag\<close>, \<^verbatim>\<open>binSearch\<close> and \<^verbatim>\<open>searchRange\<close>, with \<open>iMin\<close> and
  \<open>iMax\<close> as arguments; the functions themselves start them at \<open>0\<close> and
  \<open>length - 1\<close>. An element read outside the array is \<^verbatim>\<open>undefined\<close>, and reading
  its property raises.

  \<^verbatim>\<open>(iMin + iMax) >>> 1\<close> halves a non-negative integer below \<open>2^32\<close>. Inside the
  loops \<open>0 \<le> iMin \<le> iMax < length\<close>, so for an array of at most \<open>2^31\<close> elements
  the sum is in that range and the shift is \<open>div 2\<close>. The arrays searched here are
  the record lists of a font table, whose counts are 16-bit fields, and the lists the
  engine grows by one record at a time; the 32-bit wrap-around of the shift is left out
  of the model.
\<close>

record tagged =
  tag :: string

function binSearch_loop :: "('a::linorder) list \<Rightarrow> 'a \<Rightarrow> int \<Rightarrow> int \<Rightarrow> error + int" where
  "binSearch_loop arr v iMin iMax =
     (if iMin \<le> iMax then
        (let iMid = (iMin + iMax) div 2
         in case js_index arr iMid of
              None \<Rightarrow> Inl TypeError
            | Some val \<Rightarrow>
                if val = v then Inr iMid
                else if val < v then binSearch_loop arr v (iMid + 1) iMax
                else binSearch_loop arr v iMin (iMid - 1))
      else Inr (- iMin - 1))"
  by pat_completeness auto
termination
  by (relation "measure (\<lambda>(arr, v, iMin, iMax). nat (iMax - iMin + 1))") auto

declare binSearch_loop.simps [simp del]

definition binSearch :: "('a::linorder) list \<Rightarrow> 'a \<Rightarrow> error + int" where
  "binSearch arr v = binSearch_loop arr v 0 (int (length arr) - 1)"

function searchTag_loop :: "('a tagged_scheme) list \<Rightarrow> string \<Rightarrow> int \<Rightarrow> int \<Rightarrow> error + int" where
  "searchTag_loop arr t iMin iMax =
     (if iMin \<le> iMax then
        (let iMid = (iMin + iMax) div 2
         in case js_index arr iMid of
              None \<Rightarrow> Inl TypeError
            | Some r \<Rightarrow>
                (let val = tag r
                 in if val = t then Inr iMid
                    else if val < t then searchTag_loop arr t (iMid + 1) iMax
                    else searchTag_loop arr t iMin (iMid - 1)))
      else Inr (- iMin - 1))"
  by pat_completeness auto
termination
  by (relation "measure (\<lambda>(arr, t, iMin, iMax). nat (iMax - iMin + 1))") auto

declare searchTag_loop.simps [simp del]

definition searchTag :: "('a tagged_scheme) list \<Rightarrow> string \<Rightarrow> error + int" where
  "searchTag arr t = searchTag_loop arr t 0 (int (length arr) - 1)"

text \<open>
  A range record has \<^verbatim>\<open>start\<close> and \<^verbatim>\<open>end\<close>; a Coverage range adds \<^verbatim>\<open>index\<close>, a
  ClassDef range adds \<^verbatim>\<open>classId\<close>. \<^verbatim>\<open>searchRange\<close> returns a range, the number
  \<open>0\<close>, or \<^verbatim>\<open>undefined\<close>; its callers only test the result for truthiness.
\<close>

record range =
  start :: int
  end' :: int

datatype 'r searched = Found 'r | Zero | Undefined

function searchRange_loop ::
  "('a range_scheme) list \<Rightarrow> int \<Rightarrow> int \<Rightarrow> int \<Rightarrow> error + ('a range_scheme) searched" where
  "searchRange_loop ranges v iMin iMax =
     (if iMin \<le> iMax then
        (let iMid = (iMin + iMax) div 2
         in case js_index ranges iMid of
              None \<Rightarrow> Inl TypeError
            | Some rng \<Rightarrow>
                (let st = start rng
                 in if st = v then Inr (Found rng)
                    else if st < v then searchRange_loop ranges v (iMid + 1) iMax
                    else searchRange_loop ranges v iMin (iMid - 1)))
      else if iMin > 0 then
        (case js_index ranges (iMin - 1) of
           None \<Rightarrow> Inl TypeError
         | Some rng \<Rightarrow> if v > end' rng then Inr Zero else Inr (Found rng))
      else Inr Undefined)"
  by pat_completeness auto
termination
  by (relation "measure (\<lambda>(ranges, v, iMin, iMax). nat (iMax - iMin + 1))") auto

declare searchRange_loop.simps [simp del]

definition searchRange :: "('a range_scheme) list \<Rightarrow> int \<Rightarrow> error + ('a range_scheme) searched" where
  "searchRange ranges v = searchRange_loop ranges v 0 (int (length ranges) - 1)"

section \<open>Coverage and ClassDef queries\<close>

text \<open>
  A Coverage or ClassDef table is an object with a numeric \<^verbatim>\<open>format\<close> field, on which
  the queries switch; a table of the range format has \<^verbatim>\<open>ranges\<close>. A Coverage table
  of format 1 has \<^verbatim>\<open>glyphs\<close>; a ClassDef table of format 1 has \<^verbatim>\<open>startGlyph\<close> and
  \<^verbatim>\<open>classes\<close>. The field a format does not use is the empty list.
\<close>

record coverageRange = range +
  index :: int

record classRange = range +
  classId :: int

record formatted =
  format :: int

record 'r rangeTable = formatted +
  ranges :: "'r list"

record coverageTable = "coverageRange rangeTable" +
  glyphs :: "int list"

record classDefTable = "classRange rangeTable" +
  startGlyph :: int
  classes :: "int list"

text \<open>The result \<open>None\<close> is \<^verbatim>\<open>undefined\<close>: the switch has no default branch.\<close>

definition getGlyphClass :: "classDefTable \<Rightarrow> int \<Rightarrow> error + int option" where
  "getGlyphClass classDefTable glyphIndex =
     (if format classDefTable = 1 then
        (if startGlyph classDefTable \<le> glyphIndex
            \<and> glyphIndex < startGlyph classDefTable + int (length (classes classDefTable))
         then Inr (js_index (classes classDefTable) (glyphIndex - startGlyph classDefTable))
         else Inr (Some 0))
      else if format classDefTable = 2 then
        (case searchRange (ranges classDefTable) glyphIndex of
           Inl e \<Rightarrow> Inl e
         | Inr (Found rng) \<Rightarrow> Inr (Some (classId rng))
         | Inr _ \<Rightarrow> Inr (Some 0))
      else Inr None)"

definition getCoverageIndex :: "coverageTable \<Rightarrow> int \<Rightarrow> error + int option" where
  "getCoverageIndex coverageTable glyphIndex =
     (if format coverageTable = 1 then
        (case binSearch (glyphs coverageTable) glyphIndex of
           Inl e \<Rightarrow> Inl e
         | Inr idx \<Rightarrow> Inr (Some (if idx \<ge> 0 then idx else - 1)))
      else if format coverageTable = 2 then
        (case searchRange (ranges coverageTable) glyphIndex of
           Inl e \<Rightarrow> Inl e
         | Inr (Found rng) \<Rightarrow> Inr (Some (index rng + glyphIndex - start rng))
         | Inr _ \<Rightarrow> Inr (Some (- 1)))
      else Inr None)"

text \<open>
  \<^verbatim>\<open>expandCoverage\<close>: the inner loop pushes \<open>j = start, ..., end\<close>, the outer loop
  runs over the ranges in order.
\<close>

function pushRange :: "int \<Rightarrow> int \<Rightarrow> int list \<Rightarrow> int list" where
  "pushRange j e gs = (if j \<le> e then pushRange (j + 1) e (gs @ [j]) else gs)"
  by pat_completeness auto
termination
  by (relation "measure (\<lambda>(j, e, gs). nat (e - j + 1))") auto

declare pushRange.simps [simp del]

fun expandRanges :: "('a range_scheme) list \<Rightarrow> int list \<Rightarrow> int list" where
  "expandRanges [] gs = gs"
| "expandRanges (rng # rest) gs = expandRanges rest (pushRange (start rng) (end' rng) gs)"

definition expandCoverage :: "coverageTable \<Rightarrow> int list" where
  "expandCoverage coverageTable =
     (if format coverageTable = 1 then glyphs coverageTable
      else expandRanges (ranges coverageTable) [])"

section \<open>The Script / LangSys / Feature / Lookup graph\<close>

typedecl subtable

record langSysTable =
  reserved :: int
  reqFeatureIndex :: int
  featureIndexes :: "nat list"

record langSysRecord = tagged +
  langSys :: langSysTable

record scriptTable =
  defaultLangSys :: langSysTable
  langSysRecords :: "langSysRecord list"

record scriptRecord = tagged +
  script :: scriptTable

record featureTable =
  params :: int
  lookupListIndexes :: "nat list"

record featureRecord = tagged +
  feature :: featureTable

record lookupTable =
  lookupType :: int
  lookupFlag :: int
  subtables :: "subtable list"
  markFilteringSet :: "int option"

record layout =
  scripts :: "scriptRecord list"
  features :: "featureRecord list"
  lookups :: "lookupTable list"

text \<open>
  The state is \<^verbatim>\<open>this.font.tables[this.tableName]\<close>: a layout table, or \<open>None\<close>
  when the font has none. The source returns references into this tree and mutates
  through them. A reference is modelled as the path of the object in the tree together
  with the object as it is when the reference is returned: a script table by the index
  of its record in \<^verbatim>\<open>scripts\<close>, a LangSys table by a \<open>langSysPath\<close>, a feature table
  and a lookup table by their index in \<^verbatim>\<open>features\<close> and \<^verbatim>\<open>lookups\<close>. A write
  through a reference updates the tree at the path.

  Each operation returns its result (or the exception it raises) and the state it
  leaves.
\<close>

datatype langSysPath = AtDefaultLangSys nat | AtLangSysRecord nat nat

definition update_script :: "nat \<Rightarrow> (scriptTable \<Rightarrow> scriptTable) \<Rightarrow> layout \<Rightarrow> layout" where
  "update_script si f l =
     l\<lparr>scripts := (scripts l)[si := (scripts l ! si)\<lparr>script := f (script (scripts l ! si))\<rparr>]\<rparr>"

definition update_langSysRecord ::
  "nat \<Rightarrow> (langSysTable \<Rightarrow> langSysTable) \<Rightarrow> scriptTable \<Rightarrow> scriptTable" where
  "update_langSysRecord li f s =
     s\<lparr>langSysRecords :=
         (langSysRecords s)[li := (langSysRecords s ! li)\<lparr>langSys := f (langSys (langSysRecords s ! li))\<rparr>]\<rparr>"

fun update_langSys :: "langSysPath \<Rightarrow> (langSysTable \<Rightarrow> langSysTable) \<Rightarrow> layout \<Rightarrow> layout" where
  "update_langSys (AtDefaultLangSys si) f l =
     update_script si (\<lambda>s. s\<lparr>defaultLangSys := f (defaultLangSys s)\<rparr>) l"
| "update_langSys (AtLangSysRecord si li) f l =
     update_script si (update_langSysRecord li f) l"

definition update_feature :: "nat \<Rightarrow> (featureTable \<Rightarrow> featureTable) \<Rightarrow> layout \<Rightarrow> layout" where
  "update_feature fi f l =
     l\<lparr>features := (features l)[fi := (features l ! fi)\<lparr>feature := f (feature (features l ! fi))\<rparr>]\<rparr>"

text \<open>The object a path denotes in a table, when the path is valid.\<close>

definition deref_script :: "nat \<Rightarrow> layout \<Rightarrow> scriptTable option" where
  "deref_script si l = map_option script (js_index (scripts l) (int si))"

fun deref_langSys :: "langSysPath \<Rightarrow> layout \<Rightarrow> langSysTable option" where
  "deref_langSys (AtDefaultLangSys si) l = map_option defaultLangSys (deref_script si l)"
| "deref_langSys (AtLangSysRecord si li) l =
     (case deref_script si l of
        None \<Rightarrow> None
      | Some s \<Rightarrow> map_option langSys (js_index (langSysRecords s) (int li)))"

definition deref_feature :: "nat \<Rightarrow> layout \<Rightarrow> featureTable option" where
  "deref_feature fi l = map_option feature (js_index (features l) (int fi))"

text \<open>
  \<^verbatim>\<open>createDefaultTable\<close> is a method of the classes that extend \<^verbatim>\<open>Layout\<close>, which are
  missing from the sources: the table it returns is the parameter \<open>cdt\<close> of the
  operations.
\<close>

definition getTable :: "layout \<Rightarrow> bool \<Rightarrow> layout option \<Rightarrow> layout option" where
  "getTable cdt create tbl =
     (case tbl of
        Some l \<Rightarrow> Some l
      | None \<Rightarrow> if create then Some cdt else None)"

definition getScriptNames :: "layout \<Rightarrow> layout option \<Rightarrow> string list \<times> layout option" where
  "getScriptNames cdt tbl =
     (let tbl1 = getTable cdt False tbl
      in case tbl1 of
           None \<Rightarrow> ([], tbl1)
         | Some l \<Rightarrow> (map tag (scripts l), tbl1))"

fun defaultScriptName_loop :: "scriptRecord list \<Rightarrow> bool \<Rightarrow> string option" where
  "defaultScriptName_loop [] hasLatn = (if hasLatn then Some ''latn'' else None)"
| "defaultScriptName_loop (s # rest) hasLatn =
     (let name = tag s
      in if name = ''DFLT'' then Some name
         else defaultScriptName_loop rest (if name = ''latn'' then True else hasLatn))"

definition getDefaultScriptName :: "layout \<Rightarrow> layout option \<Rightarrow> string option \<times> layout option" where
  "getDefaultScriptName cdt tbl =
     (let tbl1 = getTable cdt False tbl
      in case tbl1 of
           None \<Rightarrow> (None, tbl1)
         | Some l \<Rightarrow> (defaultScriptName_loop (scripts l) False, tbl1))"

definition new_langSys :: langSysTable where
  "new_langSys = \<lparr>reserved = 0, reqFeatureIndex = 0xffff, featureIndexes = []\<rparr>"

text \<open>A parameter that is \<open>None\<close> was not passed, and takes its default value.\<close>

definition getScriptTable ::
  "layout \<Rightarrow> string option \<Rightarrow> bool \<Rightarrow> layout option
     \<Rightarrow> (error + (nat \<times> scriptTable) option) \<times> layout option" where
  "getScriptTable cdt script_arg create tbl =
     (let script_tag = (case script_arg of None \<Rightarrow> ''DFLT'' | Some s \<Rightarrow> s);
          tbl1 = getTable cdt create tbl
      in case tbl1 of
           None \<Rightarrow> (Inr None, tbl1)
         | Some l \<Rightarrow>
             (case searchTag (scripts l) script_tag of
                Inl e \<Rightarrow> (Inl e, tbl1)
              | Inr pos \<Rightarrow>
                  if pos \<ge> 0 then
                    (case js_index (scripts l) pos of
                       None \<Rightarrow> (Inl TypeError, tbl1)
                     | Some rec \<Rightarrow> (Inr (Some (nat pos, script rec)), tbl1))
                  else if create then
                    (let scr = \<lparr>tag = script_tag,
                                script = \<lparr>defaultLangSys = new_langSys, langSysRecords = []\<rparr>\<rparr>
                     in (Inr (Some (splice_start (scripts l) (- 1 - pos), script scr)),
                         Some (l\<lparr>scripts := splice_insert (scripts l) (- 1 - pos) scr\<rparr>)))
                  else (Inr None, tbl1)))"

definition getLangSysTable ::
  "layout \<Rightarrow> string option \<Rightarrow> string option \<Rightarrow> bool \<Rightarrow> layout option
     \<Rightarrow> (error + (langSysPath \<times> langSysTable) option) \<times> layout option" where
  "getLangSysTable cdt script_arg language_arg create tbl =
     (let language = (case language_arg of None \<Rightarrow> ''dflt'' | Some s \<Rightarrow> s)
      in case getScriptTable cdt script_arg create tbl of
           (Inl e, tbl1) \<Rightarrow> (Inl e, tbl1)
         | (Inr None, tbl1) \<Rightarrow> (Inr None, tbl1)
         | (Inr (Some (si, scriptTable)), tbl1) \<Rightarrow>
             if language = ''dflt'' \<or> language = ''DFLT'' then
               (Inr (Some (AtDefaultLangSys si, defaultLangSys scriptTable)), tbl1)
             else
               (case searchTag (langSysRecords scriptTable) language of
                  Inl e \<Rightarrow> (Inl e, tbl1)
                | Inr pos \<Rightarrow>
                    if pos \<ge> 0 then
                      (case js_index (langSysRecords scriptTable) pos of
                         None \<Rightarrow> (Inl TypeError, tbl1)
                       | Some rec \<Rightarrow> (Inr (Some (AtLangSysRecord si (nat pos), langSys rec)), tbl1))
                    else if create then
                      (let langSysRecord = \<lparr>tag = language, langSys = new_langSys\<rparr>
                       in (Inr (Some (AtLangSysRecord si
                                        (splice_start (langSysRecords scriptTable) (- 1 - pos)),
                                      langSys langSysRecord)),
                           map_option
                             (update_script si (\<lambda>s. s\<lparr>langSysRecords :=
                                splice_insert (langSysRecords s) (- 1 - pos) langSysRecord\<rparr>))
                             tbl1))
                    else (Inr None, tbl1)))"

text \<open>The scan of \<^verbatim>\<open>featIndexes\<close> in \<^verbatim>\<open>getFeatureTable\<close>.\<close>

fun scanFeatures ::
  "featureRecord list \<Rightarrow> string \<Rightarrow> nat list \<Rightarrow> error + (nat \<times> featureTable) option" where
  "scanFeatures allFeatures feature_tag [] = Inr None"
| "scanFeatures allFeatures feature_tag (fi # rest) =
     (case js_index allFeatures (int fi) of
        None \<Rightarrow> Inl TypeError
      | Some featureRecord \<Rightarrow>
          if tag featureRecord = feature_tag then Inr (Some (fi, feature featureRecord))
          else scanFeatures allFeatures feature_tag rest)"

definition getFeatureTable ::
  "layout \<Rightarrow> string option \<Rightarrow> string option \<Rightarrow> string \<Rightarrow> bool \<Rightarrow> layout option
     \<Rightarrow> (error + (nat \<times> featureTable) option) \<times> layout option" where
  "getFeatureTable cdt script_arg language_arg feature_tag create tbl =
     (case getLangSysTable cdt script_arg language_arg create tbl of
        (Inl e, tbl1) \<Rightarrow> (Inl e, tbl1)
      | (Inr None, tbl1) \<Rightarrow> (Inr None, tbl1)
      | (Inr (Some (path, langSysTable)), tbl1) \<Rightarrow>
          (case tbl1 of
             None \<Rightarrow> (Inl TypeError, tbl1)
           | Some l \<Rightarrow>
               (let featIndexes = featureIndexes langSysTable;
                    allFeatures = features l
                in case scanFeatures allFeatures feature_tag featIndexes of
                     Inl e \<Rightarrow> (Inl e, tbl1)
                   | Inr (Some found) \<Rightarrow> (Inr (Some found), tbl1)
                   | Inr None \<Rightarrow>
                       if create then
                         (let idx = length allFeatures
                          in case check_assert
                                    (idx = 0 \<or> feature_tag \<ge> tag (allFeatures ! (idx - 1)))
                                    ''Features must be added in alphabetical order.'' of
                               Inl e \<Rightarrow> (Inl e, tbl1)
                             | Inr _ \<Rightarrow>
                                 (let featureRecord =
                                        \<lparr>tag = feature_tag,
                                         feature = \<lparr>params = 0, lookupListIndexes = []\<rparr>\<rparr>
                                  in (Inr (Some (idx, feature featureRecord)),
                                      Some (update_langSys path
                                              (\<lambda>ls. ls\<lparr>featureIndexes := featureIndexes ls @ [idx]\<rparr>)
                                              (l\<lparr>features := allFeatures @ [featureRecord]\<rparr>)))))
                       else (Inr None, tbl1))))"

text \<open>The scan of \<^verbatim>\<open>lookupListIndexes\<close> in \<^verbatim>\<open>getLookupTables\<close>, pushing onto \<^verbatim>\<open>tables\<close>.\<close>

fun scanLookups ::
  "lookupTable list \<Rightarrow> int \<Rightarrow> nat list \<Rightarrow> (nat \<times> lookupTable) list
     \<Rightarrow> error + (nat \<times> lookupTable) list" where
  "scanLookups allLookups ty [] tables = Inr tables"
| "scanLookups allLookups ty (li # rest) tables =
     (case js_index allLookups (int li) of
        None \<Rightarrow> Inl TypeError
      | Some lookupTable \<Rightarrow>
          scanLookups allLookups ty rest
            (if lookupType lookupTable = ty then tables @ [(li, lookupTable)] else tables))"

definition getLookupTables ::
  "layout \<Rightarrow> string option \<Rightarrow> string option \<Rightarrow> string \<Rightarrow> int \<Rightarrow> bool \<Rightarrow> layout option
     \<Rightarrow> (error + (nat \<times> lookupTable) list) \<times> layout option" where
  "getLookupTables cdt script_arg language_arg feature_tag ty create tbl =
     (case getFeatureTable cdt script_arg language_arg feature_tag create tbl of
        (Inl e, tbl1) \<Rightarrow> (Inl e, tbl1)
      | (Inr None, tbl1) \<Rightarrow> (Inr [], tbl1)
      | (Inr (Some (fi, featureTable)), tbl1) \<Rightarrow>
          (case tbl1 of
             None \<Rightarrow> (Inl TypeError, tbl1)
           | Some l \<Rightarrow>
               (let allLookups = lookups l
                in case scanLookups allLookups ty (lookupListIndexes featureTable) [] of
                     Inl e \<Rightarrow> (Inl e, tbl1)
                   | Inr tables \<Rightarrow>
                       if length tables = 0 \<and> create then
                         (let lookupTable = \<lparr>lookupType = ty, lookupFlag = 0,
                                             subtables = [], markFilteringSet = None\<rparr>;
                              idx = length allLookups
                          in (Inr [(idx, lookupTable)],
                              Some (update_feature fi
                                      (\<lambda>f. f\<lparr>lookupListIndexes := lookupListIndexes f @ [idx]\<rparr>)
                                      (l\<lparr>lookups := allLookups @ [lookupTable]\<rparr>))))
                       else (Inr tables, tbl1))))"

section \<open>The binary structure decoder\<close>

text \<open>
  \<^verbatim>\<open>parse.js\<close>, the \<^verbatim>\<open>Parser\<close> class that \<^verbatim>\<open>gdef.js\<close> imports, is missing from the
  sources. Each definition of this section is modelled from sections 3, 4.1, 4.2 and 6
  of the spec, under the name the source calls it by.
\<close>

text \<open>
  Modelled from the spec: the state of the missing \<^verbatim>\<open>Parser\<close>. It "owns the buffer
  reference and an absolute byte position"; the position is kept as the start of the
  enclosing structure (\<open>offset\<close>, the base of its pointer fields) and the position
  relative to it (\<open>relativeOffset\<close>).
\<close>

record parser =
  data :: "8 word list"
  offset :: nat
  relativeOffset :: nat

type_synonym 'a decoder = "parser \<Rightarrow> error + ('a \<times> parser)"

text \<open>
  Modelled from the spec: \<^verbatim>\<open>new Parser(data, start)\<close> of the missing \<^verbatim>\<open>parse.js\<close>, a
  cursor at the position \<open>start\<close>, where a structure begins.
\<close>

definition Parser :: "8 word list \<Rightarrow> nat \<Rightarrow> parser" where
  "Parser d st = \<lparr>data = d, offset = st, relativeOffset = 0\<rparr>"

text \<open>The decoders run in sequence; the first exception ends the parse.\<close>

definition bind :: "error + ('a \<times> parser) \<Rightarrow> ('a \<Rightarrow> parser \<Rightarrow> error + ('b \<times> parser)) \<Rightarrow> error + ('b \<times> parser)" where
  "bind m f = (case m of Inl e \<Rightarrow> Inl e | Inr (x, p) \<Rightarrow> f x p)"

text \<open>
  Modelled from the spec: \<^verbatim>\<open>parseUShort\<close> of the missing \<^verbatim>\<open>parse.js\<close> (\<^verbatim>\<open>readUint16\<close>
  in the spec): "read a fixed-width field at the current position, advance the cursor
  by its width"; fields are big-endian. A read outside the buffer raises.
\<close>

definition parseUShort :: "nat decoder" where
  "parseUShort p =
     (let pos = offset p + relativeOffset p
      in if pos + 2 \<le> length (data p)
         then Inr (256 * unat (data p ! pos) + unat (data p ! (pos + 1)),
                   p\<lparr>relativeOffset := relativeOffset p + 2\<rparr>)
         else Inl RangeError)"

text \<open>
  Modelled from the spec: \<^verbatim>\<open>parseShort\<close> of the missing \<^verbatim>\<open>parse.js\<close> (\<^verbatim>\<open>readInt16\<close> in
  the spec), the same field read as a signed number.
\<close>

definition parseShort :: "int decoder" where
  "parseShort p =
     bind (parseUShort p)
       (\<lambda>v p1. Inr (if v \<ge> 32768 then int v - 65536 else int v, p1))"

text \<open>
  Modelled from the spec: \<^verbatim>\<open>parsePointer\<close> of the missing \<^verbatim>\<open>parse.js\<close> (\<^verbatim>\<open>readPointer\<close>
  in the spec): "read a 16-bit offset; if zero, return absent without invoking
  subDecoder; otherwise invoke subDecoder with the cursor temporarily repositioned to
  base + offset (base defaults to the position recorded at entry to the enclosing
  structure), then restore the cursor to just after the offset field".
\<close>

definition parsePointer :: "'a decoder \<Rightarrow> ('a option) decoder" where
  "parsePointer description p =
     bind (parseUShort p)
       (\<lambda>structOffset p1.
          if structOffset > 0 then
            (case description (Parser (data p) (offset p + structOffset)) of
               Inl e \<Rightarrow> Inl e
             | Inr (v, _) \<Rightarrow> Inr (Some v, p1))
          else Inr (None, p1))"

text \<open>
  Modelled from the spec: \<^verbatim>\<open>Parser.pointer(description)\<close> of the missing \<^verbatim>\<open>parse.js\<close>,
  the decoder of a pointer field with the given sub-decoder ("pointer\<rightarrow>" in
  section 4.3 of the spec).
\<close>

definition Parser_pointer :: "'a decoder \<Rightarrow> ('a option) decoder" where
  "Parser_pointer description = parsePointer description"

text \<open>
  Modelled from the spec: the loop of \<^verbatim>\<open>parseList\<close> of the missing \<^verbatim>\<open>parse.js\<close>: "invoke
  elementDecoder that many times in sequence, collecting results into an ordered
  sequence".
\<close>

fun parseList_loop :: "nat \<Rightarrow> 'a decoder \<Rightarrow> 'a list \<Rightarrow> ('a list) decoder" where
  "parseList_loop 0 itemCallback acc p = Inr (acc, p)"
| "parseList_loop (Suc n) itemCallback acc p =
     bind (itemCallback p) (\<lambda>x p1. parseList_loop n itemCallback (acc @ [x]) p1)"

text \<open>
  Modelled from the spec: \<^verbatim>\<open>parseList\<close> of the missing \<^verbatim>\<open>parse.js\<close> (\<^verbatim>\<open>readList\<close> in the
  spec): "read a 16-bit count, then invoke elementDecoder that many times".
\<close>

definition parseList :: "'a decoder \<Rightarrow> ('a list) decoder" where
  "parseList itemCallback p =
     bind (parseUShort p) (\<lambda>count p1. parseList_loop count itemCallback [] p1)"

text \<open>
  Modelled from the spec: \<^verbatim>\<open>Parser.uShortList\<close> of the missing \<^verbatim>\<open>parse.js\<close>:
  "readList(uint16)" in section 4.3 of the spec.
\<close>

definition Parser_uShortList :: "(nat list) decoder" where
  "Parser_uShortList = parseList parseUShort"

text \<open>
  Modelled from the spec: a range record of a Coverage table of format 2,
  "{uint16 start, uint16 end, uint16 index}".
\<close>

definition parseCoverageRange :: "coverageRange decoder" where
  "parseCoverageRange p =
     bind (parseUShort p) (\<lambda>s p1.
     bind (parseUShort p1) (\<lambda>e p2.
     bind (parseUShort p2) (\<lambda>i p3.
       Inr (\<lparr>start = int s, end' = int e, index = int i\<rparr>, p3))))"

text \<open>
  Modelled from the spec: \<^verbatim>\<open>Parser.coverage\<close> of the missing \<^verbatim>\<open>parse.js\<close>
  (\<^verbatim>\<open>parseCoverage\<close> in the spec): "reads a format discriminant (1 or 2); format 1
  \<rightarrow> readList of glyph ids; format 2 \<rightarrow> readList of {start, end, index}
  range records"; another format is a "hard, immediate failure".
\<close>

definition Parser_coverage :: "coverageTable decoder" where
  "Parser_coverage p =
     bind (parseUShort p) (\<lambda>fmt p1.
       if fmt = 1 then
         bind (parseList parseUShort p1)
           (\<lambda>gs p2. Inr (\<lparr>format = 1, ranges = [], glyphs = map int gs\<rparr>, p2))
       else if fmt = 2 then
         bind (parseList parseCoverageRange p1)
           (\<lambda>rs p2. Inr (\<lparr>format = 2, ranges = rs, glyphs = []\<rparr>, p2))
       else Inl UnsupportedFormat)"

text \<open>
  Modelled from the spec: a range record of a ClassDef table of format 2,
  "{uint16 start, uint16 end, uint16 classId}".
\<close>

definition parseClassRange :: "classRange decoder" where
  "parseClassRange p =
     bind (parseUShort p) (\<lambda>s p1.
     bind (parseUShort p1) (\<lambda>e p2.
     bind (parseUShort p2) (\<lambda>c p3.
       Inr (\<lparr>start = int s, end' = int e, classId = int c\<rparr>, p3))))"

text \<open>
  Modelled from the spec: \<^verbatim>\<open>Parser.classDef\<close> of the missing \<^verbatim>\<open>parse.js\<close>
  (\<^verbatim>\<open>parseClassDef\<close> in the spec): "reads a format discriminant (1 or 2); format 1
  \<rightarrow> startGlyph plus readList of class ids; format 2 \<rightarrow> readList of
  {start, end, classId} range records"; another format is a "hard, immediate failure".
\<close>

definition Parser_classDef :: "classDefTable decoder" where
  "Parser_classDef p =
     bind (parseUShort p) (\<lambda>fmt p1.
       if fmt = 1 then
         bind (parseUShort p1) (\<lambda>sg p2.
         bind (parseList parseUShort p2)
           (\<lambda>cs p3. Inr (\<lparr>format = 1, ranges = [], startGlyph = int sg,
                            classes = map int cs\<rparr>, p3)))
       else if fmt = 2 then
         bind (parseList parseClassRange p1)
           (\<lambda>rs p2. Inr (\<lparr>format = 2, ranges = rs, startGlyph = 0, classes = []\<rparr>, p2))
       else Inl UnsupportedFormat)"

text \<open>
  Modelled from the spec: \<^verbatim>\<open>readVersion16Dot16\<close> "composes a 16-bit major and 16-bit
  minor-as-fraction into a comparable version number (e.g., major 1 minor 0x2000
  \<rightarrow> 1.2)". The version is a JavaScript number; it is a rational here, so that
  the constants 1.2 and 1.3 of the source are exact.
\<close>

definition readVersion16Dot16 :: "rat decoder" where
  "readVersion16Dot16 p =
     bind (parseUShort p) (\<lambda>major p1.
     bind (parseUShort p1) (\<lambda>minor p2.
       Inr (of_nat major + of_nat minor / 0x1000 / 10, p2)))"

section \<open>The GDEF table\<close>

text \<open>
  \<^verbatim>\<open>tables/gdef.js\<close>. The sub-decoders \<^verbatim>\<open>attachList\<close>, \<^verbatim>\<open>caretValue\<close>, \<^verbatim>\<open>ligGlyph\<close>,
  \<^verbatim>\<open>ligCaretList\<close> and \<^verbatim>\<open>markGlyphSets\<close> of the source are \<open>parse_attachList\<close> and
  so on here, since the fields of the decoded table carry the same names.
\<close>

record covered =
  coverage :: "coverageTable option"

record attachListTable = covered +
  attachPoints :: "nat list option list"

datatype caretValueTable = Coordinate int | Pointindex int

record ligCaretListTable = covered +
  ligGlyphs :: "caretValueTable option list option list"

text \<open>
  The field \<open>markGlyphSets\<close> of the decoded table is \<open>None\<close> when the object has no
  such field, \<open>Some None\<close> when the field is there and holds \<^verbatim>\<open>undefined\<close> (an absent
  pointer), and \<open>Some (Some sets)\<close> when it holds a decoded list.
\<close>

record gdef =
  version :: rat
  classDef :: "classDefTable option"
  attachList :: "attachListTable option"
  ligCaretList :: "ligCaretListTable option"
  markAttachClassDef :: "classDefTable option"
  markGlyphSets :: "coverageTable option list option option"

definition parse_attachList :: "attachListTable decoder" where
  "parse_attachList p =
     bind (parsePointer Parser_coverage p) (\<lambda>c p1.
     bind (parseList (Parser_pointer Parser_uShortList) p1) (\<lambda>a p2.
       Inr (\<lparr>coverage = c, attachPoints = a\<rparr>, p2)))"

definition parse_caretValue :: "caretValueTable decoder" where
  "parse_caretValue p =
     bind (parseUShort p) (\<lambda>fmt p1.
       case check_argument (fmt = 1 \<or> fmt = 2 \<or> fmt = 3)
              ''Unsupported CaretValue table version.'' of
         Inl e \<Rightarrow> Inl e
       | Inr _ \<Rightarrow>
           if fmt = 1 then bind (parseShort p1) (\<lambda>v p2. Inr (Coordinate v, p2))
           else if fmt = 2 then bind (parseShort p1) (\<lambda>v p2. Inr (Pointindex v, p2))
           else bind (parseShort p1) (\<lambda>v p2. Inr (Coordinate v, p2)))"

definition parse_ligGlyph :: "(caretValueTable option list) decoder" where
  "parse_ligGlyph p = parseList (Parser_pointer parse_caretValue) p"

definition parse_ligCaretList :: "ligCaretListTable decoder" where
  "parse_ligCaretList p =
     bind (parsePointer Parser_coverage p) (\<lambda>c p1.
     bind (parseList (Parser_pointer parse_ligGlyph) p1) (\<lambda>g p2.
       Inr (\<lparr>coverage = c, ligGlyphs = g\<rparr>, p2)))"

definition parse_markGlyphSets :: "(coverageTable option list) decoder" where
  "parse_markGlyphSets p =
     bind (parseUShort p) (\<lambda>_ p1. parseList (Parser_pointer Parser_coverage) p1)"

text \<open>
  \<^verbatim>\<open>parseGDEFTable\<close>. The decoder of the version, \<^verbatim>\<open>p.parseVersion(1)\<close>, belongs to the
  missing \<^verbatim>\<open>parse.js\<close> and the spec does not say what its argument means: it is the
  parameter \<open>parseVersion\<close>, applied to the argument \<open>1\<close> of the source.
\<close>

definition parseGDEFTable ::
  "(nat \<Rightarrow> rat decoder) \<Rightarrow> 8 word list \<Rightarrow> nat option \<Rightarrow> error + gdef" where
  "parseGDEFTable parseVersion d start_arg =
     (let st = (case start_arg of None \<Rightarrow> 0 | Some s \<Rightarrow> s);
          p = Parser d st
      in map_sum id fst
           (bind (parseVersion 1 p) (\<lambda>tableVersion p1.
              case check_argument
                     (tableVersion = 1 \<or> tableVersion = 12 / 10 \<or> tableVersion = 13 / 10)
                     ''Unsupported GDEF table version.'' of
                Inl e \<Rightarrow> Inl e
              | Inr _ \<Rightarrow>
                  bind (parsePointer Parser_classDef p1) (\<lambda>cd p2.
                  bind (parsePointer parse_attachList p2) (\<lambda>al p3.
                  bind (parsePointer parse_ligCaretList p3) (\<lambda>lc p4.
                  bind (parsePointer Parser_classDef p4) (\<lambda>ma p5.
                    (let g = \<lparr>version = tableVersion, classDef = cd, attachList = al,
                              ligCaretList = lc, markAttachClassDef = ma,
                              markGlyphSets = None\<rparr>
                     in if tableVersion \<ge> 12 / 10 then
                          bind (parsePointer parse_markGlyphSets p5)
                            (\<lambda>mg p6. Inr (g\<lparr>markGlyphSets := Some mg\<rparr>, p6))
                        else Inr (g, p5)))))))))"

section \<open>Well-formed tables\<close>

text \<open>
  The invariants of the data model that the claims assume. Ranges are inclusive,
  ascending and non-overlapping: each range ends before the next one starts. The
  glyph ids a list of ranges covers are those of its ranges, in order. In a Coverage
  table the \<^verbatim>\<open>index\<close> of a range is the coverage index of its first glyph: the number
  of glyphs in the ranges before it.
\<close>

definition ascending_ranges :: "('a range_scheme) list \<Rightarrow> bool" where
  "ascending_ranges rs =
     ((\<forall>r\<in>set rs. start r \<le> end' r) \<and> sorted_wrt (\<lambda>a b. end' a < start b) rs)"

definition range_glyphs :: "('a range_scheme) list \<Rightarrow> int list" where
  "range_glyphs rs = concat (map (\<lambda>r. [start r..end' r]) rs)"

definition first_index :: "('a range_scheme) list \<Rightarrow> nat \<Rightarrow> int" where
  "first_index rs j = sum_list (map (\<lambda>r. end' r - start r + 1) (take j rs))"

definition indexed_ranges :: "coverageRange list \<Rightarrow> bool" where
  "indexed_ranges rs = (\<forall>j<length rs. index (rs ! j) = first_index rs j)"

text \<open>A Coverage table of format 1 or 2 that represents the ascending glyph set \<open>gs\<close>.\<close>

definition covers :: "coverageTable \<Rightarrow> int list \<Rightarrow> bool" where
  "covers cov gs =
     ((format cov = 1 \<and> glyphs cov = gs \<and> sorted_wrt (<) gs) \<or>
      (format cov = 2 \<and> ascending_ranges (ranges cov) \<and> indexed_ranges (ranges cov)
         \<and> gs = range_glyphs (ranges cov)))"

section \<open>Example tables\<close>

definition ex_script :: scriptTable where
  "ex_script = \<lparr>defaultLangSys = new_langSys, langSysRecords = []\<rparr>"

definition ex_scripts :: "scriptRecord list" where
  "ex_scripts = [\<lparr>tag = ''DFLT'', script = ex_script\<rparr>, \<lparr>tag = ''latn'', script = ex_script\<rparr>]"

definition ex_coverage1 :: coverageTable where
  "ex_coverage1 = \<lparr>format = 1, ranges = [], glyphs = [3, 5, 8]\<rparr>"

definition ex_coverage2 :: coverageTable where
  "ex_coverage2 = \<lparr>format = 2,
                    ranges = [\<lparr>start = 2, end' = 4, index = 0\<rparr>, \<lparr>start = 10, end' = 10, index = 3\<rparr>],
                    glyphs = []\<rparr>"

definition ex_classDef1 :: classDefTable where
  "ex_classDef1 = \<lparr>format = 1, ranges = [], startGlyph = 5, classes = [1, 2, 0]\<rparr>"

definition ex_classDef2 :: classDefTable where
  "ex_classDef2 = \<lparr>format = 2,
                    ranges = [\<lparr>start = 2, end' = 4, classId = 7\<rparr>, \<lparr>start = 10, end' = 10, classId = 9\<rparr>],
                    startGlyph = 0, classes = []\<rparr>"

definition ex_coverage3 :: coverageTable where
  "ex_coverage3 = \<lparr>format = 3, ranges = [], glyphs = [3, 5, 8]\<rparr>"

definition ex_classDef3 :: classDefTable where
  "ex_classDef3 = \<lparr>format = 3, ranges = [], startGlyph = 5, classes = [1, 2, 0]\<rparr>"

text \<open>
  The invariant of the script graph: the script array and each \<^verbatim>\<open>langSysRecords\<close>
  array are sorted ascending by tag.
\<close>

definition sorted_by_tag :: "('a tagged_scheme) list \<Rightarrow> bool" where
  "sorted_by_tag arr = sorted (map tag arr)"

definition layout_sorted :: "layout \<Rightarrow> bool" where
  "layout_sorted l =
     (sorted_by_tag (scripts l) \<and>
      (\<forall>s\<in>set (scripts l). sorted_by_tag (langSysRecords (script s))))"

definition tables_sorted :: "layout option \<Rightarrow> bool" where
  "tables_sorted tbl = (case tbl of None \<Rightarrow> True | Some l \<Rightarrow> layout_sorted l)"

definition new_script :: "string \<Rightarrow> scriptRecord" where
  "new_script t = \<lparr>tag = t, script = \<lparr>defaultLangSys = new_langSys, langSysRecords = []\<rparr>\<rparr>"

text \<open>
  Modelled from the spec: the table that the missing \<^verbatim>\<open>createDefaultTable\<close> returns, "a
  freshly default-initialized empty table (empty script/feature/lookup lists)". It is
  the default table of the examples.
\<close>

definition empty_layout :: layout where
  "empty_layout = \<lparr>scripts = [], features = [], lookups = []\<rparr>"

definition new_feature :: "string \<Rightarrow> featureRecord" where
  "new_feature t = \<lparr>tag = t, feature = \<lparr>params = 0, lookupListIndexes = []\<rparr>\<rparr>"

definition new_lookup :: "int \<Rightarrow> lookupTable" where
  "new_lookup ty = \<lparr>lookupType = ty, lookupFlag = 0, subtables = [], markFilteringSet = None\<rparr>"

text \<open>Equality of strings up to the case of the ASCII letters.\<close>

definition lower_char :: "char \<Rightarrow> char" where
  "lower_char c =
     (case map_of (zip ''ABCDEFGHIJKLMNOPQRSTUVWXYZ'' ''abcdefghijklmnopqrstuvwxyz'') c of
        Some d \<Rightarrow> d
      | None \<Rightarrow> c)"

definition equal_ignoring_case :: "string \<Rightarrow> string \<Rightarrow> bool" where
  "equal_ignoring_case s t = (map lower_char s = map lower_char t)"

definition ex_layout :: layout where
  "ex_layout = \<lparr>scripts = ex_scripts, features = [], lookups = []\<rparr>"

text \<open>
  The tables reached from a font without a layout table by creating the feature
  \<^verbatim>\<open>aalt\<close>, then \<^verbatim>\<open>liga\<close>, for the default script and language; and the table reached
  by creating \<^verbatim>\<open>liga\<close> alone.
\<close>

definition ex_dflt_script :: "nat list \<Rightarrow> scriptRecord" where
  "ex_dflt_script idxs =
     \<lparr>tag = ''DFLT'',
      script = \<lparr>defaultLangSys = \<lparr>reserved = 0, reqFeatureIndex = 0xffff, featureIndexes = idxs\<rparr>,
                langSysRecords = []\<rparr>\<rparr>"

definition ex_aalt :: layout where
  "ex_aalt = \<lparr>scripts = [ex_dflt_script [0]], features = [new_feature ''aalt''], lookups = []\<rparr>"

definition ex_aalt_liga :: layout where
  "ex_aalt_liga = \<lparr>scripts = [ex_dflt_script [0, 1]],
                    features = [new_feature ''aalt'', new_feature ''liga''], lookups = []\<rparr>"

definition ex_liga :: layout where
  "ex_liga = \<lparr>scripts = [ex_dflt_script [0]], features = [new_feature ''liga''], lookups = []\<rparr>"

definition ex_layout_srb :: layout where
  "ex_layout_srb =
     \<lparr>scripts = [\<lparr>tag = ''DFLT'', script = ex_script\<rparr>,
                 \<lparr>tag = ''cyrl'',
                  script = \<lparr>defaultLangSys = new_langSys,
                            langSysRecords = [\<lparr>tag = ''SRB '', langSys = new_langSys\<rparr>]\<rparr>\<rparr>,
                 \<lparr>tag = ''latn'', script = ex_script\<rparr>],
      features = [], lookups = []\<rparr>"

text \<open>
  GDEF headers with all pointer fields 0, the version decoded as the spec describes
  \<^verbatim>\<open>readVersion16Dot16\<close>: version 1.3 (five pointer fields), version 1.0 (four) and the
  unsupported version 1.1.
\<close>

definition ex_gdef_13 :: "8 word list" where
  "ex_gdef_13 = [0, 1, 0x30, 0,  0, 0,  0, 0,  0, 0,  0, 0,  0, 0]"

definition ex_gdef_10 :: "8 word list" where
  "ex_gdef_10 = [0, 1, 0, 0,  0, 0,  0, 0,  0, 0,  0, 0]"

definition ex_gdef_11 :: "8 word list" where
  "ex_gdef_11 = [0, 1, 0x10, 0,  0, 0,  0, 0,  0, 0,  0, 0]"

definition cursor :: "8 word list \<Rightarrow> nat \<Rightarrow> parser" where
  "cursor d n = \<lparr>data = d, offset = 0, relativeOffset = n\<rparr>"

definition ex_layout_cyrl :: layout where
  "ex_layout_cyrl =
     \<lparr>scripts = [\<lparr>tag = ''DFLT'', script = ex_script\<rparr>,
                 \<lparr>tag = ''cyrl'', script = ex_script\<rparr>,
                 \<lparr>tag = ''latn'', script = ex_script\<rparr>],
      features = [], lookups = []\<rparr>"

text \<open>The script table of the script \<^verbatim>\<open>cyrl\<close> of \<open>ex_layout_srb\<close>, with its one language system.\<close>

definition ex_script_srb :: scriptTable where
  "ex_script_srb = \<lparr>defaultLangSys = new_langSys,
                     langSysRecords = [\<lparr>tag = ''SRB '', langSys = new_langSys\<rparr>]\<rparr>"

text \<open>
  A table whose feature \<^verbatim>\<open>liga\<close> refers to the lookups 1 and 0, of the types 1 and 4;
  the lookup 2, of type 6, is referred to by no feature.
\<close>

definition ex_liga_lookups :: layout where
  "ex_liga_lookups =
     \<lparr>scripts = [ex_dflt_script [0]],
      features = [\<lparr>tag = ''liga'', feature = \<lparr>params = 0, lookupListIndexes = [1, 0]\<rparr>\<rparr>],
      lookups = [new_lookup 4, new_lookup 1, new_lookup 6]\<rparr>"

definition ex_liga_lookups_created :: layout where
  "ex_liga_lookups_created =
     \<lparr>scripts = [ex_dflt_script [0]],
      features = [\<lparr>tag = ''liga'', feature = \<lparr>params = 0, lookupListIndexes = [1, 0, 3]\<rparr>\<rparr>],
      lookups = [new_lookup 4, new_lookup 1, new_lookup 6, new_lookup 6]\<rparr>"

text \<open>The same table with a reference to a lookup that does not exist.\<close>

definition ex_liga_dangling :: layout where
  "ex_liga_dangling =
     \<lparr>scripts = [ex_dflt_script [0]],
      features = [\<lparr>tag = ''liga'', feature = \<lparr>params = 0, lookupListIndexes = [1, 7]\<rparr>\<rparr>],
      lookups = [new_lookup 4, new_lookup 1, new_lookup 6]\<rparr>"

text \<open>
  A GDEF table of version 1.2 (the version decoded as the spec describes
  \<^verbatim>\<open>readVersion16Dot16\<close>) whose header points to a ClassDef of format 1 at 14, to an
  AttachList at 40 and to MarkGlyphSets at 26; the other two pointer fields are 0.
\<close>

definition ex_gdef_12 :: "8 word list" where
  "ex_gdef_12 =
     [0, 1, 0x20, 0,   0, 14,  0, 40,  0, 0,  0, 0,  0, 26,
      0, 1,  0, 5,  0, 3,  0, 1,  0, 2,  0, 0,
      0, 1,  0, 1,  0, 6,   0, 1,  0, 2,  0, 3,  0, 7,
      0, 10,  0, 1,  0, 6,   0, 1,  0, 9,   0, 1,  0, 1,  0, 4]"

definition ex_gdef_12_table :: gdef where
  "ex_gdef_12_table =
     \<lparr>version = 12 / 10,
      classDef = Some \<lparr>format = 1, ranges = [], startGlyph = 5, classes = [1, 2, 0]\<rparr>,
      attachList = Some \<lparr>coverage = Some \<lparr>format = 1, ranges = [], glyphs = [4]\<rparr>,
                         attachPoints = [Some [9]]\<rparr>,
      ligCaretList = None,
      markAttachClassDef = None,
      markGlyphSets = Some (Some [Some \<lparr>format = 1, ranges = [], glyphs = [3, 7]\<rparr>])\<rparr>"

text \<open>A GDEF table of version 1.0 whose ClassDef, at 12, has the unsupported format 3.\<close>

definition ex_gdef_bad_classDef :: "8 word list" where
  "ex_gdef_bad_classDef = [0, 1, 0, 0,   0, 12,  0, 0,  0, 0,  0, 0,   0, 3,  0, 0]"

text \<open>
  A GDEF table of version 1.0 whose header points to a LigCaretList at 12 (one
  ligature glyph with two caret values, of the formats 1 and 2) and to a mark
  attachment ClassDef of format 2 at 38; the other two pointer fields are 0.
\<close>

definition ex_gdef_lig :: "8 word list" where
  "ex_gdef_lig =
     [0, 1, 0, 0,   0, 0,  0, 0,  0, 12,  0, 38,
      0, 6,  0, 1,  0, 12,
      0, 1,  0, 1,  0, 8,
      0, 2,  0, 6,  0, 10,
      0, 1,  0xFF, 0xFE,
      0, 2,  0, 3,
      0, 2,  0, 1,  0, 10,  0, 12,  0, 3]"

definition ex_gdef_lig_table :: gdef where
  "ex_gdef_lig_table =
     \<lparr>version = 1,
      classDef = None,
      attachList = None,
      ligCaretList = Some \<lparr>coverage = Some \<lparr>format = 1, ranges = [], glyphs = [8]\<rparr>,
                           ligGlyphs = [Some [Some (Coordinate (- 2)), Some (Pointindex 3)]]\<rparr>,
      markAttachClassDef = Some \<lparr>format = 2,
                                 ranges = [\<lparr>start = 10, end' = 12, classId = 3\<rparr>],
                                 startGlyph = 0, classes = []\<rparr>,
      markGlyphSets = None\<rparr>"

section \<open>Correctness of the binary searches\<close>

lemma js_index_map: "js_index (map f arr) i = map_option f (js_index arr i)"
  by (auto simp add: js_index_def)

lemma binSearch_loop_bounds:
  assumes "0 \<le> iMin" "iMax < int (length xs)" "iMin \<le> iMax + 1"
  shows "\<exists>r. binSearch_loop xs v iMin iMax = Inr r \<and>
           ((0 \<le> r \<and> r < int (length xs) \<and> xs ! nat r = v) \<or>
            (r < 0 \<and> iMin \<le> - r - 1 \<and> - r - 1 \<le> iMax + 1))"
  using assms
proof (induction xs v iMin iMax rule: binSearch_loop.induct)
  case (1 arr v iMin iMax)
  show ?case
  proof (cases "iMin \<le> iMax")
    case False
    with 1(3-) show ?thesis by (subst binSearch_loop.simps) simp
  next
    case True
    let ?m = "(iMin + iMax) div 2"
    have mid: "iMin \<le> ?m" "?m \<le> iMax" using True by auto
    have idx: "js_index arr ?m = Some (arr ! nat ?m)"
      using mid 1(3,4) by (simp add: js_index_def)
    consider (eq) "arr ! nat ?m = v" | (lt) "arr ! nat ?m < v" | (gt) "v < arr ! nat ?m"
      by (metis less_linear)
    then show ?thesis
    proof cases
      case eq
      with True idx mid 1(3,4) show ?thesis
        by (subst binSearch_loop.simps) simp
    next
      case lt
      then have ne: "arr ! nat ?m \<noteq> v" by simp
      have "\<exists>r. binSearch_loop arr v (?m + 1) iMax = Inr r \<and>
           ((0 \<le> r \<and> r < int (length arr) \<and> arr ! nat r = v) \<or>
            (r < 0 \<and> ?m + 1 \<le> - r - 1 \<and> - r - 1 \<le> iMax + 1))"
        using 1(1)[OF True refl idx ne lt] mid 1(3,4) by simp
      then obtain r where r: "binSearch_loop arr v (?m + 1) iMax = Inr r"
          "(0 \<le> r \<and> r < int (length arr) \<and> arr ! nat r = v) \<or>
            (r < 0 \<and> ?m + 1 \<le> - r - 1 \<and> - r - 1 \<le> iMax + 1)" by blast
      have "binSearch_loop arr v iMin iMax = Inr r"
        using True idx ne lt r(1) by (subst binSearch_loop.simps) simp
      with r(2) mid show ?thesis by auto
    next
      case gt
      then have ne: "arr ! nat ?m \<noteq> v" and nlt: "\<not> arr ! nat ?m < v" by auto
      have "\<exists>r. binSearch_loop arr v iMin (?m - 1) = Inr r \<and>
           ((0 \<le> r \<and> r < int (length arr) \<and> arr ! nat r = v) \<or>
            (r < 0 \<and> iMin \<le> - r - 1 \<and> - r - 1 \<le> ?m - 1 + 1))"
        using 1(2)[OF True refl idx ne nlt] mid 1(3,4) by simp
      then obtain r where r: "binSearch_loop arr v iMin (?m - 1) = Inr r"
          "(0 \<le> r \<and> r < int (length arr) \<and> arr ! nat r = v) \<or>
            (r < 0 \<and> iMin \<le> - r - 1 \<and> - r - 1 \<le> ?m - 1 + 1)" by blast
      have "binSearch_loop arr v iMin iMax = Inr r"
        using True idx ne nlt r(1) by (subst binSearch_loop.simps) simp
      with r(2) mid show ?thesis by auto
    qed
  qed
qed

lemma binSearch_loop_sorted:
  assumes "sorted xs" "0 \<le> iMin" "iMax < int (length xs)" "iMin \<le> iMax + 1"
    and "\<forall>i<nat iMin. xs ! i < v"
    and "\<forall>i. nat (iMax + 1) \<le> i \<and> i < length xs \<longrightarrow> v < xs ! i"
    and "binSearch_loop xs v iMin iMax = Inr r" "r < 0"
  shows "(\<forall>i<nat (- r - 1). xs ! i < v) \<and>
         (\<forall>i. nat (- r - 1) \<le> i \<and> i < length xs \<longrightarrow> v < xs ! i)"
  using assms
proof (induction xs v iMin iMax rule: binSearch_loop.induct)
  case (1 arr v iMin iMax)
  show ?case
  proof (cases "iMin \<le> iMax")
    case False
    then have "r = - iMin - 1" using "1.prems"(7) by (subst (asm) binSearch_loop.simps) simp
    moreover have "iMax + 1 = iMin" using False "1.prems"(4) by simp
    ultimately show ?thesis using "1.prems"(5,6) by simp
  next
    case True
    let ?m = "(iMin + iMax) div 2"
    have mid: "iMin \<le> ?m" "?m \<le> iMax" using True by auto
    have idx: "js_index arr ?m = Some (arr ! nat ?m)"
      using mid "1.prems"(2,3) by (simp add: js_index_def)
    have mlen: "nat ?m < length arr" using mid "1.prems"(2,3) by simp
    consider (eq) "arr ! nat ?m = v" | (lt) "arr ! nat ?m < v" | (gt) "v < arr ! nat ?m"
      by (metis less_linear)
    then show ?thesis
    proof cases
      case eq
      then have "r = ?m" using True idx "1.prems"(7) by (subst (asm) binSearch_loop.simps) simp
      with mid "1.prems"(2,8) show ?thesis by simp
    next
      case lt
      then have ne: "arr ! nat ?m \<noteq> v" by simp
      have rec: "binSearch_loop arr v (?m + 1) iMax = Inr r"
        using True idx ne lt "1.prems"(7) by (subst (asm) binSearch_loop.simps) simp
      have below: "\<forall>i<nat (?m + 1). arr ! i < v"
      proof (intro allI impI)
        fix i assume "i < nat (?m + 1)"
        then have "i \<le> nat ?m" using mid "1.prems"(2) by simp
        then have "arr ! i \<le> arr ! nat ?m"
          using "1.prems"(1) mlen by (simp add: sorted_nth_mono)
        with lt show "arr ! i < v" by simp
      qed
      show ?thesis
        using "1.IH"(1)[OF True refl idx ne lt "1.prems"(1) _ "1.prems"(3) _ below "1.prems"(6) rec "1.prems"(8)]
          mid "1.prems"(2) by simp
    next
      case gt
      then have ne: "arr ! nat ?m \<noteq> v" and nlt: "\<not> arr ! nat ?m < v" by auto
      have rec: "binSearch_loop arr v iMin (?m - 1) = Inr r"
        using True idx ne nlt "1.prems"(7) by (subst (asm) binSearch_loop.simps) simp
      have above: "\<forall>i. nat (?m - 1 + 1) \<le> i \<and> i < length arr \<longrightarrow> v < arr ! i"
      proof (intro allI impI)
        fix i assume "nat (?m - 1 + 1) \<le> i \<and> i < length arr"
        then have "nat ?m \<le> i" "i < length arr" by simp_all
        then have "arr ! nat ?m \<le> arr ! i"
          using "1.prems"(1) by (simp add: sorted_nth_mono)
        with gt show "v < arr ! i" by simp
      qed
      show ?thesis
        using "1.IH"(2)[OF True refl idx ne nlt "1.prems"(1,2) _ _ "1.prems"(5) above rec "1.prems"(8)]
          mid "1.prems"(2,3) by simp
    qed
  qed
qed

lemma binSearch_sorted_neg:
  assumes "sorted xs" "binSearch xs v = Inr r" "r < 0"
  shows "(\<forall>i<nat (- r - 1). xs ! i < v) \<and>
         (\<forall>i. nat (- r - 1) \<le> i \<and> i < length xs \<longrightarrow> v < xs ! i)"
proof (rule binSearch_loop_sorted[OF assms(1)])
  show "binSearch_loop xs v 0 (int (length xs) - 1) = Inr r"
    using assms(2) by (simp add: binSearch_def)
qed (use assms(3) in auto)

lemma binSearch_never_raises:
  "\<exists>r. binSearch xs v = Inr r \<and>
        ((0 \<le> r \<and> r < int (length xs) \<and> xs ! nat r = v) \<or>
         (r < 0 \<and> 0 \<le> - r - 1 \<and> - r - 1 \<le> int (length xs)))"
  using binSearch_loop_bounds[of 0 "int (length xs) - 1" xs v]
  by (simp add: binSearch_def)

lemma binSearch_present:
  assumes "sorted_wrt (<) xs" "i < length xs"
  shows "binSearch xs (xs ! i) = Inr (int i)"
proof -
  have srt: "sorted xs" using assms(1) by (simp add: strict_sorted_iff)
  have dist: "distinct xs" using assms(1) by (simp add: strict_sorted_iff)
  obtain r where r: "binSearch xs (xs ! i) = Inr r"
    "(0 \<le> r \<and> r < int (length xs) \<and> xs ! nat r = xs ! i) \<or>
         (r < 0 \<and> 0 \<le> - r - 1 \<and> - r - 1 \<le> int (length xs))"
    using binSearch_never_raises by blast
  show ?thesis
  proof (cases "r < 0")
    case True
    have "(\<forall>j<nat (- r - 1). xs ! j < xs ! i) \<and>
         (\<forall>j. nat (- r - 1) \<le> j \<and> j < length xs \<longrightarrow> xs ! i < xs ! j)"
      using binSearch_sorted_neg[OF srt r(1) True] .
    then have False using assms(2) by (metis less_irrefl not_le_imp_less)
    then show ?thesis ..
  next
    case False
    with r(2) have "nat r < length xs" "xs ! nat r = xs ! i" "0 \<le> r" by auto
    then have "nat r = i" using dist assms(2) by (simp add: nth_eq_iff_index_eq)
    with \<open>0 \<le> r\<close> r(1) show ?thesis by simp
  qed
qed

lemma binSearch_absent:
  assumes "sorted xs" "v \<notin> set xs"
  shows "\<exists>k\<le>length xs. binSearch xs v = Inr (- int k - 1) \<and>
           (\<forall>i<k. xs ! i < v) \<and> (\<forall>i. k \<le> i \<and> i < length xs \<longrightarrow> v < xs ! i)"
proof -
  obtain r where r: "binSearch xs v = Inr r"
    "(0 \<le> r \<and> r < int (length xs) \<and> xs ! nat r = v) \<or>
         (r < 0 \<and> 0 \<le> - r - 1 \<and> - r - 1 \<le> int (length xs))"
    using binSearch_never_raises by blast
  have neg: "r < 0" "0 \<le> - r - 1" "- r - 1 \<le> int (length xs)"
  proof -
    have "\<not> (0 \<le> r \<and> r < int (length xs) \<and> xs ! nat r = v)"
    proof
      assume a: "0 \<le> r \<and> r < int (length xs) \<and> xs ! nat r = v"
      then have "nat r < length xs" by auto
      then have "xs ! nat r \<in> set xs" by (rule nth_mem)
      with a assms(2) show False by simp
    qed
    with r(2) show "r < 0" "0 \<le> - r - 1" "- r - 1 \<le> int (length xs)" by auto
  qed
  have "(\<forall>j<nat (- r - 1). xs ! j < v) \<and>
         (\<forall>j. nat (- r - 1) \<le> j \<and> j < length xs \<longrightarrow> v < xs ! j)"
    using binSearch_sorted_neg[OF assms(1) r(1) neg(1)] .
  moreover have "r = - int (nat (- r - 1)) - 1" using neg by simp
  moreover have "nat (- r - 1) \<le> length xs" using neg by simp
  ultimately show ?thesis using r(1) by metis
qed

lemma sorted_insert_at:
  assumes "sorted xs" "k \<le> length xs" "\<forall>i<k. xs ! i < v"
    "\<forall>i. k \<le> i \<and> i < length xs \<longrightarrow> v < xs ! i"
  shows "sorted (take k xs @ [v] @ drop k xs)"
proof -
  have s: "sorted (take k xs)" "sorted (drop k xs)"
    using assms(1) by simp_all
  have lo: "\<forall>x\<in>set (take k xs). x \<le> v"
    using assms(2,3) by (auto simp: in_set_conv_nth less_imp_le)
  have hi: "\<forall>y\<in>set (drop k xs). v \<le> y"
    using assms(2,4) by (auto simp: in_set_conv_nth less_imp_le)
  have "\<forall>x\<in>set (take k xs). \<forall>y\<in>set (drop k xs). x \<le> y"
    using lo hi by (auto intro: order_trans)
  with s lo hi show ?thesis by (simp add: sorted_append)
qed

lemma strict_sorted_insert_at:
  assumes "sorted_wrt (<) (xs :: ('a::linorder) list)" "k \<le> length xs" "\<forall>i<k. xs ! i < v"
    "\<forall>i. k \<le> i \<and> i < length xs \<longrightarrow> v < xs ! i"
  shows "sorted_wrt (<) (take k xs @ [v] @ drop k xs)"
proof -
  have s: "sorted_wrt (<) (take k xs)" "sorted_wrt (<) (drop k xs)"
    using assms(1) by simp_all
  have lo: "\<forall>x\<in>set (take k xs). x < v"
    using assms(2,3) by (auto simp: in_set_conv_nth)
  have hi: "\<forall>y\<in>set (drop k xs). v < y"
    using assms(2,4) by (auto simp: in_set_conv_nth)
  have "\<forall>x\<in>set (take k xs). \<forall>y\<in>set (drop k xs). x < y"
    using lo hi by (auto intro: less_trans)
  with s lo hi show ?thesis by (simp add: sorted_wrt_append)
qed

lemma searchTag_loop_binSearch:
  "searchTag_loop arr t iMin iMax = binSearch_loop (map tag arr) t iMin iMax"
proof (induction arr t iMin iMax rule: searchTag_loop.induct)
  case (1 arr t iMin iMax)
  show ?case
  proof (cases "iMin \<le> iMax")
    case False
    then show ?thesis
      by (subst searchTag_loop.simps, subst binSearch_loop.simps) simp
  next
    case True
    show ?thesis
    proof (cases "js_index arr ((iMin + iMax) div 2)")
      case None
      with True show ?thesis
        by (subst searchTag_loop.simps, subst binSearch_loop.simps) (simp add: js_index_map)
    next
      case (Some r)
      with True 1 show ?thesis
        by (subst searchTag_loop.simps, subst binSearch_loop.simps) (simp add: js_index_map Let_def)
    qed
  qed
qed

lemma searchTag_binSearch: "searchTag arr t = binSearch (map tag arr) t"
  by (simp add: searchTag_def binSearch_def searchTag_loop_binSearch)

lemma splice_insert_at:
  "k \<le> length arr \<Longrightarrow> splice_insert arr (int k) r = take k arr @ [r] @ drop k arr"
  by (simp add: splice_insert_def splice_start_def)

lemma splice_start_at: "k \<le> length arr \<Longrightarrow> splice_start arr (int k) = k"
  by (simp add: splice_start_def)

text \<open>
  Claim C4. On an array of records sorted strictly ascending by tag, \<^verbatim>\<open>searchTag\<close>
  returns the index of every record whose tag is searched for. For a tag that no record
  has, it returns \<open>- k - 1\<close> for an insertion index \<open>k\<close> within the array, and
  splicing a record with that tag at \<open>k\<close> puts it between the first \<open>k\<close> records and
  the rest, and keeps the array sorted strictly ascending by tag. The search never raises.
\<close>

theorem searchTag_index_or_insertion_point:
  assumes "sorted_wrt (<) (map tag arr)"
  shows "(\<forall>i<length arr. searchTag arr (tag (arr ! i)) = Inr (int i)) \<and>
         (\<forall>t. t \<notin> tag ` set arr \<longrightarrow>
            (\<exists>k\<le>length arr. searchTag arr t = Inr (- int k - 1) \<and>
               (\<forall>r. tag r = t \<longrightarrow>
                  splice_insert arr (int k) r = take k arr @ [r] @ drop k arr \<and>
                  sorted_wrt (<) (map tag (splice_insert arr (int k) r)))))"
proof (intro conjI allI impI)
  fix i assume "i < length arr"
  then show "searchTag arr (tag (arr ! i)) = Inr (int i)"
    using binSearch_present[OF assms, of i] by (simp add: searchTag_binSearch)
next
  fix t assume t: "t \<notin> tag ` set arr"
  have srt: "sorted (map tag arr)" using assms by (simp add: strict_sorted_iff)
  from t have "t \<notin> set (map tag arr)" by simp
  from binSearch_absent[OF srt this]
  obtain k where k: "k \<le> length arr" "binSearch (map tag arr) t = Inr (- int k - 1)"
    "\<forall>i<k. map tag arr ! i < t" "\<forall>i. k \<le> i \<and> i < length (map tag arr) \<longrightarrow> t < map tag arr ! i"
    by auto
  have "sorted_wrt (<) (map tag (splice_insert arr (int k) r))" if "tag r = t" for r
  proof -
    have "sorted_wrt (<) (take k (map tag arr) @ [t] @ drop k (map tag arr))"
      using strict_sorted_insert_at[OF assms _ k(3,4)] k(1) by simp
    then show ?thesis using that k(1) by (simp add: splice_insert_at take_map drop_map)
  qed
  with k(1,2) show "\<exists>k\<le>length arr. searchTag arr t = Inr (- int k - 1) \<and>
               (\<forall>r. tag r = t \<longrightarrow>
                  splice_insert arr (int k) r = take k arr @ [r] @ drop k arr \<and>
                  sorted_wrt (<) (map tag (splice_insert arr (int k) r)))"
    by (auto simp: searchTag_binSearch splice_insert_at)
qed

theorem searchTag_index_or_insertion_point_witness:
  "sorted_wrt (<) (map tag ex_scripts) \<and>
   searchTag ex_scripts ''latn'' = Inr 1 \<and>
   ''cyrl'' \<notin> tag ` set ex_scripts \<and>
   searchTag ex_scripts ''cyrl'' = Inr (- 2) \<and>
   sorted_wrt (<) (map tag (splice_insert ex_scripts 1 \<lparr>tag = ''cyrl'', script = ex_script\<rparr>))"
proof -
  have s: "sorted_wrt (<) (map tag ex_scripts)" by (simp add: ex_scripts_def)
  note T = searchTag_index_or_insertion_point[OF s]
  have a: "searchTag ex_scripts (tag (ex_scripts ! 1)) = Inr (int 1)"
    using T[THEN conjunct1, rule_format, of 1] by (simp add: ex_scripts_def)
  have n: "''cyrl'' \<notin> tag ` set ex_scripts" by (simp add: ex_scripts_def)
  with T obtain k where k: "searchTag ex_scripts ''cyrl'' = Inr (- int k - 1)"
    "\<forall>r::scriptRecord. tag r = ''cyrl'' \<longrightarrow> sorted_wrt (<) (map tag (splice_insert ex_scripts (int k) r))"
    by blast
  have "searchTag ex_scripts ''cyrl'' = Inr (- 2)"
    by (simp add: searchTag_def searchTag_loop.simps ex_scripts_def js_index_def)
  with k(1) have "k = 1" by simp
  with k have "searchTag ex_scripts ''cyrl'' = Inr (- 2)"
    "sorted_wrt (<) (map tag (splice_insert ex_scripts 1 \<lparr>tag = ''cyrl'', script = ex_script\<rparr>))"
    by simp_all
  with s a n show ?thesis by (simp add: ex_scripts_def)
qed

lemma js_index_Some: "0 \<le> i \<Longrightarrow> i < int (length arr) \<Longrightarrow> js_index arr i = Some (arr ! nat i)"
  by (simp add: js_index_def)

text \<open>What \<^verbatim>\<open>searchRange\<close> makes of the outcome of the search for the start.\<close>

lemma searchRange_loop_binSearch:
  assumes "0 \<le> iMin"
  shows "searchRange_loop rs v iMin iMax =
     (case binSearch_loop (map start rs) v iMin iMax of
        Inl e \<Rightarrow> Inl e
      | Inr r \<Rightarrow>
          if 0 \<le> r then (case js_index rs r of None \<Rightarrow> Inl TypeError | Some rng \<Rightarrow> Inr (Found rng))
          else if - r - 1 > 0 then
            (case js_index rs (- r - 1 - 1) of
               None \<Rightarrow> Inl TypeError
             | Some rng \<Rightarrow> if v > end' rng then Inr Zero else Inr (Found rng))
          else Inr Undefined)"
  using assms
proof (induction rs v iMin iMax rule: searchRange_loop.induct)
  case (1 rs v iMin iMax)
  show ?case
  proof (cases "iMin \<le> iMax")
    case False
    with "1.prems" show ?thesis
      by (subst searchRange_loop.simps, subst binSearch_loop.simps) simp
  next
    case True
    let ?m = "(iMin + iMax) div 2"
    have mid: "iMin \<le> ?m" "?m \<le> iMax" using True by auto
    show ?thesis
    proof (cases "js_index rs ?m")
      case None
      with True show ?thesis
        by (subst searchRange_loop.simps, subst binSearch_loop.simps) (simp add: js_index_map)
    next
      case (Some rng)
      consider (eq) "start rng = v" | (lt) "start rng \<noteq> v" "start rng < v"
        | (gt) "start rng \<noteq> v" "\<not> start rng < v"
        by blast
      then show ?thesis
      proof cases
        case eq
        with True Some mid "1.prems" show ?thesis
          by (subst searchRange_loop.simps, subst binSearch_loop.simps) (simp add: js_index_map)
      next
        case lt
        have "0 \<le> ?m + 1" using mid "1.prems" by simp
        from "1.IH"(1)[OF True refl Some refl lt this] True Some lt show ?thesis
          by (subst searchRange_loop.simps, subst binSearch_loop.simps) (simp add: js_index_map)
      next
        case gt
        from "1.IH"(2)[OF True refl Some refl gt "1.prems"] True Some gt show ?thesis
          by (subst searchRange_loop.simps, subst binSearch_loop.simps) (simp add: js_index_map)
      qed
    qed
  qed
qed

lemma searchRange_binSearch:
  "searchRange rs v =
     (case binSearch (map start rs) v of
        Inl e \<Rightarrow> Inl e
      | Inr r \<Rightarrow>
          if 0 \<le> r then (case js_index rs r of None \<Rightarrow> Inl TypeError | Some rng \<Rightarrow> Inr (Found rng))
          else if - r - 1 > 0 then
            (case js_index rs (- r - 1 - 1) of
               None \<Rightarrow> Inl TypeError
             | Some rng \<Rightarrow> if v > end' rng then Inr Zero else Inr (Found rng))
          else Inr Undefined)"
  using searchRange_loop_binSearch[of 0 rs v "int (length rs) - 1"]
  by (simp add: searchRange_def binSearch_def)

lemma ascending_ranges_starts:
  assumes "ascending_ranges rs"
  shows "sorted_wrt (<) (map start rs)"
proof -
  have "sorted_wrt (\<lambda>a b. start a < start b) rs"
  proof (rule sorted_wrt_mono_rel[of rs "\<lambda>a b. end' a < start b"])
    fix a b assume "a \<in> set rs" "b \<in> set rs" "end' a < start b"
    moreover from \<open>a \<in> set rs\<close> assms have "start a \<le> end' a"
      by (simp add: ascending_ranges_def)
    ultimately show "start a < start b" by simp
  next
    show "sorted_wrt (\<lambda>a b. end' a < start b) rs"
      using assms by (simp add: ascending_ranges_def)
  qed
  then show ?thesis by (simp add: sorted_wrt_map)
qed

lemma ascending_ranges_nth:
  assumes "ascending_ranges rs" "i < j" "j < length rs"
  shows "end' (rs ! i) < start (rs ! j)"
proof -
  from assms(1) have "sorted_wrt (\<lambda>a b. end' a < start b) rs"
    by (simp add: ascending_ranges_def)
  from sorted_wrt_nth_less[OF this assms(2,3)] show ?thesis .
qed

lemma ascending_ranges_nonempty:
  assumes "ascending_ranges rs" "i < length rs"
  shows "start (rs ! i) \<le> end' (rs ! i)"
  using assms by (simp add: ascending_ranges_def)

lemma searchRange_contained:
  assumes asc: "ascending_ranges rs" and j: "j < length rs"
    and lo: "start (rs ! j) \<le> v" and hi: "v \<le> end' (rs ! j)"
  shows "searchRange rs v = Inr (Found (rs ! j))"
proof (cases "start (rs ! j) = v")
  case True
  have "binSearch (map start rs) (map start rs ! j) = Inr (int j)"
    using binSearch_present[OF ascending_ranges_starts[OF asc], of j] j by simp
  with True j show ?thesis
    by (simp add: searchRange_binSearch js_index_def)
next
  case False
  with lo have lt: "start (rs ! j) < v" by simp
  have srt: "sorted (map start rs)"
    using ascending_ranges_starts[OF asc] by (simp add: strict_sorted_iff)
  have absent: "v \<notin> set (map start rs)"
  proof
    assume "v \<in> set (map start rs)"
    then obtain i where i: "i < length rs" "start (rs ! i) = v"
      by (auto simp: in_set_conv_nth)
    consider "i < j" | "i = j" | "j < i" by linarith
    then show False
    proof cases
      case 1
      from ascending_ranges_nth[OF asc 1 j] ascending_ranges_nonempty[OF asc i(1)] i(2) lt
      show False by simp
    next
      case 2
      with i(2) False show False by simp
    next
      case 3
      from ascending_ranges_nth[OF asc 3 i(1)] i(2) hi show False by simp
    qed
  qed
  from binSearch_absent[OF srt absent]
  obtain k where k: "k \<le> length rs" "binSearch (map start rs) v = Inr (- int k - 1)"
    "\<forall>i<k. map start rs ! i < v" "\<forall>i. k \<le> i \<and> i < length (map start rs) \<longrightarrow> v < map start rs ! i"
    by auto
  have "j < k"
  proof (rule ccontr)
    assume "\<not> j < k"
    with k(4) j have "v < start (rs ! j)" by simp
    with lt show False by simp
  qed
  have "\<not> j < k - 1"
  proof
    assume a: "j < k - 1"
    then have "k - 1 < length rs" "k - 1 < k" using k(1) by simp_all
    with k(3) have "start (rs ! (k - 1)) < v" by simp
    moreover from ascending_ranges_nth[OF asc a \<open>k - 1 < length rs\<close>]
    have "end' (rs ! j) < start (rs ! (k - 1))" .
    ultimately show False using hi by simp
  qed
  with \<open>j < k\<close> have kj: "k = Suc j" by simp
  then have "js_index rs (- (- int k - 1) - 1 - 1) = Some (rs ! j)"
    using j by (simp add: js_index_def)
  with k(2) kj hi show ?thesis
    by (simp add: searchRange_binSearch)
qed

lemma searchRange_uncontained:
  assumes asc: "ascending_ranges rs"
    and none: "\<forall>r\<in>set rs. \<not> (start r \<le> v \<and> v \<le> end' r)"
  shows "searchRange rs v = Inr Zero \<or> searchRange rs v = Inr Undefined"
proof -
  have srt: "sorted (map start rs)"
    using ascending_ranges_starts[OF asc] by (simp add: strict_sorted_iff)
  have absent: "v \<notin> set (map start rs)"
  proof
    assume "v \<in> set (map start rs)"
    then obtain r where r: "r \<in> set rs" "start r = v" by auto
    with asc have "start r \<le> v \<and> v \<le> end' r" by (auto simp: ascending_ranges_def)
    with none r(1) show False by blast
  qed
  from binSearch_absent[OF srt absent]
  obtain k where k: "k \<le> length rs" "binSearch (map start rs) v = Inr (- int k - 1)"
    "\<forall>i<k. map start rs ! i < v"
    by auto
  show ?thesis
  proof (cases "k = 0")
    case True
    with k(2) show ?thesis by (simp add: searchRange_binSearch)
  next
    case False
    then have k1: "k - 1 < length rs" "k - 1 < k" using k(1) by simp_all
    with k(3) have "start (rs ! (k - 1)) < v" by simp
    moreover have "rs ! (k - 1) \<in> set rs" using k1(1) by simp
    ultimately have gt: "v > end' (rs ! (k - 1))" using none by force
    have "js_index rs (- (- int k - 1) - 1 - 1) = Some (rs ! (k - 1))"
      using k1 False by (simp add: js_index_def nat_diff_distrib)
    with k(2) gt False show ?thesis by (simp add: searchRange_binSearch)
  qed
qed

section \<open>Coverage and ClassDef queries: correctness\<close>

lemma pushRange_upto: "pushRange j e gs = gs @ [j..e]"
proof (induction j e gs rule: pushRange.induct)
  case (1 j e gs)
  show ?case
  proof (cases "j \<le> e")
    case True
    have "pushRange j e gs = pushRange (j + 1) e (gs @ [j])"
      using True by (subst pushRange.simps) simp
    also have "\<dots> = (gs @ [j]) @ [j + 1..e]" using 1[OF True] .
    also have "\<dots> = gs @ [j..e]" using True by (simp add: upto_rec1)
    finally show ?thesis .
  next
    case False
    then show ?thesis by (subst pushRange.simps) simp
  qed
qed

lemma expandRanges_range_glyphs: "expandRanges rs gs = gs @ range_glyphs rs"
  by (induction rs arbitrary: gs) (simp_all add: range_glyphs_def pushRange_upto)

lemma ascending_ranges_Cons:
  "ascending_ranges (r # rs) \<longleftrightarrow>
     start r \<le> end' r \<and> (\<forall>x\<in>set rs. end' r < start x) \<and> ascending_ranges rs"
  by (auto simp: ascending_ranges_def)

lemma range_glyphs_Cons: "range_glyphs (r # rs) = [start r..end' r] @ range_glyphs rs"
  by (simp add: range_glyphs_def)

lemma set_range_glyphs:
  "set (range_glyphs rs) = {g. \<exists>r\<in>set rs. start r \<le> g \<and> g \<le> end' r}"
  by (auto simp: range_glyphs_def)

lemma range_glyphs_ascending:
  "ascending_ranges rs \<Longrightarrow> sorted_wrt (<) (range_glyphs rs)"
proof (induction rs)
  case Nil
  then show ?case by (simp add: range_glyphs_def)
next
  case (Cons r rs)
  then have r: "start r \<le> end' r" "\<forall>x\<in>set rs. end' r < start x" "ascending_ranges rs"
    by (simp_all add: ascending_ranges_Cons)
  have "\<forall>a\<in>set [start r..end' r]. \<forall>b\<in>set (range_glyphs rs). a < b"
    using r(2) by (fastforce simp: set_range_glyphs)
  moreover have "sorted_wrt (<) [start r..end' r]"
    by (simp add: strict_sorted_iff)
  ultimately show ?case
    using Cons.IH[OF r(3)] by (simp add: range_glyphs_Cons sorted_wrt_append)
qed

lemma first_index_0: "first_index rs 0 = 0"
  by (simp add: first_index_def)

lemma first_index_Suc:
  "first_index (r # rs) (Suc j) = (end' r - start r + 1) + first_index rs j"
  by (simp add: first_index_def)

lemma range_glyphs_position:
  assumes "ascending_ranges rs" "j < length rs" "start (rs ! j) \<le> g" "g \<le> end' (rs ! j)"
  shows "0 \<le> first_index rs j + (g - start (rs ! j)) \<and>
         nat (first_index rs j + (g - start (rs ! j))) < length (range_glyphs rs) \<and>
         range_glyphs rs ! nat (first_index rs j + (g - start (rs ! j))) = g"
  using assms
proof (induction rs arbitrary: j)
  case Nil
  then show ?case by simp
next
  case (Cons r rs)
  from Cons.prems(1) have r: "start r \<le> end' r" "ascending_ranges rs"
    by (simp_all add: ascending_ranges_Cons)
  have len: "length [start r..end' r] = nat (end' r - start r + 1)" by simp
  show ?case
  proof (cases j)
    case 0
    with Cons.prems have g: "start r \<le> g" "g \<le> end' r" by simp_all
    then have "nat (g - start r) < length [start r..end' r]" by simp
    moreover have "[start r..end' r] ! nat (g - start r) = g" using g by simp
    ultimately show ?thesis
      using 0 g by (simp add: first_index_0 range_glyphs_Cons nth_append del: length_upto)
  next
    case (Suc j')
    with Cons.prems have p: "j' < length rs" "start (rs ! j') \<le> g" "g \<le> end' (rs ! j')"
      by simp_all
    let ?k = "first_index rs j' + (g - start (rs ! j'))"
    from Cons.IH[OF r(2) p] have ih: "0 \<le> ?k" "nat ?k < length (range_glyphs rs)"
      "range_glyphs rs ! nat ?k = g" by simp_all
    have eq: "first_index (r # rs) j + (g - start ((r # rs) ! j)) = (end' r - start r + 1) + ?k"
      using Suc by (simp add: first_index_Suc)
    have nat_eq: "nat ((end' r - start r + 1) + ?k) = length [start r..end' r] + nat ?k"
      using r(1) ih(1) by (simp add: nat_add_distrib)
    show ?thesis
      unfolding eq nat_eq range_glyphs_Cons
      using ih r(1) by (simp add: nth_append del: length_upto)
  qed
qed

lemma in_range_glyphs_nth:
  assumes "g \<in> set (range_glyphs rs)"
  shows "\<exists>j<length rs. start (rs ! j) \<le> g \<and> g \<le> end' (rs ! j)"
proof -
  from assms obtain r where "r \<in> set rs" "start r \<le> g" "g \<le> end' r"
    by (auto simp: set_range_glyphs)
  then show ?thesis by (metis in_set_conv_nth)
qed

lemma getCoverageIndex_format2_contained:
  assumes "format cov = 2" "ascending_ranges (ranges cov)" "j < length (ranges cov)"
    "start (ranges cov ! j) \<le> g" "g \<le> end' (ranges cov ! j)"
  shows "getCoverageIndex cov g = Inr (Some (index (ranges cov ! j) + (g - start (ranges cov ! j))))"
  using assms(1) searchRange_contained[OF assms(2-5)]
  by (simp add: getCoverageIndex_def)

lemma getCoverageIndex_format2_uncovered:
  assumes "format cov = 2" "ascending_ranges (ranges cov)" "g \<notin> set (range_glyphs (ranges cov))"
  shows "getCoverageIndex cov g = Inr (Some (- 1))"
proof -
  have "\<forall>r\<in>set (ranges cov). \<not> (start r \<le> g \<and> g \<le> end' r)"
    using assms(3) by (auto simp: set_range_glyphs)
  from searchRange_uncontained[OF assms(2) this] assms(1) show ?thesis
    by (auto simp: getCoverageIndex_def)
qed

lemma getCoverageIndex_format2_position:
  assumes f: "format cov = 2" and asc: "ascending_ranges (ranges cov)"
    and idx: "indexed_ranges (ranges cov)" and k: "k < length (range_glyphs (ranges cov))"
  shows "getCoverageIndex cov (range_glyphs (ranges cov) ! k) = Inr (Some (int k))"
proof -
  let ?rs = "ranges cov" and ?gs = "range_glyphs (ranges cov)"
  let ?g = "?gs ! k"
  have "?g \<in> set ?gs" using k by simp
  from in_range_glyphs_nth[OF this]
  obtain j where j: "j < length ?rs" "start (?rs ! j) \<le> ?g" "?g \<le> end' (?rs ! j)" by blast
  let ?k' = "first_index ?rs j + (?g - start (?rs ! j))"
  from range_glyphs_position[OF asc j]
  have p: "0 \<le> ?k'" "nat ?k' < length ?gs" "?gs ! nat ?k' = ?g" by simp_all
  have "distinct ?gs" using range_glyphs_ascending[OF asc] by (simp add: strict_sorted_iff)
  with p(2,3) k have "nat ?k' = k" by (simp add: nth_eq_iff_index_eq)
  with p(1) have "?k' = int k" by simp
  moreover have "index (?rs ! j) = first_index ?rs j"
    using idx j(1) by (simp add: indexed_ranges_def)
  ultimately show ?thesis
    using getCoverageIndex_format2_contained[OF f asc j] by simp
qed

lemma getCoverageIndex_format1_position:
  assumes "format cov = 1" "sorted_wrt (<) (glyphs cov)" "k < length (glyphs cov)"
  shows "getCoverageIndex cov (glyphs cov ! k) = Inr (Some (int k))"
  using assms(1) binSearch_present[OF assms(2,3)]
  by (simp add: getCoverageIndex_def)

lemma getCoverageIndex_format1_uncovered:
  assumes "format cov = 1" "sorted_wrt (<) (glyphs cov)" "g \<notin> set (glyphs cov)"
  shows "getCoverageIndex cov g = Inr (Some (- 1))"
proof -
  have "sorted (glyphs cov)" using assms(2) by (simp add: strict_sorted_iff)
  from binSearch_absent[OF this assms(3)] assms(1) show ?thesis
    by (auto simp: getCoverageIndex_def)
qed

text \<open>
  Claim C5. Let a Coverage table of format 1 or 2 represent the ascending,
  duplicate-free glyph set \<open>gs\<close>: in format 1 the glyph list is \<open>gs\<close>, strictly
  ascending; in format 2 the ranges are ascending and non-overlapping, each \<^verbatim>\<open>index\<close>
  is the coverage index of the first glyph of its range, and \<open>gs\<close> lists the glyphs of
  the ranges. Then \<^verbatim>\<open>getCoverageIndex\<close> returns the position in \<open>gs\<close> of every covered
  glyph and \<open>-1\<close> for every glyph outside \<open>gs\<close>; in format 2 the value for a glyph of
  the range \<open>r\<close> is \<open>index r + (g - start r)\<close>.
\<close>

theorem getCoverageIndex_is_position:
  assumes "covers cov gs"
  shows "(\<forall>k<length gs. getCoverageIndex cov (gs ! k) = Inr (Some (int k))) \<and>
         (\<forall>g. g \<notin> set gs \<longrightarrow> getCoverageIndex cov g = Inr (Some (- 1))) \<and>
         (format cov = 2 \<longrightarrow>
            (\<forall>r\<in>set (ranges cov). \<forall>g. start r \<le> g \<and> g \<le> end' r \<longrightarrow>
               getCoverageIndex cov g = Inr (Some (index r + (g - start r)))))"
proof -
  from assms consider
      (f1) "format cov = 1" "glyphs cov = gs" "sorted_wrt (<) gs"
    | (f2) "format cov = 2" "ascending_ranges (ranges cov)" "indexed_ranges (ranges cov)"
           "gs = range_glyphs (ranges cov)"
    by (auto simp: covers_def)
  then show ?thesis
  proof cases
    case f1
    have "getCoverageIndex cov (gs ! k) = Inr (Some (int k))" if "k < length gs" for k
      using getCoverageIndex_format1_position[of cov k] f1 that by simp
    moreover have "getCoverageIndex cov g = Inr (Some (- 1))" if "g \<notin> set gs" for g
      using getCoverageIndex_format1_uncovered[of cov g] f1 that by simp
    ultimately show ?thesis using f1(1) by simp
  next
    case f2
    have "getCoverageIndex cov (gs ! k) = Inr (Some (int k))" if "k < length gs" for k
      using getCoverageIndex_format2_position[OF f2(1-3), of k] f2(4) that by simp
    moreover have "getCoverageIndex cov g = Inr (Some (- 1))" if "g \<notin> set gs" for g
      using getCoverageIndex_format2_uncovered[OF f2(1,2), of g] f2(4) that by simp
    moreover have "getCoverageIndex cov g = Inr (Some (index r + (g - start r)))"
      if "r \<in> set (ranges cov)" "start r \<le> g \<and> g \<le> end' r" for r g
    proof -
      from that(1) obtain j where "j < length (ranges cov)" "ranges cov ! j = r"
        by (auto simp: in_set_conv_nth)
      with getCoverageIndex_format2_contained[OF f2(1,2), of j g] that(2) show ?thesis by simp
    qed
    ultimately show ?thesis by blast
  qed
qed

lemma ex_coverage2_glyphs: "range_glyphs (ranges ex_coverage2) = [2, 3, 4, 10]"
  by (simp add: ex_coverage2_def range_glyphs_def upto_rec1)

lemma ex_coverage2_ascending: "ascending_ranges (ranges ex_coverage2)"
  by (simp add: ex_coverage2_def ascending_ranges_def)

lemma ex_coverage2_indexed: "indexed_ranges (ranges ex_coverage2)"
  by (simp add: ex_coverage2_def indexed_ranges_def first_index_def less_Suc_eq)

theorem getCoverageIndex_is_position_witness:
  "covers ex_coverage1 [3, 5, 8] \<and>
   getCoverageIndex ex_coverage1 5 = Inr (Some 1) \<and>
   getCoverageIndex ex_coverage1 4 = Inr (Some (- 1)) \<and>
   covers ex_coverage2 [2, 3, 4, 10] \<and>
   getCoverageIndex ex_coverage2 10 = Inr (Some 3) \<and>
   getCoverageIndex ex_coverage2 7 = Inr (Some (- 1)) \<and>
   getCoverageIndex ex_coverage2 4 = Inr (Some (0 + (4 - 2)))"
proof -
  have c1: "covers ex_coverage1 [3, 5, 8]"
    by (simp add: covers_def ex_coverage1_def)
  have c2: "covers ex_coverage2 [2, 3, 4, 10]"
    using ex_coverage2_glyphs ex_coverage2_ascending ex_coverage2_indexed
    by (simp add: covers_def) (simp add: ex_coverage2_def)
  note T1 = getCoverageIndex_is_position[OF c1]
  note T2 = getCoverageIndex_is_position[OF c2]
  have "getCoverageIndex ex_coverage1 ([3, 5, 8] ! 1) = Inr (Some (int 1))"
    using T1[THEN conjunct1, rule_format, of 1] by simp
  moreover have "getCoverageIndex ex_coverage1 4 = Inr (Some (- 1))"
    using T1[THEN conjunct2, THEN conjunct1, rule_format, of 4] by simp
  moreover have "getCoverageIndex ex_coverage2 ([2, 3, 4, 10] ! 3) = Inr (Some (int 3))"
    using T2[THEN conjunct1, rule_format, of 3] by simp
  moreover have "getCoverageIndex ex_coverage2 7 = Inr (Some (- 1))"
    using T2[THEN conjunct2, THEN conjunct1, rule_format, of 7] by simp
  moreover have "getCoverageIndex ex_coverage2 4 = Inr (Some (0 + (4 - 2)))"
    using T2[THEN conjunct2, THEN conjunct2, rule_format, of "\<lparr>start = 2, end' = 4, index = 0\<rparr>" 4]
    by (simp add: ex_coverage2_def)
  ultimately show ?thesis using c1 c2 by simp
qed

text \<open>
  Claim C6. For a Coverage table of format 2 whose ranges are ascending and
  non-overlapping and carry the coverage index of their first glyph,
  \<^verbatim>\<open>expandCoverage\<close> yields the glyphs of the ranges in order, a strictly ascending
  sequence that holds exactly the covered glyph ids, and \<^verbatim>\<open>getCoverageIndex\<close> of the
  \<open>k\<close>-th glyph of that sequence is \<open>k\<close>. For the ranges \<open>[{2,4},{10,10}]\<close> the
  expansion is \<open>[2,3,4,10]\<close>.
\<close>

theorem expandCoverage_roundtrip:
  "(format cov = 2 \<and> ascending_ranges (ranges cov) \<and> indexed_ranges (ranges cov) \<longrightarrow>
      expandCoverage cov = range_glyphs (ranges cov) \<and>
      sorted_wrt (<) (expandCoverage cov) \<and>
      set (expandCoverage cov) = {g. \<exists>r\<in>set (ranges cov). start r \<le> g \<and> g \<le> end' r} \<and>
      (\<forall>k<length (expandCoverage cov).
         getCoverageIndex cov (expandCoverage cov ! k) = Inr (Some (int k)))) \<and>
   expandCoverage ex_coverage2 = [2, 3, 4, 10]"
proof (intro conjI impI)
  assume a: "format cov = 2 \<and> ascending_ranges (ranges cov) \<and> indexed_ranges (ranges cov)"
  then show e: "expandCoverage cov = range_glyphs (ranges cov)"
    by (simp add: expandCoverage_def expandRanges_range_glyphs)
  from a have "ascending_ranges (ranges cov)" by simp
  from range_glyphs_ascending[OF this] e show "sorted_wrt (<) (expandCoverage cov)"
    by simp
  show "set (expandCoverage cov) = {g. \<exists>r\<in>set (ranges cov). start r \<le> g \<and> g \<le> end' r}"
    using e set_range_glyphs by simp
  show "\<forall>k<length (expandCoverage cov).
         getCoverageIndex cov (expandCoverage cov ! k) = Inr (Some (int k))"
    using a e getCoverageIndex_format2_position[of cov] by simp
next
  show "expandCoverage ex_coverage2 = [2, 3, 4, 10]"
    using ex_coverage2_glyphs
    by (simp add: expandCoverage_def expandRanges_range_glyphs) (simp add: ex_coverage2_def)
qed

theorem expandCoverage_roundtrip_witness:
  "format ex_coverage2 = 2 \<and> ascending_ranges (ranges ex_coverage2) \<and>
   indexed_ranges (ranges ex_coverage2) \<and>
   expandCoverage ex_coverage2 = [2, 3, 4, 10] \<and>
   map (getCoverageIndex ex_coverage2) [2, 3, 4, 10] = [Inr (Some 0), Inr (Some 1), Inr (Some 2), Inr (Some 3)]"
proof -
  have a: "format ex_coverage2 = 2 \<and> ascending_ranges (ranges ex_coverage2) \<and>
     indexed_ranges (ranges ex_coverage2)"
    using ex_coverage2_ascending ex_coverage2_indexed by (simp add: ex_coverage2_def)
  note T = expandCoverage_roundtrip[of ex_coverage2, THEN conjunct1, rule_format, OF a]
  have e: "expandCoverage ex_coverage2 = [2, 3, 4, 10]"
    using T ex_coverage2_glyphs by simp
  have "\<forall>k<length [2, 3, 4, 10 :: int].
     getCoverageIndex ex_coverage2 ([2, 3, 4, 10] ! k) = Inr (Some (int k))"
    using T[THEN conjunct2, THEN conjunct2, THEN conjunct2] unfolding e .
  then have "map (getCoverageIndex ex_coverage2) [2, 3, 4, 10]
      = [Inr (Some 0), Inr (Some 1), Inr (Some 2), Inr (Some 3)]"
    by (simp add: All_less_Suc numeral_eq_Suc)
  with a e show ?thesis by simp
qed

text \<open>
  Claim C7. In format 1, \<^verbatim>\<open>getGlyphClass\<close> returns the class stored at position
  \<open>g - startGlyph\<close> when \<open>startGlyph \<le> g < startGlyph + length classes\<close>, and 0
  otherwise. In format 2, with ascending non-overlapping ranges, it returns the
  \<^verbatim>\<open>classId\<close> of the range that contains \<open>g\<close>, and 0 when no range contains \<open>g\<close>.
  For \<open>startGlyph = 5\<close> and classes \<open>[1,2,0]\<close>, the glyphs 5, 6, 7 have the classes
  1, 2, 0 and the glyphs 4 and 8 have the class 0.
\<close>

theorem getGlyphClass_classifies:
  "(format cd = 1 \<longrightarrow>
      (startGlyph cd \<le> g \<and> g < startGlyph cd + int (length (classes cd)) \<longrightarrow>
         getGlyphClass cd g = Inr (Some (classes cd ! nat (g - startGlyph cd)))) \<and>
      (\<not> (startGlyph cd \<le> g \<and> g < startGlyph cd + int (length (classes cd))) \<longrightarrow>
         getGlyphClass cd g = Inr (Some 0))) \<and>
   (format cd = 2 \<and> ascending_ranges (ranges cd) \<longrightarrow>
      (\<forall>r\<in>set (ranges cd). start r \<le> g \<and> g \<le> end' r \<longrightarrow>
         getGlyphClass cd g = Inr (Some (classId r))) \<and>
      ((\<forall>r\<in>set (ranges cd). \<not> (start r \<le> g \<and> g \<le> end' r)) \<longrightarrow>
         getGlyphClass cd g = Inr (Some 0))) \<and>
   map (getGlyphClass ex_classDef1) [5, 6, 7, 4, 8]
     = [Inr (Some 1), Inr (Some 2), Inr (Some 0), Inr (Some 0), Inr (Some 0)]"
proof (intro conjI impI ballI)
  assume "format cd = 1"
    and "startGlyph cd \<le> g \<and> g < startGlyph cd + int (length (classes cd))"
  then show "getGlyphClass cd g = Inr (Some (classes cd ! nat (g - startGlyph cd)))"
    by (simp add: getGlyphClass_def js_index_def)
next
  assume "format cd = 1"
    and "\<not> (startGlyph cd \<le> g \<and> g < startGlyph cd + int (length (classes cd)))"
  then show "getGlyphClass cd g = Inr (Some 0)"
    by (auto simp: getGlyphClass_def)
next
  fix r
  assume a: "format cd = 2 \<and> ascending_ranges (ranges cd)" and r: "r \<in> set (ranges cd)"
    and g: "start r \<le> g \<and> g \<le> end' r"
  from r obtain j where j: "j < length (ranges cd)" "ranges cd ! j = r"
    by (auto simp: in_set_conv_nth)
  from searchRange_contained[of "ranges cd" j g] a j g
  have "searchRange (ranges cd) g = Inr (Found r)" by simp
  with a show "getGlyphClass cd g = Inr (Some (classId r))"
    by (simp add: getGlyphClass_def)
next
  assume a: "format cd = 2 \<and> ascending_ranges (ranges cd)"
    and n: "\<forall>r\<in>set (ranges cd). \<not> (start r \<le> g \<and> g \<le> end' r)"
  from searchRange_uncontained[OF _ n] a
  have "searchRange (ranges cd) g = Inr Zero \<or> searchRange (ranges cd) g = Inr Undefined"
    by simp
  with a show "getGlyphClass cd g = Inr (Some 0)"
    by (auto simp: getGlyphClass_def)
next
  show "map (getGlyphClass ex_classDef1) [5, 6, 7, 4, 8]
     = [Inr (Some 1), Inr (Some 2), Inr (Some 0), Inr (Some 0), Inr (Some 0)]"
    by (simp add: getGlyphClass_def ex_classDef1_def js_index_def)
qed

theorem getGlyphClass_classifies_witness:
  "format ex_classDef1 = 1 \<and>
   getGlyphClass ex_classDef1 6 = Inr (Some 2) \<and>
   getGlyphClass ex_classDef1 8 = Inr (Some 0) \<and>
   format ex_classDef2 = 2 \<and> ascending_ranges (ranges ex_classDef2) \<and>
   getGlyphClass ex_classDef2 3 = Inr (Some 7) \<and>
   getGlyphClass ex_classDef2 10 = Inr (Some 9) \<and>
   getGlyphClass ex_classDef2 5 = Inr (Some 0)"
proof -
  have f1: "format ex_classDef1 = 1" by (simp add: ex_classDef1_def)
  have f2: "format ex_classDef2 = 2 \<and> ascending_ranges (ranges ex_classDef2)"
    by (simp add: ex_classDef2_def ascending_ranges_def)
  have "getGlyphClass ex_classDef1 6 = Inr (Some 2)"
    using getGlyphClass_classifies[of ex_classDef1 6] f1 by (simp add: ex_classDef1_def)
  moreover have "getGlyphClass ex_classDef1 8 = Inr (Some 0)"
    using getGlyphClass_classifies[of ex_classDef1 8] f1 by (simp add: ex_classDef1_def)
  moreover have "getGlyphClass ex_classDef2 3 = Inr (Some 7)"
    using getGlyphClass_classifies[of ex_classDef2 3] f2 by (simp add: ex_classDef2_def)
  moreover have "getGlyphClass ex_classDef2 10 = Inr (Some 9)"
    using getGlyphClass_classifies[of ex_classDef2 10] f2 by (simp add: ex_classDef2_def)
  moreover have "getGlyphClass ex_classDef2 5 = Inr (Some 0)"
    using getGlyphClass_classifies[of ex_classDef2 5] f2 by (simp add: ex_classDef2_def)
  ultimately show ?thesis using f1 f2 by simp
qed

text \<open>
  Claim C10. For a ClassDef table whose format is neither 1 nor 2, \<^verbatim>\<open>getGlyphClass\<close>
  returns \<^verbatim>\<open>undefined\<close>: not the sentinel 0, and not an exception. For a
  Coverage table whose format is neither 1 nor 2, \<^verbatim>\<open>getCoverageIndex\<close> returns
  \<^verbatim>\<open>undefined\<close>: not the sentinel \<open>-1\<close>, and not an exception.
\<close>

theorem unknown_format_gives_undefined:
  "(format cd \<noteq> 1 \<and> format cd \<noteq> 2 \<longrightarrow>
      getGlyphClass cd g = Inr None \<and> getGlyphClass cd g \<noteq> Inr (Some 0)) \<and>
   (format cov \<noteq> 1 \<and> format cov \<noteq> 2 \<longrightarrow>
      getCoverageIndex cov g = Inr None \<and> getCoverageIndex cov g \<noteq> Inr (Some (- 1)))"
  by (simp add: getGlyphClass_def getCoverageIndex_def)

theorem unknown_format_gives_undefined_witness:
  "format ex_classDef3 \<noteq> 1 \<and> format ex_classDef3 \<noteq> 2 \<and>
   getGlyphClass ex_classDef3 5 = Inr None \<and>
   format ex_coverage3 \<noteq> 1 \<and> format ex_coverage3 \<noteq> 2 \<and>
   getCoverageIndex ex_coverage3 5 = Inr None"
  using unknown_format_gives_undefined[where cd = ex_classDef3 and g = 5 and cov = ex_coverage3]
  by (simp add: ex_classDef3_def ex_coverage3_def)

section \<open>The Layout engine: outcomes of the operations\<close>

lemma searchTag_result:
  "\<exists>r. searchTag arr t = Inr r \<and>
        ((0 \<le> r \<and> r < int (length arr) \<and> tag (arr ! nat r) = t) \<or>
         (r < 0 \<and> 0 \<le> - r - 1 \<and> - r - 1 \<le> int (length arr)))"
proof -
  from binSearch_never_raises[of "map tag arr" t]
  obtain r where r: "binSearch (map tag arr) t = Inr r"
    "(0 \<le> r \<and> r < int (length (map tag arr)) \<and> map tag arr ! nat r = t) \<or>
         (r < 0 \<and> 0 \<le> - r - 1 \<and> - r - 1 \<le> int (length (map tag arr)))" by blast
  from r(2) have "(0 \<le> r \<and> r < int (length arr) \<and> tag (arr ! nat r) = t) \<or>
         (r < 0 \<and> 0 \<le> - r - 1 \<and> - r - 1 \<le> int (length arr))"
    by auto
  with r(1) show ?thesis by (simp add: searchTag_binSearch)
qed

text \<open>The outcomes of \<^verbatim>\<open>searchTag\<close>: an index of a record with the tag, or an insertion index.\<close>

lemma searchTag_cases:
  obtains (found) pos where "pos < length arr" "tag (arr ! pos) = t" "searchTag arr t = Inr (int pos)"
  | (absent) k where "k \<le> length arr" "searchTag arr t = Inr (- int k - 1)"
proof -
  from searchTag_result[of arr t]
  obtain r where r: "searchTag arr t = Inr r"
    "(0 \<le> r \<and> r < int (length arr) \<and> tag (arr ! nat r) = t) \<or>
         (r < 0 \<and> 0 \<le> - r - 1 \<and> - r - 1 \<le> int (length arr))" by blast
  from r(2) show ?thesis
  proof
    assume a: "0 \<le> r \<and> r < int (length arr) \<and> tag (arr ! nat r) = t"
    then have "nat r < length arr" "tag (arr ! nat r) = t" "r = int (nat r)" by auto
    with r(1) found[of "nat r"] show ?thesis by simp
  next
    assume a: "r < 0 \<and> 0 \<le> - r - 1 \<and> - r - 1 \<le> int (length arr)"
    then have "nat (- r - 1) \<le> length arr" "r = - int (nat (- r - 1)) - 1" by auto
    with r(1) absent[of "nat (- r - 1)"] show ?thesis by simp
  qed
qed

lemma getTable_create [simp]: "getTable cdt True tbl = Some (case tbl of None \<Rightarrow> cdt | Some l \<Rightarrow> l)"
  by (simp add: getTable_def split: option.splits)

lemma getTable_no_create [simp]: "getTable cdt False tbl = tbl"
  by (simp add: getTable_def split: option.splits)

lemma getScriptTable_cases:
  fixes cdt script_arg create tbl
  defines "t \<equiv> (case script_arg of None \<Rightarrow> ''DFLT'' | Some s \<Rightarrow> s)"
  obtains
    (no_table) "getTable cdt create tbl = None"
      "getScriptTable cdt script_arg create tbl = (Inr None, None)"
  | (found) l pos where "getTable cdt create tbl = Some l" "pos < length (scripts l)"
      "tag (scripts l ! pos) = t"
      "getScriptTable cdt script_arg create tbl = (Inr (Some (pos, script (scripts l ! pos))), Some l)"
  | (absent) l k where "getTable cdt create tbl = Some l" "\<not> create"
      "k \<le> length (scripts l)" "searchTag (scripts l) t = Inr (- int k - 1)"
      "getScriptTable cdt script_arg create tbl = (Inr None, Some l)"
  | (created) l k where "getTable cdt create tbl = Some l" "create"
      "k \<le> length (scripts l)" "searchTag (scripts l) t = Inr (- int k - 1)"
      "getScriptTable cdt script_arg create tbl =
         (Inr (Some (k, script (new_script t))),
          Some (l\<lparr>scripts := take k (scripts l) @ [new_script t] @ drop k (scripts l)\<rparr>))"
proof (cases "getTable cdt create tbl")
  case None
  then show ?thesis using no_table by (simp add: getScriptTable_def)
next
  case (Some l)
  show ?thesis
  proof (cases "scripts l" t rule: searchTag_cases)
    case (found pos)
    with Some show ?thesis
      using that(2)[of l pos]
      by (simp add: getScriptTable_def t_def js_index_def)
  next
    case (absent k)
    show ?thesis
    proof (cases create)
      case True
      have "- 1 - (- int k - 1) = int k" by simp
      with Some absent True show ?thesis
        using that(4)[of l k]
        by (simp add: getScriptTable_def t_def new_script_def splice_insert_at splice_start_at
            del: append.simps)
    next
      case False
      with Some absent show ?thesis
        using that(3)[of l k] by (simp add: getScriptTable_def t_def)
    qed
  qed
qed

lemma getScriptTable_outcome:
  obtains (unresolved) t1 where "getScriptTable cdt script_arg create tbl = (Inr None, t1)"
  | (resolved) l si where "si < length (scripts l)"
      "getScriptTable cdt script_arg create tbl = (Inr (Some (si, script (scripts l ! si))), Some l)"
proof (cases cdt script_arg create tbl rule: getScriptTable_cases)
  case no_table
  then show ?thesis using unresolved by simp
next
  case (found l pos)
  then show ?thesis using resolved[of pos l] by simp
next
  case (absent l k)
  then show ?thesis using unresolved by simp
next
  case (created l k)
  let ?t = "case script_arg of None \<Rightarrow> ''DFLT'' | Some s \<Rightarrow> s"
  let ?l = "l\<lparr>scripts := take k (scripts l) @ [new_script ?t] @ drop k (scripts l)\<rparr>"
  have "k < length (scripts ?l)" using created(3) by simp
  moreover have "scripts ?l ! k = new_script ?t" using created(3) by (simp add: nth_append)
  ultimately show ?thesis using created(5) resolved[of k ?l] by simp
qed

lemma getLangSysTable_cases:
  fixes cdt script_arg language_arg create tbl
  defines "lang \<equiv> (case language_arg of None \<Rightarrow> ''dflt'' | Some s \<Rightarrow> s)"
  obtains
    (no_script) t1 where "getScriptTable cdt script_arg create tbl = (Inr None, t1)"
      "getLangSysTable cdt script_arg language_arg create tbl = (Inr None, t1)"
  | (default) l si where "si < length (scripts l)"
      "getScriptTable cdt script_arg create tbl = (Inr (Some (si, script (scripts l ! si))), Some l)"
      "lang = ''dflt'' \<or> lang = ''DFLT''"
      "getLangSysTable cdt script_arg language_arg create tbl =
         (Inr (Some (AtDefaultLangSys si, defaultLangSys (script (scripts l ! si)))), Some l)"
  | (found) l si pos where "si < length (scripts l)"
      "getScriptTable cdt script_arg create tbl = (Inr (Some (si, script (scripts l ! si))), Some l)"
      "\<not> (lang = ''dflt'' \<or> lang = ''DFLT'')"
      "pos < length (langSysRecords (script (scripts l ! si)))"
      "tag (langSysRecords (script (scripts l ! si)) ! pos) = lang"
      "getLangSysTable cdt script_arg language_arg create tbl =
         (Inr (Some (AtLangSysRecord si pos, langSys (langSysRecords (script (scripts l ! si)) ! pos))),
          Some l)"
  | (absent) l si k where "si < length (scripts l)"
      "getScriptTable cdt script_arg create tbl = (Inr (Some (si, script (scripts l ! si))), Some l)"
      "\<not> (lang = ''dflt'' \<or> lang = ''DFLT'')" "\<not> create"
      "searchTag (langSysRecords (script (scripts l ! si))) lang = Inr (- int k - 1)"
      "getLangSysTable cdt script_arg language_arg create tbl = (Inr None, Some l)"
  | (created) l si k where "si < length (scripts l)"
      "getScriptTable cdt script_arg create tbl = (Inr (Some (si, script (scripts l ! si))), Some l)"
      "\<not> (lang = ''dflt'' \<or> lang = ''DFLT'')" "create"
      "k \<le> length (langSysRecords (script (scripts l ! si)))"
      "searchTag (langSysRecords (script (scripts l ! si))) lang = Inr (- int k - 1)"
      "getLangSysTable cdt script_arg language_arg create tbl =
         (Inr (Some (AtLangSysRecord si k, new_langSys)),
          Some (update_script si
                  (\<lambda>s. s\<lparr>langSysRecords :=
                     take k (langSysRecords s) @ [\<lparr>tag = lang, langSys = new_langSys\<rparr>]
                       @ drop k (langSysRecords s)\<rparr>) l))"
proof (cases cdt script_arg create tbl rule: getScriptTable_outcome)
  case (unresolved t1)
  then show ?thesis using no_script by (simp add: getLangSysTable_def)
next
  case (resolved l si)
  let ?st = "script (scripts l ! si)"
  show ?thesis
  proof (cases "lang = ''dflt'' \<or> lang = ''DFLT''")
    case True
    with resolved show ?thesis
      using default[of si l] by (simp add: getLangSysTable_def lang_def)
  next
    case False
    show ?thesis
    proof (cases "langSysRecords ?st" lang rule: searchTag_cases)
      case (found pos)
      with resolved False show ?thesis
        using that(3)[of si l pos]
        by (simp add: getLangSysTable_def lang_def js_index_def)
    next
      case (absent k)
      show ?thesis
      proof (cases create)
        case True
        have neg: "- 1 - (- int k - 1) = int k" by simp
        have upd: "update_script si
                 (\<lambda>s. s\<lparr>langSysRecords := splice_insert (langSysRecords s) (int k)
                     \<lparr>tag = lang, langSys = new_langSys\<rparr>\<rparr>) l
             = update_script si
                  (\<lambda>s. s\<lparr>langSysRecords :=
                     take k (langSysRecords s) @ [\<lparr>tag = lang, langSys = new_langSys\<rparr>]
                       @ drop k (langSysRecords s)\<rparr>) l"
          using absent(1) by (simp add: update_script_def splice_insert_at)
        from resolved False absent True show ?thesis
          using that(5)[of si l k] upd
          by (simp add: getLangSysTable_def lang_def neg splice_start_at del: append.simps)
      next
        case nc: False
        with resolved False absent show ?thesis
          using that(4)[of si l k] by (simp add: getLangSysTable_def lang_def)
      qed
    qed
  qed
qed

lemma getLangSysTable_outcome:
  obtains (unresolved) t1 where "\<not> create"
      "getLangSysTable cdt script_arg language_arg create tbl = (Inr None, t1)"
  | (resolved) l path ls where "deref_langSys path l = Some ls"
      "getLangSysTable cdt script_arg language_arg create tbl = (Inr (Some (path, ls)), Some l)"
proof (cases cdt script_arg language_arg create tbl rule: getLangSysTable_cases)
  case (no_script t1)
  have "\<not> create"
  proof
    assume "create"
    with no_script(1) show False
      by (cases cdt script_arg create tbl rule: getScriptTable_cases) simp_all
  qed
  with no_script show ?thesis using unresolved by simp
next
  case (default l si)
  then show ?thesis
    using resolved[of "AtDefaultLangSys si" l] by (simp add: deref_script_def js_index_def)
next
  case (found l si pos)
  then show ?thesis
    using resolved[of "AtLangSysRecord si pos" l] by (simp add: deref_script_def js_index_def)
next
  case (absent l si k)
  then show ?thesis using unresolved by simp
next
  case (created l si k)
  let ?lang = "case language_arg of None \<Rightarrow> ''dflt'' | Some s \<Rightarrow> s"
  let ?f = "\<lambda>s. s\<lparr>langSysRecords :=
                     take k (langSysRecords s) @ [\<lparr>tag = ?lang, langSys = new_langSys\<rparr>]
                       @ drop k (langSysRecords s)\<rparr>"
  have "deref_langSys (AtLangSysRecord si k) (update_script si ?f l) = Some new_langSys"
    using created(1,5)
    by (simp add: deref_script_def update_script_def js_index_def nth_append)
  with created(7) show ?thesis
    using resolved[of "AtLangSysRecord si k" "update_script si ?f l" new_langSys] by simp
qed

lemma deref_script_update_script:
  "deref_script si (update_script si f l) = map_option f (deref_script si l)"
  by (simp add: deref_script_def update_script_def js_index_def)

lemma deref_langSys_update_langSys:
  "deref_langSys path (update_langSys path f l) = map_option f (deref_langSys path l)"
proof (cases path)
  case (AtDefaultLangSys si)
  then show ?thesis
    by (cases "deref_script si l") (simp_all add: deref_script_update_script)
next
  case (AtLangSysRecord si li)
  then show ?thesis
    by (cases "deref_script si l")
      (simp_all add: deref_script_update_script update_langSysRecord_def js_index_def)
qed

lemma deref_langSys_features_update [simp]:
  "deref_langSys path (l\<lparr>features := fs\<rparr>) = deref_langSys path l"
  by (cases path) (simp_all add: deref_script_def)

lemma update_langSys_features [simp]: "features (update_langSys path f l) = features l"
  by (cases path) (simp_all add: update_script_def)

lemma update_langSys_lookups [simp]: "lookups (update_langSys path f l) = lookups l"
  by (cases path) (simp_all add: update_script_def)

lemma update_script_tags [simp]: "map tag (scripts (update_script si f l)) = map tag (scripts l)"
proof (cases "si < length (scripts l)")
  case True
  then have "(map tag (scripts l))[si := map tag (scripts l) ! si] = map tag (scripts l)"
    by (simp only: list_update_id)
  with True show ?thesis by (simp add: update_script_def map_update)
next
  case False
  then have "length (scripts l) \<le> si" by simp
  then have "(scripts l)[si := x] = scripts l" for x by (rule list_update_beyond)
  then show ?thesis by (simp add: update_script_def)
qed

lemma update_langSys_tags [simp]: "map tag (scripts (update_langSys path f l)) = map tag (scripts l)"
  by (cases path) simp_all

lemma scanFeatures_not_found:
  "scanFeatures fs t idxs = Inr None \<longleftrightarrow> (\<forall>i\<in>set idxs. i < length fs \<and> tag (fs ! i) \<noteq> t)"
  by (induction idxs) (auto simp: js_index_def)

lemmas layout_eval_defs =
  getFeatureTable_def getLangSysTable_def getScriptTable_def getTable_def
  searchTag_def searchTag_loop.simps js_index_def splice_insert_def splice_start_def
  check_assert_def new_langSys_def update_script_def update_langSysRecord_def Let_def

lemma getFeatureTable_create_step:
  assumes ls: "getLangSysTable cdt script_arg language_arg True tbl = (Inr (Some (path, ls)), Some l)"
    and nf: "scanFeatures (features l) t (featureIndexes ls) = Inr None"
  shows "getFeatureTable cdt script_arg language_arg t True tbl =
     (if features l = [] \<or> tag (last (features l)) \<le> t
      then (Inr (Some (length (features l), feature (new_feature t))),
            Some (update_langSys path
                    (\<lambda>ls. ls\<lparr>featureIndexes := featureIndexes ls @ [length (features l)]\<rparr>)
                    (l\<lparr>features := features l @ [new_feature t]\<rparr>)))
      else (Inl (CheckFailed ''Features must be added in alphabetical order.''), Some l))"
proof (cases "features l = []")
  case True
  with ls nf show ?thesis
    by (simp add: getFeatureTable_def check_assert_def new_feature_def Let_def)
next
  case False
  then have "last (features l) = features l ! (length (features l) - 1)"
    by (rule last_conv_nth)
  with False ls nf show ?thesis
    by (simp add: getFeatureTable_def check_assert_def new_feature_def Let_def)
qed

lemma scanFeatures_found:
  "scanFeatures fs t idxs = Inr (Some (fi, ft)) \<Longrightarrow>
     fi < length fs \<and> tag (fs ! fi) = t \<and> feature (fs ! fi) = ft"
  by (induction idxs) (auto simp: js_index_def split: if_splits)

lemma deref_feature_update_feature:
  "deref_feature fi (update_feature fi f l) = map_option f (deref_feature fi l)"
  by (simp add: deref_feature_def update_feature_def js_index_def)

lemma deref_feature_lookups_update [simp]:
  "deref_feature fi (l\<lparr>lookups := ls\<rparr>) = deref_feature fi l"
  by (simp add: deref_feature_def)

lemma update_feature_lookups [simp]: "lookups (update_feature fi f l) = lookups l"
  by (simp add: update_feature_def)

lemma update_feature_scripts [simp]: "scripts (update_feature fi f l) = scripts l"
  by (simp add: update_feature_def)

lemma getFeatureTable_outcome:
  obtains (raised) e t1 where "getFeatureTable cdt script_arg language_arg t create tbl = (Inl e, t1)"
  | (unresolved) t1 where "\<not> create"
      "getFeatureTable cdt script_arg language_arg t create tbl = (Inr None, t1)"
  | (resolved) l fi ft where "deref_feature fi l = Some ft"
      "getFeatureTable cdt script_arg language_arg t create tbl = (Inr (Some (fi, ft)), Some l)"
proof (cases rule: getLangSysTable_outcome[where create = create and cdt = cdt
        and script_arg = script_arg and language_arg = language_arg and tbl = tbl])
  case (unresolved t1)
  then show ?thesis using that(2) by (simp add: getFeatureTable_def)
next
  case (resolved l path ls)
  show ?thesis
  proof (cases "scanFeatures (features l) t (featureIndexes ls)")
    case (Inl e)
    with resolved(2) show ?thesis using raised by (simp add: getFeatureTable_def)
  next
    case (Inr found)
    show ?thesis
    proof (cases found)
      case (Some p)
      obtain fi ft where p: "p = (fi, ft)" by (cases p)
      from Inr Some p scanFeatures_found[of "features l" t "featureIndexes ls" fi ft]
      have "deref_feature fi l = Some ft" by (simp add: deref_feature_def js_index_def)
      moreover have "getFeatureTable cdt script_arg language_arg t create tbl
          = (Inr (Some (fi, ft)), Some l)"
        using resolved(2) Inr Some p by (simp add: getFeatureTable_def)
      ultimately show ?thesis using that(3) by blast
    next
      case None
      show ?thesis
      proof (cases create)
        case False
        with resolved(2) Inr None show ?thesis
          using that(2) by (simp add: getFeatureTable_def)
      next
        case True
        let ?l' = "update_langSys path
                    (\<lambda>ls. ls\<lparr>featureIndexes := featureIndexes ls @ [length (features l)]\<rparr>)
                    (l\<lparr>features := features l @ [new_feature t]\<rparr>)"
        have "deref_feature (length (features l)) ?l' = Some (feature (new_feature t))"
          by (simp add: deref_feature_def js_index_def)
        with getFeatureTable_create_step[of cdt script_arg language_arg tbl path ls l t]
          resolved(2) Inr None True
        show ?thesis
          using that(1) that(3)[of "length (features l)" ?l' "feature (new_feature t)"]
          by (cases "features l = [] \<or> tag (last (features l)) \<le> t") simp_all
      qed
    qed
  qed
qed

lemma getFeatureTable_deref:
  assumes "getFeatureTable cdt script_arg language_arg t create tbl = (Inr (Some (fi, ft)), Some l)"
  shows "deref_feature fi l = Some ft"
  using assms
  by (cases rule: getFeatureTable_outcome[where create = create and cdt = cdt and t = t
        and script_arg = script_arg and language_arg = language_arg and tbl = tbl]) simp_all

lemma scanLookups_no_match:
  "(\<forall>i\<in>set idxs. i < length ls \<and> lookupType (ls ! i) \<noteq> ty) \<Longrightarrow>
     scanLookups ls ty idxs acc = Inr acc"
  by (induction idxs arbitrary: acc) (simp_all add: js_index_def)

lemma scanLookups_valid:
  "(\<forall>i\<in>set idxs. i < length ls) \<Longrightarrow> \<exists>tables. scanLookups ls ty idxs acc = Inr tables"
  by (induction idxs arbitrary: acc) (simp_all add: js_index_def)

lemma getLookupTables_unresolved:
  "getFeatureTable cdt script_arg language_arg t create tbl = (Inr None, t1) \<Longrightarrow>
     getLookupTables cdt script_arg language_arg t ty create tbl = (Inr [], t1)"
  by (simp add: getLookupTables_def)

lemma getFeatureTable_no_langSys:
  "getLangSysTable cdt script_arg language_arg create tbl = (Inr None, t1) \<Longrightarrow>
     getFeatureTable cdt script_arg language_arg t create tbl = (Inr None, t1)"
  by (simp add: getFeatureTable_def)

lemma getLangSysTable_no_script:
  "getScriptTable cdt script_arg create tbl = (Inr None, t1) \<Longrightarrow>
     getLangSysTable cdt script_arg language_arg create tbl = (Inr None, t1)"
  by (simp add: getLangSysTable_def)

lemma searchTag_absent_keeps_sorted:
  assumes "sorted_by_tag arr" "searchTag arr t = Inr (- int k - 1)" "k \<le> length arr" "tag r = t"
  shows "sorted_by_tag (take k arr @ [r] @ drop k arr)"
proof -
  have srt: "sorted (map tag arr)" using assms(1) by (simp add: sorted_by_tag_def)
  have b: "binSearch (map tag arr) t = Inr (- int k - 1)"
    using assms(2) by (simp add: searchTag_binSearch)
  have "(\<forall>i<nat (- (- int k - 1) - 1). map tag arr ! i < t) \<and>
        (\<forall>i. nat (- (- int k - 1) - 1) \<le> i \<and> i < length (map tag arr) \<longrightarrow> t < map tag arr ! i)"
    by (rule binSearch_sorted_neg[OF srt b]) simp
  then have "\<forall>i<k. map tag arr ! i < t"
    "\<forall>i. k \<le> i \<and> i < length (map tag arr) \<longrightarrow> t < map tag arr ! i"
    by simp_all
  from sorted_insert_at[OF srt _ this] assms(3)
  have "sorted (take k (map tag arr) @ [t] @ drop k (map tag arr))" by simp
  then show ?thesis using assms(4) by (simp add: sorted_by_tag_def take_map drop_map)
qed

lemma set_insert_at: "set (take k xs @ [x] @ drop k xs) = insert x (set xs)"
proof -
  have "set (take k xs) \<union> set (drop k xs) = set xs"
    by (metis append_take_drop_id set_append)
  then show ?thesis by auto
qed

lemma tables_sorted_getTable:
  "tables_sorted tbl \<Longrightarrow> layout_sorted cdt \<Longrightarrow> tables_sorted (getTable cdt create tbl)"
  by (cases tbl) (simp_all add: getTable_def tables_sorted_def)

lemma tables_sorted_getScriptTable:
  assumes "tables_sorted tbl" "layout_sorted cdt"
  shows "tables_sorted (snd (getScriptTable cdt script_arg create tbl))"
proof -
  have g: "tables_sorted (getTable cdt create tbl)"
    using assms by (rule tables_sorted_getTable)
  show ?thesis
  proof (cases cdt script_arg create tbl rule: getScriptTable_cases)
    case no_table
    then show ?thesis by (simp add: tables_sorted_def)
  next
    case (found l pos)
    with g show ?thesis by simp
  next
    case (absent l k)
    with g show ?thesis by simp
  next
    case (created l k)
    let ?t = "case script_arg of None \<Rightarrow> ''DFLT'' | Some s \<Rightarrow> s"
    from g created(1) have l: "layout_sorted l" by (simp add: tables_sorted_def)
    then have "sorted_by_tag (scripts l)" by (simp add: layout_sorted_def)
    from searchTag_absent_keeps_sorted[OF this created(4,3), of "new_script ?t"]
    have "sorted_by_tag (take k (scripts l) @ [new_script ?t] @ drop k (scripts l))"
      by (simp add: new_script_def)
    moreover have "\<forall>s\<in>set (take k (scripts l) @ [new_script ?t] @ drop k (scripts l)).
        sorted_by_tag (langSysRecords (script s))"
      using l unfolding set_insert_at
      by (simp add: layout_sorted_def new_script_def sorted_by_tag_def)
    ultimately show ?thesis
      using created(5) by (simp add: tables_sorted_def layout_sorted_def)
  qed
qed

lemma layout_sorted_update_script:
  assumes "layout_sorted l"
    and "si < length (scripts l) \<Longrightarrow> sorted_by_tag (langSysRecords (f (script (scripts l ! si))))"
  shows "layout_sorted (update_script si f l)"
proof -
  have "sorted_by_tag (scripts (update_script si f l))"
    using assms(1) by (simp add: layout_sorted_def sorted_by_tag_def)
  moreover have "sorted_by_tag (langSysRecords (script s))"
    if "s \<in> set (scripts (update_script si f l))" for s
  proof (cases "si < length (scripts l)")
    case True
    let ?y = "(scripts l ! si)\<lparr>script := f (script (scripts l ! si))\<rparr>"
    from that have "s \<in> insert ?y (set (scripts l))"
      using set_update_subset_insert[of "scripts l" si ?y]
      by (auto simp: update_script_def)
    then show ?thesis
      using assms(1) assms(2)[OF True] by (auto simp: layout_sorted_def)
  next
    case False
    then have "length (scripts l) \<le> si" by simp
    then have "(scripts l)[si := x] = scripts l" for x by (rule list_update_beyond)
    with that have "s \<in> set (scripts l)" by (simp add: update_script_def)
    with assms(1) show ?thesis by (simp add: layout_sorted_def)
  qed
  ultimately show ?thesis by (simp add: layout_sorted_def)
qed

lemma update_langSysRecord_tags:
  "map tag (langSysRecords (update_langSysRecord li f s)) = map tag (langSysRecords s)"
proof (cases "li < length (langSysRecords s)")
  case True
  then have "(map tag (langSysRecords s))[li := map tag (langSysRecords s) ! li]
      = map tag (langSysRecords s)"
    by (simp only: list_update_id)
  with True show ?thesis by (simp add: update_langSysRecord_def map_update)
next
  case False
  then have "length (langSysRecords s) \<le> li" by simp
  then have "(langSysRecords s)[li := x] = langSysRecords s" for x by (rule list_update_beyond)
  then show ?thesis by (simp add: update_langSysRecord_def)
qed

lemma layout_sorted_update_langSys:
  assumes "layout_sorted l"
  shows "layout_sorted (update_langSys path f l)"
proof (cases path)
  case (AtDefaultLangSys si)
  have "layout_sorted (update_script si (\<lambda>s. s\<lparr>defaultLangSys := f (defaultLangSys s)\<rparr>) l)"
    using assms
    by (rule layout_sorted_update_script) (use assms in \<open>simp add: layout_sorted_def\<close>)
  with AtDefaultLangSys show ?thesis by simp
next
  case (AtLangSysRecord si li)
  have "layout_sorted (update_script si (update_langSysRecord li f) l)"
    using assms
    by (rule layout_sorted_update_script)
       (use assms in \<open>simp add: layout_sorted_def sorted_by_tag_def update_langSysRecord_tags\<close>)
  with AtLangSysRecord show ?thesis by simp
qed

lemma layout_sorted_features_update [simp]:
  "layout_sorted (l\<lparr>features := fs\<rparr>) = layout_sorted l"
  by (simp add: layout_sorted_def)

lemma layout_sorted_lookups_update [simp]:
  "layout_sorted (l\<lparr>lookups := ls\<rparr>) = layout_sorted l"
  by (simp add: layout_sorted_def)

lemma layout_sorted_update_feature [simp]:
  "layout_sorted (update_feature fi f l) = layout_sorted l"
  by (simp add: layout_sorted_def)

lemma tables_sorted_getLangSysTable:
  assumes "tables_sorted tbl" "layout_sorted cdt"
  shows "tables_sorted (snd (getLangSysTable cdt script_arg language_arg create tbl))"
proof -
  have g: "tables_sorted (snd (getScriptTable cdt script_arg create tbl))"
    using assms by (rule tables_sorted_getScriptTable)
  show ?thesis
  proof (cases cdt script_arg language_arg create tbl rule: getLangSysTable_cases)
    case (no_script t1)
    with g show ?thesis by simp
  next
    case (default l si)
    with g show ?thesis by simp
  next
    case (found l si pos)
    with g show ?thesis by simp
  next
    case (absent l si k)
    with g show ?thesis by simp
  next
    case (created l si k)
    let ?lang = "case language_arg of None \<Rightarrow> ''dflt'' | Some s \<Rightarrow> s"
    let ?rec = "\<lparr>tag = ?lang, langSys = new_langSys\<rparr>"
    let ?f = "\<lambda>s. s\<lparr>langSysRecords := take k (langSysRecords s) @ [?rec] @ drop k (langSysRecords s)\<rparr>"
    from g created(2) have l: "layout_sorted l" by (simp add: tables_sorted_def)
    have "sorted_by_tag (langSysRecords (script (scripts l ! si)))"
      using l created(1) by (simp add: layout_sorted_def)
    from searchTag_absent_keeps_sorted[OF this created(6,5), of ?rec]
    have "sorted_by_tag (langSysRecords (?f (script (scripts l ! si))))" by simp
    with l have "layout_sorted (update_script si ?f l)"
      by (rule layout_sorted_update_script)
    with created(7) show ?thesis by (simp add: tables_sorted_def)
  qed
qed

lemma getFeatureTable_state:
  "snd (getFeatureTable cdt script_arg language_arg t create tbl)
      = snd (getLangSysTable cdt script_arg language_arg create tbl) \<or>
   (\<exists>l path f fs. snd (getLangSysTable cdt script_arg language_arg create tbl) = Some l \<and>
      snd (getFeatureTable cdt script_arg language_arg t create tbl)
        = Some (update_langSys path f (l\<lparr>features := fs\<rparr>)))"
proof (cases rule: getLangSysTable_outcome[where create = create and cdt = cdt
        and script_arg = script_arg and language_arg = language_arg and tbl = tbl])
  case (unresolved t1)
  then show ?thesis by (simp add: getFeatureTable_def)
next
  case (resolved l path ls)
  then show ?thesis
    by (auto simp: getFeatureTable_def Let_def check_assert_def split: sum.splits option.splits)
qed

lemma tables_sorted_getFeatureTable:
  assumes "tables_sorted tbl" "layout_sorted cdt"
  shows "tables_sorted (snd (getFeatureTable cdt script_arg language_arg t create tbl))"
proof -
  have g: "tables_sorted (snd (getLangSysTable cdt script_arg language_arg create tbl))"
    using assms by (rule tables_sorted_getLangSysTable)
  from getFeatureTable_state[of cdt script_arg language_arg t create tbl] show ?thesis
  proof
    assume "snd (getFeatureTable cdt script_arg language_arg t create tbl)
      = snd (getLangSysTable cdt script_arg language_arg create tbl)"
    with g show ?thesis by simp
  next
    assume "\<exists>l path f fs. snd (getLangSysTable cdt script_arg language_arg create tbl) = Some l \<and>
      snd (getFeatureTable cdt script_arg language_arg t create tbl)
        = Some (update_langSys path f (l\<lparr>features := fs\<rparr>))"
    then obtain l path f fs where
      s: "snd (getLangSysTable cdt script_arg language_arg create tbl) = Some l"
      "snd (getFeatureTable cdt script_arg language_arg t create tbl)
        = Some (update_langSys path f (l\<lparr>features := fs\<rparr>))" by blast
    from g s(1) have "layout_sorted (l\<lparr>features := fs\<rparr>)" by (simp add: tables_sorted_def)
    then have "layout_sorted (update_langSys path f (l\<lparr>features := fs\<rparr>))"
      by (rule layout_sorted_update_langSys)
    with s(2) show ?thesis by (simp add: tables_sorted_def)
  qed
qed

lemma getLookupTables_state:
  "snd (getLookupTables cdt script_arg language_arg t ty create tbl)
      = snd (getFeatureTable cdt script_arg language_arg t create tbl) \<or>
   (\<exists>l fi f ls. snd (getFeatureTable cdt script_arg language_arg t create tbl) = Some l \<and>
      snd (getLookupTables cdt script_arg language_arg t ty create tbl)
        = Some (update_feature fi f (l\<lparr>lookups := ls\<rparr>)))"
proof (cases rule: getFeatureTable_outcome[where create = create and cdt = cdt and t = t
        and script_arg = script_arg and language_arg = language_arg and tbl = tbl])
  case (raised e t1)
  then show ?thesis by (simp add: getLookupTables_def)
next
  case (unresolved t1)
  then show ?thesis by (simp add: getLookupTables_def)
next
  case (resolved l fi ft)
  then show ?thesis
    by (auto simp: getLookupTables_def Let_def split: sum.splits)
qed

lemma tables_sorted_getLookupTables:
  assumes "tables_sorted tbl" "layout_sorted cdt"
  shows "tables_sorted (snd (getLookupTables cdt script_arg language_arg t ty create tbl))"
proof -
  have g: "tables_sorted (snd (getFeatureTable cdt script_arg language_arg t create tbl))"
    using assms by (rule tables_sorted_getFeatureTable)
  from getLookupTables_state[of cdt script_arg language_arg t ty create tbl] show ?thesis
  proof
    assume "snd (getLookupTables cdt script_arg language_arg t ty create tbl)
      = snd (getFeatureTable cdt script_arg language_arg t create tbl)"
    with g show ?thesis by simp
  next
    assume "\<exists>l fi f ls. snd (getFeatureTable cdt script_arg language_arg t create tbl) = Some l \<and>
      snd (getLookupTables cdt script_arg language_arg t ty create tbl)
        = Some (update_feature fi f (l\<lparr>lookups := ls\<rparr>))"
    then obtain l fi f ls where
      s: "snd (getFeatureTable cdt script_arg language_arg t create tbl) = Some l"
      "snd (getLookupTables cdt script_arg language_arg t ty create tbl)
        = Some (update_feature fi f (l\<lparr>lookups := ls\<rparr>))" by blast
    from g s show ?thesis by (simp add: tables_sorted_def)
  qed
qed

lemma searchTag_negative_bound:
  assumes "searchTag arr t = Inr (- int k - 1)"
  shows "k \<le> length arr"
  using searchTag_result[of arr t] assms by auto

lemma getScriptTable_create_splices:
  assumes "getTable cdt True tbl = Some l"
    and "searchTag (scripts l) t = Inr (- int k - 1)"
  shows "getScriptTable cdt (Some t) True tbl =
           (Inr (Some (k, \<lparr>defaultLangSys = new_langSys, langSysRecords = []\<rparr>)),
            Some (l\<lparr>scripts := take k (scripts l)
                     @ [\<lparr>tag = t, script = \<lparr>defaultLangSys = new_langSys, langSysRecords = []\<rparr>\<rparr>]
                     @ drop k (scripts l)\<rparr>))"
proof -
  have k: "k \<le> length (scripts l)" using assms(2) by (rule searchTag_negative_bound)
  have "- 1 - (- int k - 1) = int k" by simp
  with assms k show ?thesis
    by (simp add: getScriptTable_def splice_insert_at splice_start_at del: append.simps)
qed

lemma getLangSysTable_create_splices:
  assumes s: "getScriptTable cdt script_arg True tbl = (Inr (Some (si, st)), Some l)"
    and d: "lang \<noteq> ''dflt''" "lang \<noteq> ''DFLT''"
    and k: "searchTag (langSysRecords st) lang = Inr (- int k - 1)"
  shows "getLangSysTable cdt script_arg (Some lang) True tbl =
           (Inr (Some (AtLangSysRecord si k, new_langSys)),
            Some (update_script si
                    (\<lambda>s. s\<lparr>langSysRecords := take k (langSysRecords s)
                             @ [\<lparr>tag = lang, langSys = new_langSys\<rparr>]
                             @ drop k (langSysRecords s)\<rparr>) l))"
proof -
  have kl: "k \<le> length (langSysRecords st)" using k by (rule searchTag_negative_bound)
  have st: "si < length (scripts l)" "script (scripts l ! si) = st"
    using s by (cases cdt script_arg True tbl rule: getScriptTable_outcome; simp)+
  have neg: "- 1 - (- int k - 1) = int k" by simp
  have upd: "update_script si
                 (\<lambda>s. s\<lparr>langSysRecords := splice_insert (langSysRecords s) (int k)
                     \<lparr>tag = lang, langSys = new_langSys\<rparr>\<rparr>) l
             = update_script si
                  (\<lambda>s. s\<lparr>langSysRecords :=
                     take k (langSysRecords s) @ [\<lparr>tag = lang, langSys = new_langSys\<rparr>]
                       @ drop k (langSysRecords s)\<rparr>) l"
    using kl st by (simp add: update_script_def splice_insert_at)
  from s d k kl show ?thesis
    using upd by (simp add: getLangSysTable_def neg splice_start_at del: append.simps)
qed

lemma getLangSysTable_found:
  assumes s: "getScriptTable cdt script_arg create tbl = (Inr (Some (si, st)), tbl')"
    and d: "lang \<noteq> ''dflt''" "lang \<noteq> ''DFLT''"
    and f: "searchTag (langSysRecords st) lang = Inr (int pos)"
  shows "getLangSysTable cdt script_arg (Some lang) create tbl =
           (Inr (Some (AtLangSysRecord si pos, langSys (langSysRecords st ! pos))), tbl')"
proof -
  have "pos < length (langSysRecords st)"
    using searchTag_result[of "langSysRecords st" lang] f by auto
  with s d f show ?thesis
    by (simp add: getLangSysTable_def js_index_def)
qed

lemma getLangSysTable_absent:
  assumes s: "getScriptTable cdt script_arg False tbl = (Inr (Some (si, st)), tbl')"
    and d: "lang \<noteq> ''dflt''" "lang \<noteq> ''DFLT''"
    and k: "searchTag (langSysRecords st) lang = Inr (- int k - 1)"
  shows "getLangSysTable cdt script_arg (Some lang) False tbl = (Inr None, tbl')"
  using s d k by (simp add: getLangSysTable_def)

lemma getScriptTable_resolved_state:
  assumes "getScriptTable cdt script_arg create tbl = (Inr (Some (si, st)), tbl')"
  shows "\<exists>l. tbl' = Some l \<and> si < length (scripts l) \<and> script (scripts l ! si) = st"
  using assms by (cases cdt script_arg create tbl rule: getScriptTable_outcome) auto

lemma scanLookups_collect:
  "(\<forall>i\<in>set idxs. i < length ls) \<Longrightarrow>
     scanLookups ls ty idxs acc =
       Inr (acc @ map (\<lambda>i. (i, ls ! i)) (filter (\<lambda>i. lookupType (ls ! i) = ty) idxs))"
  by (induction idxs arbitrary: acc) (simp_all add: js_index_def)

lemma scanLookups_dangling:
  "(\<exists>i\<in>set idxs. length ls \<le> i) \<Longrightarrow> scanLookups ls ty idxs acc = Inl TypeError"
  by (induction idxs arbitrary: acc) (auto simp: js_index_def)

lemma scanFeatures_raises:
  "scanFeatures fs t idxs = Inl e \<Longrightarrow> e = TypeError \<and> (\<exists>i\<in>set idxs. length fs \<le> i)"
  by (induction idxs) (auto simp: js_index_def split: if_splits)

lemma getFeatureTable_raises:
  assumes "getFeatureTable cdt script_arg language_arg t create tbl = (Inl e, tbl')"
  shows "\<exists>path ls l.
           getLangSysTable cdt script_arg language_arg create tbl = (Inr (Some (path, ls)), Some l) \<and>
           tbl' = Some l \<and>
           ((e = TypeError \<and> (\<exists>i\<in>set (featureIndexes ls). length (features l) \<le> i)) \<or>
            (create \<and> e = CheckFailed ''Features must be added in alphabetical order.'' \<and>
             (\<forall>i\<in>set (featureIndexes ls). i < length (features l) \<and> tag (features l ! i) \<noteq> t) \<and>
             features l \<noteq> [] \<and> t < tag (last (features l))))"
proof (cases rule: getLangSysTable_outcome[where create = create and cdt = cdt
        and script_arg = script_arg and language_arg = language_arg and tbl = tbl])
  case (unresolved t1)
  with assms show ?thesis by (simp add: getFeatureTable_def)
next
  case (resolved l path ls)
  show ?thesis
  proof (cases "scanFeatures (features l) t (featureIndexes ls)")
    case (Inl e')
    with resolved(2) assms have "e = e'" "tbl' = Some l"
      by (simp_all add: getFeatureTable_def)
    with scanFeatures_raises[OF Inl] resolved(2) show ?thesis by blast
  next
    case (Inr found)
    show ?thesis
    proof (cases found)
      case (Some p)
      with Inr resolved(2) assms show ?thesis
        by (simp add: getFeatureTable_def)
    next
      case None
      show ?thesis
      proof (cases create)
        case False
        with None Inr resolved(2) assms show ?thesis by (simp add: getFeatureTable_def)
      next
        case True
        from Inr None have nf: "scanFeatures (features l) t (featureIndexes ls) = Inr None" by simp
        from resolved(2) True have ls:
          "getLangSysTable cdt script_arg language_arg True tbl = (Inr (Some (path, ls)), Some l)"
          by simp
        from getFeatureTable_create_step[OF ls nf] assms True
        have "\<not> (features l = [] \<or> tag (last (features l)) \<le> t)"
          "e = CheckFailed ''Features must be added in alphabetical order.''" "tbl' = Some l"
          by (auto split: if_splits)
        moreover from nf have "\<forall>i\<in>set (featureIndexes ls). i < length (features l) \<and> tag (features l ! i) \<noteq> t"
          by (simp add: scanFeatures_not_found)
        ultimately show ?thesis using resolved(2) True by auto
      qed
    qed
  qed
qed

lemma getLookupTables_resolved:
  assumes f: "getFeatureTable cdt script_arg language_arg t create tbl = (Inr (Some (fi, ft)), Some l)"
    and v: "\<forall>i\<in>set (lookupListIndexes ft). i < length (lookups l)"
  shows "getLookupTables cdt script_arg language_arg t ty create tbl =
     (let found = map (\<lambda>i. (i, lookups l ! i))
                    (filter (\<lambda>i. lookupType (lookups l ! i) = ty) (lookupListIndexes ft))
      in if found = [] \<and> create
         then (Inr [(length (lookups l), new_lookup ty)],
               Some (update_feature fi
                       (\<lambda>f. f\<lparr>lookupListIndexes := lookupListIndexes f @ [length (lookups l)]\<rparr>)
                       (l\<lparr>lookups := lookups l @ [new_lookup ty]\<rparr>)))
         else (Inr found, Some l))"
  using f scanLookups_collect[OF v, of ty "[]"]
  by (simp add: getLookupTables_def Let_def new_lookup_def)

lemma getLookupTables_dangling:
  assumes f: "getFeatureTable cdt script_arg language_arg t create tbl = (Inr (Some (fi, ft)), Some l)"
    and v: "\<exists>i\<in>set (lookupListIndexes ft). length (lookups l) \<le> i"
  shows "getLookupTables cdt script_arg language_arg t ty create tbl = (Inl TypeError, Some l)"
  using f scanLookups_dangling[OF v, of ty "[]"]
  by (simp add: getLookupTables_def Let_def)

lemma getLookupTables_raised:
  "getFeatureTable cdt script_arg language_arg t create tbl = (Inl e, tbl') \<Longrightarrow>
     getLookupTables cdt script_arg language_arg t ty create tbl = (Inl e, tbl')"
  by (simp add: getLookupTables_def)

lemma getLookupTables_creates_feature_and_lookup:
  assumes ls: "getLangSysTable cdt script_arg language_arg True tbl = (Inr (Some (path, ls)), Some l)"
    and nf: "\<forall>i\<in>set (featureIndexes ls). i < length (features l) \<and> tag (features l ! i) \<noteq> t"
    and ord: "features l = [] \<or> tag (last (features l)) \<le> t"
  shows "\<exists>l'. getLookupTables cdt script_arg language_arg t ty True tbl
                = (Inr [(length (lookups l), new_lookup ty)], Some l') \<and>
              lookups l' = lookups l @ [new_lookup ty] \<and>
              features l' = features l
                @ [\<lparr>tag = t, feature = \<lparr>params = 0, lookupListIndexes = [length (lookups l)]\<rparr>\<rparr>]"
proof -
  let ?l1 = "update_langSys path
               (\<lambda>ls. ls\<lparr>featureIndexes := featureIndexes ls @ [length (features l)]\<rparr>)
               (l\<lparr>features := features l @ [new_feature t]\<rparr>)"
  from nf have "scanFeatures (features l) t (featureIndexes ls) = Inr None"
    by (simp add: scanFeatures_not_found)
  from getFeatureTable_create_step[OF ls this] ord
  have f: "getFeatureTable cdt script_arg language_arg t True tbl
      = (Inr (Some (length (features l), feature (new_feature t))), Some ?l1)"
    by simp
  have v: "\<forall>i\<in>set (lookupListIndexes (feature (new_feature t))). i < length (lookups ?l1)"
    by (simp add: new_feature_def)
  let ?l2 = "update_feature (length (features l))
               (\<lambda>f. f\<lparr>lookupListIndexes := lookupListIndexes f @ [length (lookups ?l1)]\<rparr>)
               (?l1\<lparr>lookups := lookups ?l1 @ [new_lookup ty]\<rparr>)"
  have l1: "lookups ?l1 = lookups l" by simp
  from getLookupTables_resolved[OF f v, of ty]
  have "getLookupTables cdt script_arg language_arg t ty True tbl
      = (Inr [(length (lookups ?l1), new_lookup ty)], Some ?l2)"
    by (simp add: new_feature_def)
  then have r: "getLookupTables cdt script_arg language_arg t ty True tbl
      = (Inr [(length (lookups l), new_lookup ty)], Some ?l2)"
    unfolding l1 .
  have a: "lookups ?l2 = lookups l @ [new_lookup ty]" by simp
  have b: "features ?l2 = features l
      @ [\<lparr>tag = t, feature = \<lparr>params = 0, lookupListIndexes = [length (lookups l)]\<rparr>\<rparr>]"
    by (simp add: update_feature_def new_feature_def)
  from r a b show ?thesis by blast
qed

lemmas lookups_eval_defs =
  layout_eval_defs ex_liga_lookups_def ex_liga_lookups_created_def ex_liga_dangling_def
  ex_dflt_script_def new_lookup_def new_feature_def

section \<open>The Layout engine: claims\<close>

text \<open>
  Claim C8, as amended. The claim says that every language that equals \<^verbatim>\<open>dflt\<close> up to
  case selects the default LangSys. The source compares the language with the two
  spellings \<^verbatim>\<open>'dflt'\<close> and \<^verbatim>\<open>'DFLT'\<close> only. For every script whose script table exists or
  is created: for these two spellings, and when no language is given, \<^verbatim>\<open>getLangSysTable\<close>
  returns the \<^verbatim>\<open>defaultLangSys\<close> of the script table, which is the one stored in the
  tree, and leaves the state that \<^verbatim>\<open>getScriptTable\<close> left: \<^verbatim>\<open>langSysRecords\<close> is neither
  searched nor changed. Every other language string, a mixed-case spelling such as
  \<^verbatim>\<open>'Dflt'\<close> or \<^verbatim>\<open>'dFLT'\<close> included, is looked up by tag in \<^verbatim>\<open>langSysRecords\<close>:
  \<^verbatim>\<open>searchTag\<close> gives either an index, and then the LangSys of that record is returned
  and the state is unchanged, or \<open>-k-1\<close>, and then the result is absent with
  \<open>create = false\<close>, while with \<open>create = true\<close> a fresh record with that tag is spliced
  in at \<open>k\<close> and its LangSys returned. When \<^verbatim>\<open>langSysRecords\<close> is sorted strictly by tag,
  the record with the tag is the one returned, and a tag that no record has gives
  absent with \<open>create = false\<close>.
\<close>

theorem getLangSysTable_dflt_slot:
  assumes s: "getScriptTable cdt script_arg create tbl = (Inr (Some (si, scriptTable)), tbl')"
  shows
    "(language = ''dflt'' \<or> language = ''DFLT'' \<longrightarrow>
        getLangSysTable cdt script_arg (Some language) create tbl
          = (Inr (Some (AtDefaultLangSys si, defaultLangSys scriptTable)), tbl')) \<and>
     getLangSysTable cdt script_arg None create tbl
       = (Inr (Some (AtDefaultLangSys si, defaultLangSys scriptTable)), tbl') \<and>
     (\<exists>l. tbl' = Some l \<and> deref_script si l = Some scriptTable \<and>
          deref_langSys (AtDefaultLangSys si) l = Some (defaultLangSys scriptTable)) \<and>
     (language \<noteq> ''dflt'' \<and> language \<noteq> ''DFLT'' \<longrightarrow>
        ((\<exists>pos<length (langSysRecords scriptTable).
             tag (langSysRecords scriptTable ! pos) = language \<and>
             searchTag (langSysRecords scriptTable) language = Inr (int pos)) \<or>
         (\<exists>k\<le>length (langSysRecords scriptTable).
             searchTag (langSysRecords scriptTable) language = Inr (- int k - 1))) \<and>
        (\<forall>pos. searchTag (langSysRecords scriptTable) language = Inr (int pos) \<longrightarrow>
           getLangSysTable cdt script_arg (Some language) create tbl
             = (Inr (Some (AtLangSysRecord si pos, langSys (langSysRecords scriptTable ! pos))),
                tbl')) \<and>
        (\<forall>k. searchTag (langSysRecords scriptTable) language = Inr (- int k - 1) \<longrightarrow>
           (\<not> create \<longrightarrow>
              getLangSysTable cdt script_arg (Some language) create tbl = (Inr None, tbl')) \<and>
           (create \<longrightarrow>
              getLangSysTable cdt script_arg (Some language) create tbl
                = (Inr (Some (AtLangSysRecord si k, new_langSys)),
                   map_option
                     (update_script si
                        (\<lambda>s. s\<lparr>langSysRecords := take k (langSysRecords s)
                                 @ [\<lparr>tag = language, langSys = new_langSys\<rparr>]
                                 @ drop k (langSysRecords s)\<rparr>)) tbl'))) \<and>
        (sorted_wrt (<) (map tag (langSysRecords scriptTable)) \<longrightarrow>
           (\<forall>pos<length (langSysRecords scriptTable).
              tag (langSysRecords scriptTable ! pos) = language \<longrightarrow>
                getLangSysTable cdt script_arg (Some language) create tbl
                  = (Inr (Some (AtLangSysRecord si pos,
                                langSys (langSysRecords scriptTable ! pos))), tbl')) \<and>
           (language \<notin> tag ` set (langSysRecords scriptTable) \<and> \<not> create \<longrightarrow>
              getLangSysTable cdt script_arg (Some language) create tbl = (Inr None, tbl'))))"
proof (intro conjI impI allI)
  let ?recs = "langSysRecords scriptTable"
  from getScriptTable_resolved_state[OF s]
  obtain l where l: "tbl' = Some l" "si < length (scripts l)" "script (scripts l ! si) = scriptTable"
    by blast
  {
    assume "language = ''dflt'' \<or> language = ''DFLT''"
    with s show "getLangSysTable cdt script_arg (Some language) create tbl
          = (Inr (Some (AtDefaultLangSys si, defaultLangSys scriptTable)), tbl')"
      by (auto simp: getLangSysTable_def)
  }
  show "getLangSysTable cdt script_arg None create tbl
       = (Inr (Some (AtDefaultLangSys si, defaultLangSys scriptTable)), tbl')"
    using s by (simp add: getLangSysTable_def)
  show "\<exists>l. tbl' = Some l \<and> deref_script si l = Some scriptTable \<and>
          deref_langSys (AtDefaultLangSys si) l = Some (defaultLangSys scriptTable)"
    using l by (simp add: deref_script_def js_index_def)
  {
    assume d: "language \<noteq> ''dflt'' \<and> language \<noteq> ''DFLT''"
    show "(\<exists>pos<length ?recs. tag (?recs ! pos) = language \<and>
             searchTag ?recs language = Inr (int pos)) \<or>
         (\<exists>k\<le>length ?recs. searchTag ?recs language = Inr (- int k - 1))"
      by (cases ?recs language rule: searchTag_cases) blast+
    {
      fix pos assume "searchTag ?recs language = Inr (int pos)"
      with getLangSysTable_found[OF s _ _ this] d
      show "getLangSysTable cdt script_arg (Some language) create tbl
             = (Inr (Some (AtLangSysRecord si pos, langSys (?recs ! pos))), tbl')"
        by simp
    }
    {
      fix k assume k: "searchTag ?recs language = Inr (- int k - 1)"
      {
        assume "\<not> create"
        with s d k show "getLangSysTable cdt script_arg (Some language) create tbl = (Inr None, tbl')"
          by (simp add: getLangSysTable_def)
      }
      {
        assume c: "create"
        from getLangSysTable_create_splices[of cdt script_arg tbl si scriptTable l language k]
          s c d k l(1)
        show "getLangSysTable cdt script_arg (Some language) create tbl
                = (Inr (Some (AtLangSysRecord si k, new_langSys)),
                   map_option
                     (update_script si
                        (\<lambda>s. s\<lparr>langSysRecords := take k (langSysRecords s)
                                 @ [\<lparr>tag = language, langSys = new_langSys\<rparr>]
                                 @ drop k (langSysRecords s)\<rparr>)) tbl')"
          by simp
      }
    }
    {
      assume srt: "sorted_wrt (<) (map tag ?recs)"
      {
        fix pos assume p: "pos < length ?recs" "tag (?recs ! pos) = language"
        from binSearch_present[OF srt, of pos] p
        have "searchTag ?recs language = Inr (int pos)"
          by (simp add: searchTag_binSearch)
        with getLangSysTable_found[OF s _ _ this] d
        show "getLangSysTable cdt script_arg (Some language) create tbl
                  = (Inr (Some (AtLangSysRecord si pos, langSys (?recs ! pos))), tbl')"
          by simp
      }
      {
        assume a: "language \<notin> tag ` set ?recs \<and> \<not> create"
        have "\<exists>k. searchTag ?recs language = Inr (- int k - 1)"
        proof (cases ?recs language rule: searchTag_cases)
          case (found pos)
          then have "language \<in> tag ` set ?recs" by (metis image_eqI nth_mem)
          with a show ?thesis by simp
        next
          case (absent k)
          then show ?thesis by blast
        qed
        then obtain k where "searchTag ?recs language = Inr (- int k - 1)" ..
        with s d a show "getLangSysTable cdt script_arg (Some language) create tbl = (Inr None, tbl')"
          by (simp add: getLangSysTable_def)
      }
    }
  }
qed

theorem getLangSysTable_dflt_slot_witness:
  "getScriptTable empty_layout (Some ''latn'') False (Some ex_layout)
     = (Inr (Some (1, ex_script)), Some ex_layout) \<and>
   getLangSysTable empty_layout (Some ''latn'') (Some ''DFLT'') False (Some ex_layout)
     = (Inr (Some (AtDefaultLangSys 1, defaultLangSys ex_script)), Some ex_layout) \<and>
   searchTag (langSysRecords ex_script) ''Dflt'' = Inr (- int 0 - 1) \<and>
   getLangSysTable empty_layout (Some ''latn'') (Some ''Dflt'') False (Some ex_layout)
     = (Inr None, Some ex_layout) \<and>
   getScriptTable empty_layout (Some ''latn'') True (Some ex_layout)
     = (Inr (Some (1, ex_script)), Some ex_layout) \<and>
   searchTag (langSysRecords ex_script) ''dFLT'' = Inr (- int 0 - 1) \<and>
   getLangSysTable empty_layout (Some ''latn'') (Some ''dFLT'') True (Some ex_layout)
     = (Inr (Some (AtLangSysRecord 1 0, new_langSys)),
        Some \<lparr>scripts = [\<lparr>tag = ''DFLT'', script = ex_script\<rparr>,
                          \<lparr>tag = ''latn'',
                           script = \<lparr>defaultLangSys = new_langSys,
                                     langSysRecords = [\<lparr>tag = ''dFLT'', langSys = new_langSys\<rparr>]\<rparr>\<rparr>],
               features = [], lookups = []\<rparr>) \<and>
   getScriptTable empty_layout (Some ''cyrl'') False (Some ex_layout_srb)
     = (Inr (Some (1, ex_script_srb)), Some ex_layout_srb) \<and>
   sorted_wrt (<) (map tag (langSysRecords ex_script_srb)) \<and>
   tag (langSysRecords ex_script_srb ! 0) = ''SRB '' \<and>
   getLangSysTable empty_layout (Some ''cyrl'') (Some ''SRB '') False (Some ex_layout_srb)
     = (Inr (Some (AtLangSysRecord 1 0, new_langSys)), Some ex_layout_srb)"
proof -
  have s: "getScriptTable empty_layout (Some ''latn'') create (Some ex_layout)
     = (Inr (Some (1, ex_script)), Some ex_layout)" for create
    by (simp add: layout_eval_defs ex_layout_def ex_scripts_def)
  have s3: "getScriptTable empty_layout (Some ''cyrl'') False (Some ex_layout_srb)
     = (Inr (Some (1, ex_script_srb)), Some ex_layout_srb)"
    by (simp add: layout_eval_defs ex_layout_srb_def ex_script_srb_def)
  have a: "getLangSysTable empty_layout (Some ''latn'') (Some ''DFLT'') False (Some ex_layout)
     = (Inr (Some (AtDefaultLangSys 1, defaultLangSys ex_script)), Some ex_layout)"
    using getLangSysTable_dflt_slot[OF s[of False], where language = "''DFLT''"] by simp
  have k1: "searchTag (langSysRecords ex_script) ''Dflt'' = Inr (- int 0 - 1)"
    by (simp add: searchTag_def searchTag_loop.simps ex_script_def)
  have b: "getLangSysTable empty_layout (Some ''latn'') (Some ''Dflt'') False (Some ex_layout)
     = (Inr None, Some ex_layout)"
    using getLangSysTable_dflt_slot[OF s[of False], where language = "''Dflt''"] k1 by simp
  have k2: "searchTag (langSysRecords ex_script) ''dFLT'' = Inr (- int 0 - 1)"
    by (simp add: searchTag_def searchTag_loop.simps ex_script_def)
  have c: "getLangSysTable empty_layout (Some ''latn'') (Some ''dFLT'') True (Some ex_layout)
     = (Inr (Some (AtLangSysRecord 1 0, new_langSys)),
        Some \<lparr>scripts = [\<lparr>tag = ''DFLT'', script = ex_script\<rparr>,
                          \<lparr>tag = ''latn'',
                           script = \<lparr>defaultLangSys = new_langSys,
                                     langSysRecords = [\<lparr>tag = ''dFLT'', langSys = new_langSys\<rparr>]\<rparr>\<rparr>],
               features = [], lookups = []\<rparr>)"
    using getLangSysTable_dflt_slot[OF s[of True], where language = "''dFLT''"] k2
    by (simp add: update_script_def ex_layout_def ex_scripts_def ex_script_def)
  have srt: "sorted_wrt (<) (map tag (langSysRecords ex_script_srb))"
    "tag (langSysRecords ex_script_srb ! 0) = ''SRB ''"
    by (simp_all add: ex_script_srb_def)
  have d: "getLangSysTable empty_layout (Some ''cyrl'') (Some ''SRB '') False (Some ex_layout_srb)
     = (Inr (Some (AtLangSysRecord 1 0, new_langSys)), Some ex_layout_srb)"
    using getLangSysTable_dflt_slot[OF s3, where language = "''SRB ''"] srt
    by (simp add: ex_script_srb_def)
  from s[of False] a k1 b s[of True] k2 c s3 srt d show ?thesis by blast
qed

theorem getLangSysTable_mixed_case_counterexample:
  "equal_ignoring_case ''Dflt'' ''dflt'' \<and>
   getScriptTable empty_layout (Some ''latn'') False (Some ex_layout)
     = (Inr (Some (1, ex_script)), Some ex_layout) \<and>
   getLangSysTable empty_layout (Some ''latn'') (Some ''Dflt'') False (Some ex_layout)
     = (Inr None, Some ex_layout) \<and>
   fst (getLangSysTable empty_layout (Some ''latn'') (Some ''Dflt'') False (Some ex_layout))
     \<noteq> Inr (Some (AtDefaultLangSys 1, defaultLangSys ex_script))"
  by (simp add: layout_eval_defs ex_layout_def ex_scripts_def ex_script_def
      equal_ignoring_case_def lower_char_def)

text \<open>
  Claim C1. \<^verbatim>\<open>getFeatureTable\<close> with \<open>create = true\<close> always resolves (or creates) the
  LangSys table. When no index of its \<^verbatim>\<open>featureIndexes\<close> refers to a record with the
  requested tag: if the feature array is empty or the tag is at least the tag of its
  last record, a new record is appended at the end of the feature array, its index is
  appended to the \<^verbatim>\<open>featureIndexes\<close> of the LangSys table, and the new feature table is
  returned; if the tag is below the tag of the last record, the call raises and
  appends nothing. Creating \<^verbatim>\<open>aalt\<close> and then \<^verbatim>\<open>liga\<close> from an empty feature array succeeds;
  creating \<^verbatim>\<open>aalt\<close> when \<^verbatim>\<open>liga\<close> is last raises.
\<close>

theorem getFeatureTable_create_in_tag_order:
  "(\<exists>path ls l.
      getLangSysTable cdt script_arg language_arg True tbl = (Inr (Some (path, ls)), Some l) \<and>
      deref_langSys path l = Some ls \<and>
      ((\<forall>i\<in>set (featureIndexes ls). i < length (features l) \<and> tag (features l ! i) \<noteq> t) \<longrightarrow>
         (features l = [] \<or> tag (last (features l)) \<le> t \<longrightarrow>
            (\<exists>l'. getFeatureTable cdt script_arg language_arg t True tbl
                     = (Inr (Some (length (features l), \<lparr>params = 0, lookupListIndexes = []\<rparr>)), Some l') \<and>
                  features l' = features l @ [\<lparr>tag = t, feature = \<lparr>params = 0, lookupListIndexes = []\<rparr>\<rparr>] \<and>
                  deref_langSys path l'
                    = Some (ls\<lparr>featureIndexes := featureIndexes ls @ [length (features l)]\<rparr>) \<and>
                  lookups l' = lookups l \<and> map tag (scripts l') = map tag (scripts l))) \<and>
         (features l \<noteq> [] \<and> t < tag (last (features l)) \<longrightarrow>
            getFeatureTable cdt script_arg language_arg t True tbl
              = (Inl (CheckFailed ''Features must be added in alphabetical order.''), Some l)))) \<and>
   getFeatureTable empty_layout None None ''aalt'' True None
     = (Inr (Some (0, \<lparr>params = 0, lookupListIndexes = []\<rparr>)), Some ex_aalt) \<and>
   getFeatureTable empty_layout None None ''liga'' True (Some ex_aalt)
     = (Inr (Some (1, \<lparr>params = 0, lookupListIndexes = []\<rparr>)), Some ex_aalt_liga) \<and>
   getFeatureTable empty_layout None None ''aalt'' True (Some ex_liga)
     = (Inl (CheckFailed ''Features must be added in alphabetical order.''), Some ex_liga)"
proof (intro conjI)
  show "\<exists>path ls l.
      getLangSysTable cdt script_arg language_arg True tbl = (Inr (Some (path, ls)), Some l) \<and>
      deref_langSys path l = Some ls \<and>
      ((\<forall>i\<in>set (featureIndexes ls). i < length (features l) \<and> tag (features l ! i) \<noteq> t) \<longrightarrow>
         (features l = [] \<or> tag (last (features l)) \<le> t \<longrightarrow>
            (\<exists>l'. getFeatureTable cdt script_arg language_arg t True tbl
                     = (Inr (Some (length (features l), \<lparr>params = 0, lookupListIndexes = []\<rparr>)), Some l') \<and>
                  features l' = features l @ [\<lparr>tag = t, feature = \<lparr>params = 0, lookupListIndexes = []\<rparr>\<rparr>] \<and>
                  deref_langSys path l'
                    = Some (ls\<lparr>featureIndexes := featureIndexes ls @ [length (features l)]\<rparr>) \<and>
                  lookups l' = lookups l \<and> map tag (scripts l') = map tag (scripts l))) \<and>
         (features l \<noteq> [] \<and> t < tag (last (features l)) \<longrightarrow>
            getFeatureTable cdt script_arg language_arg t True tbl
              = (Inl (CheckFailed ''Features must be added in alphabetical order.''), Some l)))"
  proof (cases rule: getLangSysTable_outcome[where create = True and cdt = cdt
        and script_arg = script_arg and language_arg = language_arg and tbl = tbl])
    case (unresolved t1)
    then show ?thesis by simp
  next
    case (resolved l path ls)
    let ?l' = "update_langSys path
                    (\<lambda>ls. ls\<lparr>featureIndexes := featureIndexes ls @ [length (features l)]\<rparr>)
                    (l\<lparr>features := features l @ [new_feature t]\<rparr>)"
    have d: "deref_langSys path ?l'
         = Some (ls\<lparr>featureIndexes := featureIndexes ls @ [length (features l)]\<rparr>)"
      using resolved(1) by (simp add: deref_langSys_update_langSys)
    have rest: "features ?l' = features l @ [new_feature t]" "lookups ?l' = lookups l"
      "map tag (scripts ?l') = map tag (scripts l)"
      by simp_all
    have step: "(\<forall>i\<in>set (featureIndexes ls). i < length (features l) \<and> tag (features l ! i) \<noteq> t) \<Longrightarrow>
       getFeatureTable cdt script_arg language_arg t True tbl =
     (if features l = [] \<or> tag (last (features l)) \<le> t
      then (Inr (Some (length (features l), feature (new_feature t))), Some ?l')
      else (Inl (CheckFailed ''Features must be added in alphabetical order.''), Some l))"
      using getFeatureTable_create_step[OF resolved(2)] by (simp add: scanFeatures_not_found)
    show ?thesis
      apply (rule exI[of _ path], rule exI[of _ ls], rule exI[of _ l])
      apply (intro conjI impI)
         apply (rule resolved(2))
        apply (rule resolved(1))
       apply (rule exI[of _ ?l'])
      using step d rest apply (simp add: new_feature_def)
      using step apply auto
      done
  qed
next
  show "getFeatureTable empty_layout None None ''aalt'' True None
     = (Inr (Some (0, \<lparr>params = 0, lookupListIndexes = []\<rparr>)), Some ex_aalt)"
    by (simp add: layout_eval_defs empty_layout_def ex_aalt_def ex_dflt_script_def new_feature_def)
next
  show "getFeatureTable empty_layout None None ''liga'' True (Some ex_aalt)
     = (Inr (Some (1, \<lparr>params = 0, lookupListIndexes = []\<rparr>)), Some ex_aalt_liga)"
    by (simp add: layout_eval_defs empty_layout_def ex_aalt_def ex_aalt_liga_def
        ex_dflt_script_def new_feature_def)
next
  show "getFeatureTable empty_layout None None ''aalt'' True (Some ex_liga)
     = (Inl (CheckFailed ''Features must be added in alphabetical order.''), Some ex_liga)"
    by (simp add: layout_eval_defs empty_layout_def ex_liga_def ex_dflt_script_def new_feature_def)
qed

theorem getFeatureTable_create_in_tag_order_witness:
  "getLangSysTable empty_layout None None True (Some ex_aalt)
     = (Inr (Some (AtDefaultLangSys 0, defaultLangSys (script (ex_dflt_script [0])))), Some ex_aalt) \<and>
   0 < length (features ex_aalt) \<and> tag (features ex_aalt ! 0) \<noteq> ''liga'' \<and>
   tag (last (features ex_aalt)) \<le> ''liga'' \<and>
   (\<exists>l'. getFeatureTable empty_layout None None ''liga'' True (Some ex_aalt)
            = (Inr (Some (1, \<lparr>params = 0, lookupListIndexes = []\<rparr>)), Some l') \<and>
          features l' = [new_feature ''aalt'', new_feature ''liga''] \<and>
          deref_langSys (AtDefaultLangSys 0) l'
            = Some \<lparr>reserved = 0, reqFeatureIndex = 0xffff, featureIndexes = [0, 1]\<rparr>) \<and>
   getLangSysTable empty_layout None None True (Some ex_liga)
     = (Inr (Some (AtDefaultLangSys 0, defaultLangSys (script (ex_dflt_script [0])))), Some ex_liga) \<and>
   0 < length (features ex_liga) \<and> tag (features ex_liga ! 0) \<noteq> ''aalt'' \<and>
   features ex_liga \<noteq> [] \<and> ''aalt'' < tag (last (features ex_liga)) \<and>
   getFeatureTable empty_layout None None ''aalt'' True (Some ex_liga)
     = (Inl (CheckFailed ''Features must be added in alphabetical order.''), Some ex_liga)"
proof -
  have e1: "getLangSysTable empty_layout None None True (Some ex_aalt)
     = (Inr (Some (AtDefaultLangSys 0, defaultLangSys (script (ex_dflt_script [0])))), Some ex_aalt)"
    by (simp add: layout_eval_defs ex_aalt_def ex_dflt_script_def)
  have e2: "getLangSysTable empty_layout None None True (Some ex_liga)
     = (Inr (Some (AtDefaultLangSys 0, defaultLangSys (script (ex_dflt_script [0])))), Some ex_liga)"
    by (simp add: layout_eval_defs ex_liga_def ex_dflt_script_def)
  have h1: "\<forall>i\<in>set [0]. i < length (features ex_aalt) \<and> tag (features ex_aalt ! i) \<noteq> ''liga''"
    "tag (last (features ex_aalt)) \<le> ''liga''"
    by (simp_all add: ex_aalt_def new_feature_def)
  have h2: "\<forall>i\<in>set [0]. i < length (features ex_liga) \<and> tag (features ex_liga ! i) \<noteq> ''aalt''"
    "features ex_liga \<noteq> []" "''aalt'' < tag (last (features ex_liga))"
    by (simp_all add: ex_liga_def new_feature_def)
  let ?ls = "defaultLangSys (script (ex_dflt_script [0]))"
  have fi: "featureIndexes ?ls = [0]" by (simp add: ex_dflt_script_def)
  from getFeatureTable_create_in_tag_order[where cdt = empty_layout and script_arg = None
      and language_arg = None and tbl = "Some ex_aalt" and t = "''liga''", THEN conjunct1]
  obtain path ls l where
    p1: "getLangSysTable empty_layout None None True (Some ex_aalt) = (Inr (Some (path, ls)), Some l)"
    and i1: "(\<forall>i\<in>set (featureIndexes ls). i < length (features l) \<and> tag (features l ! i) \<noteq> ''liga'') \<longrightarrow>
         (features l = [] \<or> tag (last (features l)) \<le> ''liga'' \<longrightarrow>
            (\<exists>l'. getFeatureTable empty_layout None None ''liga'' True (Some ex_aalt)
                     = (Inr (Some (length (features l), \<lparr>params = 0, lookupListIndexes = []\<rparr>)), Some l') \<and>
                  features l' = features l @ [\<lparr>tag = ''liga'', feature = \<lparr>params = 0, lookupListIndexes = []\<rparr>\<rparr>] \<and>
                  deref_langSys path l'
                    = Some (ls\<lparr>featureIndexes := featureIndexes ls @ [length (features l)]\<rparr>) \<and>
                  lookups l' = lookups l \<and> map tag (scripts l') = map tag (scripts l)))"
    by blast
  from p1 e1 have q1: "path = AtDefaultLangSys 0" "ls = ?ls" "l = ex_aalt" by simp_all
  from i1[unfolded q1 fi] h1
  obtain l' where l': "getFeatureTable empty_layout None None ''liga'' True (Some ex_aalt)
         = (Inr (Some (length (features ex_aalt), \<lparr>params = 0, lookupListIndexes = []\<rparr>)), Some l')"
      "features l' = features ex_aalt @ [\<lparr>tag = ''liga'', feature = \<lparr>params = 0, lookupListIndexes = []\<rparr>\<rparr>]"
      "deref_langSys (AtDefaultLangSys 0) l'
         = Some (?ls\<lparr>featureIndexes := [0] @ [length (features ex_aalt)]\<rparr>)"
    by blast
  have c1: "\<exists>l'. getFeatureTable empty_layout None None ''liga'' True (Some ex_aalt)
            = (Inr (Some (1, \<lparr>params = 0, lookupListIndexes = []\<rparr>)), Some l') \<and>
          features l' = [new_feature ''aalt'', new_feature ''liga''] \<and>
          deref_langSys (AtDefaultLangSys 0) l'
            = Some \<lparr>reserved = 0, reqFeatureIndex = 0xffff, featureIndexes = [0, 1]\<rparr>"
    using l' by (simp add: ex_aalt_def ex_dflt_script_def new_feature_def)
  from getFeatureTable_create_in_tag_order[where cdt = empty_layout and script_arg = None
      and language_arg = None and tbl = "Some ex_liga" and t = "''aalt''", THEN conjunct1]
  obtain path2 ls2 l2 where
    p2: "getLangSysTable empty_layout None None True (Some ex_liga) = (Inr (Some (path2, ls2)), Some l2)"
    and i2: "(\<forall>i\<in>set (featureIndexes ls2). i < length (features l2) \<and> tag (features l2 ! i) \<noteq> ''aalt'') \<longrightarrow>
         (features l2 \<noteq> [] \<and> ''aalt'' < tag (last (features l2)) \<longrightarrow>
            getFeatureTable empty_layout None None ''aalt'' True (Some ex_liga)
              = (Inl (CheckFailed ''Features must be added in alphabetical order.''), Some l2))"
    by blast
  from p2 e2 have q2: "path2 = AtDefaultLangSys 0" "ls2 = ?ls" "l2 = ex_liga" by simp_all
  from i2[unfolded q2 fi] h2
  have c2: "getFeatureTable empty_layout None None ''aalt'' True (Some ex_liga)
     = (Inl (CheckFailed ''Features must be added in alphabetical order.''), Some ex_liga)"
    by blast
  from h1(1) h2(1) have g: "0 < length (features ex_aalt) \<and> tag (features ex_aalt ! 0) \<noteq> ''liga''"
    "0 < length (features ex_liga) \<and> tag (features ex_liga ! 0) \<noteq> ''aalt''"
    by simp_all
  from e1 e2 g h1(2) h2(2,3) c1 c2 show ?thesis by blast
qed

text \<open>
  Claim C9, as amended. The claim says that \<^verbatim>\<open>getLookupTables\<close> always returns an array.
  It never returns an absent value, but it does not always return. It raises exactly
  when \<^verbatim>\<open>getFeatureTable\<close> raises, which happens only with a resolved LangSys table and
  either an entry of \<^verbatim>\<open>featureIndexes\<close> outside the feature array or, with
  \<open>create = true\<close>, a feature that has to be created with a tag below the tag of the
  last feature record ("Features must be added in alphabetical order."), or when an
  entry of the \<^verbatim>\<open>lookupListIndexes\<close> of the feature is outside the lookup array.
  Otherwise the result is an array: the empty array when the script, the language or
  the feature is not resolved; when the feature is resolved, the lookups it refers to
  that have the requested type, in the order of \<^verbatim>\<open>lookupListIndexes\<close>, each with its
  index, if there is one or \<open>create = false\<close>; with \<open>create = true\<close> and no such lookup,
  the one-element array of the fresh lookup, which is appended to the lookup array and
  whose index is appended to the \<^verbatim>\<open>lookupListIndexes\<close> of the feature. With
  \<open>create = true\<close> and a resolved LangSys table that refers to no feature with the tag,
  the call raises when the tag is below the tag of the last feature record, and
  otherwise creates the feature and the lookup and returns the lookup alone. On the
  table with the one feature \<^verbatim>\<open>liga\<close>, asking for \<^verbatim>\<open>aalt\<close> with \<open>create = true\<close> raises.
\<close>

theorem getLookupTables_returns_array:
  "(getScriptTable cdt script_arg False tbl = (Inr None, tbl') \<longrightarrow>
      getLookupTables cdt script_arg language_arg t ty False tbl = (Inr [], tbl')) \<and>
   (getLangSysTable cdt script_arg language_arg False tbl = (Inr None, tbl') \<longrightarrow>
      getLookupTables cdt script_arg language_arg t ty False tbl = (Inr [], tbl')) \<and>
   (getFeatureTable cdt script_arg language_arg t create tbl = (Inr None, tbl') \<longrightarrow>
      getLookupTables cdt script_arg language_arg t ty create tbl = (Inr [], tbl')) \<and>
   (getFeatureTable cdt script_arg language_arg t create tbl = (Inr (Some (fi, ft)), Some l) \<longrightarrow>
      ((\<forall>i\<in>set (lookupListIndexes ft). i < length (lookups l)) \<longrightarrow>
         (filter (\<lambda>i. lookupType (lookups l ! i) = ty) (lookupListIndexes ft) \<noteq> [] \<or> \<not> create \<longrightarrow>
            getLookupTables cdt script_arg language_arg t ty create tbl
              = (Inr (map (\<lambda>i. (i, lookups l ! i))
                       (filter (\<lambda>i. lookupType (lookups l ! i) = ty) (lookupListIndexes ft))),
                 Some l)) \<and>
         (filter (\<lambda>i. lookupType (lookups l ! i) = ty) (lookupListIndexes ft) = [] \<and> create \<longrightarrow>
            (\<exists>l'. getLookupTables cdt script_arg language_arg t ty create tbl
                     = (Inr [(length (lookups l),
                              \<lparr>lookupType = ty, lookupFlag = 0, subtables = [],
                               markFilteringSet = None\<rparr>)], Some l') \<and>
                  lookups l' = lookups l @ [\<lparr>lookupType = ty, lookupFlag = 0, subtables = [],
                                              markFilteringSet = None\<rparr>] \<and>
                  deref_feature fi l'
                    = Some (ft\<lparr>lookupListIndexes := lookupListIndexes ft @ [length (lookups l)]\<rparr>) \<and>
                  scripts l' = scripts l \<and> map tag (features l') = map tag (features l)))) \<and>
      ((\<exists>i\<in>set (lookupListIndexes ft). length (lookups l) \<le> i) \<longrightarrow>
         getLookupTables cdt script_arg language_arg t ty create tbl = (Inl TypeError, Some l))) \<and>
   (getFeatureTable cdt script_arg language_arg t create tbl = (Inl e, tbl') \<longrightarrow>
      getLookupTables cdt script_arg language_arg t ty create tbl = (Inl e, tbl') \<and>
      (\<exists>path ls l.
         getLangSysTable cdt script_arg language_arg create tbl = (Inr (Some (path, ls)), Some l) \<and>
         tbl' = Some l \<and>
         ((e = TypeError \<and> (\<exists>i\<in>set (featureIndexes ls). length (features l) \<le> i)) \<or>
          (create \<and> e = CheckFailed ''Features must be added in alphabetical order.'' \<and>
           (\<forall>i\<in>set (featureIndexes ls). i < length (features l) \<and> tag (features l ! i) \<noteq> t) \<and>
           features l \<noteq> [] \<and> t < tag (last (features l)))))) \<and>
   ((\<exists>e tbl2. getFeatureTable cdt script_arg language_arg t create tbl = (Inl e, tbl2)) \<or>
    (\<exists>tbl2. getFeatureTable cdt script_arg language_arg t create tbl = (Inr None, tbl2) \<and> \<not> create) \<or>
    (\<exists>fi ft l. getFeatureTable cdt script_arg language_arg t create tbl
                  = (Inr (Some (fi, ft)), Some l) \<and> deref_feature fi l = Some ft)) \<and>
   (getLangSysTable cdt script_arg language_arg True tbl = (Inr (Some (path, ls)), Some l) \<and>
    (\<forall>i\<in>set (featureIndexes ls). i < length (features l) \<and> tag (features l ! i) \<noteq> t) \<longrightarrow>
      (features l \<noteq> [] \<and> t < tag (last (features l)) \<longrightarrow>
         getLookupTables cdt script_arg language_arg t ty True tbl
           = (Inl (CheckFailed ''Features must be added in alphabetical order.''), Some l)) \<and>
      (features l = [] \<or> tag (last (features l)) \<le> t \<longrightarrow>
         (\<exists>l'. getLookupTables cdt script_arg language_arg t ty True tbl
                  = (Inr [(length (lookups l),
                           \<lparr>lookupType = ty, lookupFlag = 0, subtables = [],
                            markFilteringSet = None\<rparr>)], Some l') \<and>
               lookups l' = lookups l @ [\<lparr>lookupType = ty, lookupFlag = 0, subtables = [],
                                           markFilteringSet = None\<rparr>] \<and>
               features l' = features l
                 @ [\<lparr>tag = t, feature = \<lparr>params = 0, lookupListIndexes = [length (lookups l)]\<rparr>\<rparr>])))"
proof (intro conjI impI)
  assume "getScriptTable cdt script_arg False tbl = (Inr None, tbl')"
  then show "getLookupTables cdt script_arg language_arg t ty False tbl = (Inr [], tbl')"
    by (simp add: getLangSysTable_no_script getFeatureTable_no_langSys getLookupTables_unresolved)
next
  assume "getLangSysTable cdt script_arg language_arg False tbl = (Inr None, tbl')"
  then show "getLookupTables cdt script_arg language_arg t ty False tbl = (Inr [], tbl')"
    by (simp add: getFeatureTable_no_langSys getLookupTables_unresolved)
next
  assume "getFeatureTable cdt script_arg language_arg t create tbl = (Inr None, tbl')"
  then show "getLookupTables cdt script_arg language_arg t ty create tbl = (Inr [], tbl')"
    by (rule getLookupTables_unresolved)
next
  assume f: "getFeatureTable cdt script_arg language_arg t create tbl = (Inr (Some (fi, ft)), Some l)"
    and v: "\<forall>i\<in>set (lookupListIndexes ft). i < length (lookups l)"
    and c: "filter (\<lambda>i. lookupType (lookups l ! i) = ty) (lookupListIndexes ft) \<noteq> [] \<or> \<not> create"
  from getLookupTables_resolved[OF f v, of ty] c
  show "getLookupTables cdt script_arg language_arg t ty create tbl
              = (Inr (map (\<lambda>i. (i, lookups l ! i))
                       (filter (\<lambda>i. lookupType (lookups l ! i) = ty) (lookupListIndexes ft))),
                 Some l)"
    by (auto simp: Let_def)
next
  assume f: "getFeatureTable cdt script_arg language_arg t create tbl = (Inr (Some (fi, ft)), Some l)"
    and v: "\<forall>i\<in>set (lookupListIndexes ft). i < length (lookups l)"
    and c: "filter (\<lambda>i. lookupType (lookups l ! i) = ty) (lookupListIndexes ft) = [] \<and> create"
  let ?fresh = "\<lparr>lookupType = ty, lookupFlag = 0, subtables = [], markFilteringSet = None\<rparr>"
  let ?l' = "update_feature fi
               (\<lambda>f. f\<lparr>lookupListIndexes := lookupListIndexes f @ [length (lookups l)]\<rparr>)
               (l\<lparr>lookups := lookups l @ [new_lookup ty]\<rparr>)"
  from getLookupTables_resolved[OF f v, of ty] c
  have r: "getLookupTables cdt script_arg language_arg t ty create tbl
                     = (Inr [(length (lookups l), ?fresh)], Some ?l')"
    by (simp add: Let_def new_lookup_def)
  have a: "lookups ?l' = lookups l @ [?fresh]" by (simp add: new_lookup_def)
  have b: "deref_feature fi ?l'
      = Some (ft\<lparr>lookupListIndexes := lookupListIndexes ft @ [length (lookups l)]\<rparr>)"
    using getFeatureTable_deref[OF f] by (simp add: deref_feature_update_feature)
  have d: "scripts ?l' = scripts l" by simp
  have e: "map tag (features ?l') = map tag (features l)"
  proof (cases "fi < length (features l)")
    case True
    then have "(map tag (features l))[fi := map tag (features l) ! fi] = map tag (features l)"
      by (simp only: list_update_id)
    with True show ?thesis by (simp add: update_feature_def map_update)
  next
    case False
    then have "length (features l) \<le> fi" by simp
    then have "(features l)[fi := x] = features l" for x by (rule list_update_beyond)
    then show ?thesis by (simp add: update_feature_def)
  qed
  from r a b d e
  show "\<exists>l'. getLookupTables cdt script_arg language_arg t ty create tbl
                     = (Inr [(length (lookups l), ?fresh)], Some l') \<and>
                  lookups l' = lookups l @ [?fresh] \<and>
                  deref_feature fi l'
                    = Some (ft\<lparr>lookupListIndexes := lookupListIndexes ft @ [length (lookups l)]\<rparr>) \<and>
                  scripts l' = scripts l \<and> map tag (features l') = map tag (features l)"
    by blast
next
  assume f: "getFeatureTable cdt script_arg language_arg t create tbl = (Inr (Some (fi, ft)), Some l)"
    and v: "\<exists>i\<in>set (lookupListIndexes ft). length (lookups l) \<le> i"
  from getLookupTables_dangling[OF f v]
  show "getLookupTables cdt script_arg language_arg t ty create tbl = (Inl TypeError, Some l)" .
next
  assume r: "getFeatureTable cdt script_arg language_arg t create tbl = (Inl e, tbl')"
  from getLookupTables_raised[OF r]
  show "getLookupTables cdt script_arg language_arg t ty create tbl = (Inl e, tbl')" .
  from getFeatureTable_raises[OF r]
  show "\<exists>path ls l.
         getLangSysTable cdt script_arg language_arg create tbl = (Inr (Some (path, ls)), Some l) \<and>
         tbl' = Some l \<and>
         ((e = TypeError \<and> (\<exists>i\<in>set (featureIndexes ls). length (features l) \<le> i)) \<or>
          (create \<and> e = CheckFailed ''Features must be added in alphabetical order.'' \<and>
           (\<forall>i\<in>set (featureIndexes ls). i < length (features l) \<and> tag (features l ! i) \<noteq> t) \<and>
           features l \<noteq> [] \<and> t < tag (last (features l))))" .
next
  show "(\<exists>e tbl2. getFeatureTable cdt script_arg language_arg t create tbl = (Inl e, tbl2)) \<or>
    (\<exists>tbl2. getFeatureTable cdt script_arg language_arg t create tbl = (Inr None, tbl2) \<and> \<not> create) \<or>
    (\<exists>fi ft l. getFeatureTable cdt script_arg language_arg t create tbl
                  = (Inr (Some (fi, ft)), Some l) \<and> deref_feature fi l = Some ft)"
    by (cases rule: getFeatureTable_outcome[where create = create and cdt = cdt and t = t
        and script_arg = script_arg and language_arg = language_arg and tbl = tbl]) blast+
next
  assume a: "getLangSysTable cdt script_arg language_arg True tbl = (Inr (Some (path, ls)), Some l) \<and>
    (\<forall>i\<in>set (featureIndexes ls). i < length (features l) \<and> tag (features l ! i) \<noteq> t)"
    and o: "features l \<noteq> [] \<and> t < tag (last (features l))"
  from a have nf: "scanFeatures (features l) t (featureIndexes ls) = Inr None"
    by (simp add: scanFeatures_not_found)
  from getFeatureTable_create_step[OF a[THEN conjunct1] nf] o
  have "getFeatureTable cdt script_arg language_arg t True tbl
      = (Inl (CheckFailed ''Features must be added in alphabetical order.''), Some l)"
    by auto
  then show "getLookupTables cdt script_arg language_arg t ty True tbl
           = (Inl (CheckFailed ''Features must be added in alphabetical order.''), Some l)"
    by (rule getLookupTables_raised)
next
  assume a: "getLangSysTable cdt script_arg language_arg True tbl = (Inr (Some (path, ls)), Some l) \<and>
    (\<forall>i\<in>set (featureIndexes ls). i < length (features l) \<and> tag (features l ! i) \<noteq> t)"
    and o: "features l = [] \<or> tag (last (features l)) \<le> t"
  from getLookupTables_creates_feature_and_lookup[OF a[THEN conjunct1] a[THEN conjunct2] o, of ty]
  show "\<exists>l'. getLookupTables cdt script_arg language_arg t ty True tbl
                  = (Inr [(length (lookups l),
                           \<lparr>lookupType = ty, lookupFlag = 0, subtables = [],
                            markFilteringSet = None\<rparr>)], Some l') \<and>
               lookups l' = lookups l @ [\<lparr>lookupType = ty, lookupFlag = 0, subtables = [],
                                           markFilteringSet = None\<rparr>] \<and>
               features l' = features l
                 @ [\<lparr>tag = t, feature = \<lparr>params = 0, lookupListIndexes = [length (lookups l)]\<rparr>\<rparr>]"
    by (simp add: new_lookup_def)
qed

theorem getLookupTables_returns_array_witness:
  "getScriptTable empty_layout (Some ''cyrl'') False (Some ex_liga_lookups)
     = (Inr None, Some ex_liga_lookups) \<and>
   getLookupTables empty_layout (Some ''cyrl'') None ''liga'' 4 False (Some ex_liga_lookups)
     = (Inr [], Some ex_liga_lookups) \<and>
   getFeatureTable empty_layout None None ''liga'' False (Some ex_liga_lookups)
     = (Inr (Some (0, \<lparr>params = 0, lookupListIndexes = [1, 0]\<rparr>)), Some ex_liga_lookups) \<and>
   map lookupType (lookups ex_liga_lookups) = [4, 1, 6] \<and>
   getLookupTables empty_layout None None ''liga'' 4 False (Some ex_liga_lookups)
     = (Inr [(0, new_lookup 4)], Some ex_liga_lookups) \<and>
   getLookupTables empty_layout None None ''liga'' 4 True (Some ex_liga_lookups)
     = (Inr [(0, new_lookup 4)], Some ex_liga_lookups) \<and>
   getLookupTables empty_layout None None ''liga'' 6 False (Some ex_liga_lookups)
     = (Inr [], Some ex_liga_lookups) \<and>
   getLookupTables empty_layout None None ''liga'' 6 True (Some ex_liga_lookups)
     = (Inr [(3, new_lookup 6)], Some ex_liga_lookups_created) \<and>
   getFeatureTable empty_layout None None ''liga'' False (Some ex_liga_dangling)
     = (Inr (Some (0, \<lparr>params = 0, lookupListIndexes = [1, 7]\<rparr>)), Some ex_liga_dangling) \<and>
   length (lookups ex_liga_dangling) = 3 \<and>
   getLookupTables empty_layout None None ''liga'' 4 False (Some ex_liga_dangling)
     = (Inl TypeError, Some ex_liga_dangling) \<and>
   getFeatureTable empty_layout None None ''aalt'' True (Some ex_liga)
     = (Inl (CheckFailed ''Features must be added in alphabetical order.''), Some ex_liga) \<and>
   getLookupTables empty_layout None None ''aalt'' 4 True (Some ex_liga)
     = (Inl (CheckFailed ''Features must be added in alphabetical order.''), Some ex_liga) \<and>
   getLangSysTable empty_layout None None True (Some ex_aalt)
     = (Inr (Some (AtDefaultLangSys 0, defaultLangSys (script (ex_dflt_script [0])))), Some ex_aalt) \<and>
   (\<exists>l'. getLookupTables empty_layout None None ''liga'' 4 True (Some ex_aalt)
            = (Inr [(0, new_lookup 4)], Some l') \<and>
          lookups l' = [new_lookup 4] \<and>
          features l' = [new_feature ''aalt'',
                         \<lparr>tag = ''liga'', feature = \<lparr>params = 0, lookupListIndexes = [0]\<rparr>\<rparr>])"
proof -
  let ?ft = "\<lparr>params = 0, lookupListIndexes = [1, 0]\<rparr>"
  have s: "getScriptTable empty_layout (Some ''cyrl'') False (Some ex_liga_lookups)
      = (Inr None, Some ex_liga_lookups)"
    by (simp add: lookups_eval_defs)
  have f: "getFeatureTable empty_layout None None ''liga'' create (Some ex_liga_lookups)
     = (Inr (Some (0, ?ft)), Some ex_liga_lookups)" for create
    by (simp add: lookups_eval_defs)
  have ty: "map lookupType (lookups ex_liga_lookups) = [4, 1, 6]"
    by (simp add: lookups_eval_defs)
  have v: "\<forall>i\<in>set (lookupListIndexes ?ft). i < length (lookups ex_liga_lookups)"
    by (simp add: lookups_eval_defs)
  have m4: "filter (\<lambda>i. lookupType (lookups ex_liga_lookups ! i) = 4) (lookupListIndexes ?ft) = [0]"
    by (simp add: lookups_eval_defs)
  have m6: "filter (\<lambda>i. lookupType (lookups ex_liga_lookups ! i) = 6) (lookupListIndexes ?ft) = []"
    by (simp add: lookups_eval_defs)
  have l0: "lookups ex_liga_lookups ! 0 = new_lookup 4" by (simp add: lookups_eval_defs)
  have a: "getLookupTables empty_layout (Some ''cyrl'') None ''liga'' 4 False (Some ex_liga_lookups)
     = (Inr [], Some ex_liga_lookups)"
    using getLookupTables_returns_array[where cdt = empty_layout and tbl = "Some ex_liga_lookups"
        and t = "''liga''" and ty = 4 and script_arg = "Some ''cyrl''" and language_arg = None
        and tbl' = "Some ex_liga_lookups", THEN conjunct1] s by simp
  have b4: "getLookupTables empty_layout None None ''liga'' 4 create (Some ex_liga_lookups)
     = (Inr [(0, new_lookup 4)], Some ex_liga_lookups)" for create
    using getLookupTables_returns_array[where cdt = empty_layout and tbl = "Some ex_liga_lookups"
        and t = "''liga''" and ty = 4 and script_arg = None and language_arg = None and fi = 0
        and ft = ?ft and l = ex_liga_lookups and create = create,
        THEN conjunct2, THEN conjunct2, THEN conjunct2, THEN conjunct1]
      f[of create] v m4 l0 by simp
  note T6 = getLookupTables_returns_array[where cdt = empty_layout and tbl = "Some ex_liga_lookups"
        and t = "''liga''" and ty = 6 and script_arg = None and language_arg = None and fi = 0
        and ft = ?ft and l = ex_liga_lookups,
        THEN conjunct2, THEN conjunct2, THEN conjunct2, THEN conjunct1]
  have b6: "getLookupTables empty_layout None None ''liga'' 6 False (Some ex_liga_lookups)
     = (Inr [], Some ex_liga_lookups)"
    using getLookupTables_returns_array[where cdt = empty_layout and tbl = "Some ex_liga_lookups"
        and t = "''liga''" and ty = 6 and script_arg = None and language_arg = None and fi = 0
        and ft = ?ft and l = ex_liga_lookups and create = False,
        THEN conjunct2, THEN conjunct2, THEN conjunct2, THEN conjunct1]
      f[of False] v m6 by simp
  have "\<exists>l'. getLookupTables empty_layout None None ''liga'' 6 True (Some ex_liga_lookups)
                = (Inr [(length (lookups ex_liga_lookups), new_lookup 6)], Some l') \<and>
             lookups l' = lookups ex_liga_lookups @ [new_lookup 6] \<and>
             deref_feature 0 l' = Some (?ft\<lparr>lookupListIndexes := lookupListIndexes ?ft
                                             @ [length (lookups ex_liga_lookups)]\<rparr>) \<and>
             scripts l' = scripts ex_liga_lookups \<and>
             map tag (features l') = map tag (features ex_liga_lookups)"
    using getLookupTables_returns_array[where cdt = empty_layout and tbl = "Some ex_liga_lookups"
        and t = "''liga''" and ty = 6 and script_arg = None and language_arg = None and fi = 0
        and ft = ?ft and l = ex_liga_lookups and create = True,
        THEN conjunct2, THEN conjunct2, THEN conjunct2, THEN conjunct1]
      f[of True] v m6 by (simp add: new_lookup_def)
  then obtain l' where l':
      "getLookupTables empty_layout None None ''liga'' 6 True (Some ex_liga_lookups)
         = (Inr [(length (lookups ex_liga_lookups), new_lookup 6)], Some l')"
      "lookups l' = lookups ex_liga_lookups @ [new_lookup 6]"
      "deref_feature 0 l' = Some (?ft\<lparr>lookupListIndexes := lookupListIndexes ?ft
                                             @ [length (lookups ex_liga_lookups)]\<rparr>)"
      "scripts l' = scripts ex_liga_lookups"
      "map tag (features l') = map tag (features ex_liga_lookups)"
    by blast
  have c6: "getLookupTables empty_layout None None ''liga'' 6 True (Some ex_liga_lookups)
     = (Inr [(3, new_lookup 6)], Some ex_liga_lookups_created)"
    by (simp add: getLookupTables_def update_feature_def lookups_eval_defs)
  have fd: "getFeatureTable empty_layout None None ''liga'' False (Some ex_liga_dangling)
     = (Inr (Some (0, \<lparr>params = 0, lookupListIndexes = [1, 7]\<rparr>)), Some ex_liga_dangling)"
    by (simp add: lookups_eval_defs)
  have ld: "length (lookups ex_liga_dangling) = 3" by (simp add: lookups_eval_defs)
  have d: "getLookupTables empty_layout None None ''liga'' 4 False (Some ex_liga_dangling)
     = (Inl TypeError, Some ex_liga_dangling)"
    using getLookupTables_returns_array[where cdt = empty_layout and tbl = "Some ex_liga_dangling"
        and t = "''liga''" and ty = 4 and script_arg = None and language_arg = None and fi = 0
        and ft = "\<lparr>params = 0, lookupListIndexes = [1, 7]\<rparr>" and l = ex_liga_dangling
        and create = False,
        THEN conjunct2, THEN conjunct2, THEN conjunct2, THEN conjunct1]
      fd ld by simp
  have fr: "getFeatureTable empty_layout None None ''aalt'' True (Some ex_liga)
     = (Inl (CheckFailed ''Features must be added in alphabetical order.''), Some ex_liga)"
    by (simp add: layout_eval_defs ex_liga_def ex_dflt_script_def new_feature_def)
  have r: "getLookupTables empty_layout None None ''aalt'' 4 True (Some ex_liga)
     = (Inl (CheckFailed ''Features must be added in alphabetical order.''), Some ex_liga)"
    using getLookupTables_returns_array[where cdt = empty_layout and tbl = "Some ex_liga"
        and t = "''aalt''" and ty = 4 and script_arg = None and language_arg = None
        and create = True and tbl' = "Some ex_liga"
        and e = "CheckFailed ''Features must be added in alphabetical order.''",
        THEN conjunct2, THEN conjunct2, THEN conjunct2, THEN conjunct2, THEN conjunct1]
      fr by simp
  have e1: "getLangSysTable empty_layout None None True (Some ex_aalt)
     = (Inr (Some (AtDefaultLangSys 0, defaultLangSys (script (ex_dflt_script [0])))), Some ex_aalt)"
    by (simp add: layout_eval_defs ex_aalt_def ex_dflt_script_def)
  have n: "\<exists>l'. getLookupTables empty_layout None None ''liga'' 4 True (Some ex_aalt)
            = (Inr [(0, new_lookup 4)], Some l') \<and>
          lookups l' = [new_lookup 4] \<and>
          features l' = [new_feature ''aalt'',
                         \<lparr>tag = ''liga'', feature = \<lparr>params = 0, lookupListIndexes = [0]\<rparr>\<rparr>]"
    using getLookupTables_returns_array[where cdt = empty_layout and tbl = "Some ex_aalt"
        and t = "''liga''" and ty = 4 and script_arg = None and language_arg = None
        and path = "AtDefaultLangSys 0" and ls = "defaultLangSys (script (ex_dflt_script [0]))"
        and l = ex_aalt,
        THEN conjunct2, THEN conjunct2, THEN conjunct2, THEN conjunct2, THEN conjunct2,
        THEN conjunct2]
      e1
    by (simp add: ex_aalt_def ex_dflt_script_def new_feature_def new_lookup_def)
  from l'(1) c6 have "l' = ex_liga_lookups_created" by simp
  from s a f[of False] ty b4[of False] b4[of True] b6 c6 fd ld d fr r e1 n show ?thesis by blast
qed

theorem getLookupTables_raises_counterexample:
  "lookups ex_liga = [] \<and>
   getLookupTables empty_layout None None ''aalt'' 4 True (Some ex_liga)
     = (Inl (CheckFailed ''Features must be added in alphabetical order.''), Some ex_liga) \<and>
   fst (getLookupTables empty_layout None None ''aalt'' 4 True (Some ex_liga))
     \<noteq> Inr [(0, new_lookup 4)]"
  by (simp add: getLookupTables_def layout_eval_defs ex_liga_def ex_dflt_script_def new_feature_def)

text \<open>
  Claim C2. When the script array and every \<^verbatim>\<open>langSysRecords\<close> array of the layout
  table are sorted ascending by tag (and so are those of the table that
  \<^verbatim>\<open>createDefaultTable\<close> returns), every operation of the Layout engine leaves them
  sorted ascending by tag, whatever its arguments and whether it returns or raises.
  On their create paths, when \<^verbatim>\<open>searchTag\<close> returns \<open>- k - 1\<close>, \<^verbatim>\<open>getScriptTable\<close> and
  \<^verbatim>\<open>getLangSysTable\<close> splice a record with the default LangSys
  \<open>{reserved: 0, reqFeatureIndex: 0xFFFF, featureIndexes: []}\<close> at the index \<open>k\<close>.
\<close>

theorem layout_operations_keep_sorted:
  assumes "tables_sorted tbl" and "layout_sorted cdt"
  shows "tables_sorted (getTable cdt create tbl) \<and>
         tables_sorted (snd (getScriptNames cdt tbl)) \<and>
         tables_sorted (snd (getDefaultScriptName cdt tbl)) \<and>
         tables_sorted (snd (getScriptTable cdt script_arg create tbl)) \<and>
         tables_sorted (snd (getLangSysTable cdt script_arg language_arg create tbl)) \<and>
         tables_sorted (snd (getFeatureTable cdt script_arg language_arg t create tbl)) \<and>
         tables_sorted (snd (getLookupTables cdt script_arg language_arg t ty create tbl)) \<and>
         (getTable cdt True tbl = Some l \<and> searchTag (scripts l) t = Inr (- int k - 1) \<longrightarrow>
            getScriptTable cdt (Some t) True tbl =
              (Inr (Some (k, \<lparr>defaultLangSys = new_langSys, langSysRecords = []\<rparr>)),
               Some (l\<lparr>scripts := take k (scripts l)
                        @ [\<lparr>tag = t, script = \<lparr>defaultLangSys = new_langSys, langSysRecords = []\<rparr>\<rparr>]
                        @ drop k (scripts l)\<rparr>))) \<and>
         (getScriptTable cdt script_arg True tbl = (Inr (Some (si, st)), Some l) \<and>
          t \<noteq> ''dflt'' \<and> t \<noteq> ''DFLT'' \<and>
          searchTag (langSysRecords st) t = Inr (- int k - 1) \<longrightarrow>
            getLangSysTable cdt script_arg (Some t) True tbl =
              (Inr (Some (AtLangSysRecord si k, new_langSys)),
               Some (update_script si
                       (\<lambda>s. s\<lparr>langSysRecords := take k (langSysRecords s)
                                @ [\<lparr>tag = t, langSys = new_langSys\<rparr>]
                                @ drop k (langSysRecords s)\<rparr>) l))) \<and>
         new_langSys = \<lparr>reserved = 0, reqFeatureIndex = 0xFFFF, featureIndexes = []\<rparr>"
proof (intro conjI impI)
  show "tables_sorted (getTable cdt create tbl)"
    using assms by (rule tables_sorted_getTable)
  show "tables_sorted (snd (getScriptNames cdt tbl))"
    using assms(1) by (cases tbl) (simp_all add: getScriptNames_def)
  show "tables_sorted (snd (getDefaultScriptName cdt tbl))"
    using assms(1) by (cases tbl) (simp_all add: getDefaultScriptName_def)
  show "tables_sorted (snd (getScriptTable cdt script_arg create tbl))"
    using assms by (rule tables_sorted_getScriptTable)
  show "tables_sorted (snd (getLangSysTable cdt script_arg language_arg create tbl))"
    using assms by (rule tables_sorted_getLangSysTable)
  show "tables_sorted (snd (getFeatureTable cdt script_arg language_arg t create tbl))"
    using assms by (rule tables_sorted_getFeatureTable)
  show "tables_sorted (snd (getLookupTables cdt script_arg language_arg t ty create tbl))"
    using assms by (rule tables_sorted_getLookupTables)
  show "new_langSys = \<lparr>reserved = 0, reqFeatureIndex = 0xFFFF, featureIndexes = []\<rparr>"
    by (simp add: new_langSys_def)
next
  assume "getTable cdt True tbl = Some l \<and> searchTag (scripts l) t = Inr (- int k - 1)"
  then show "getScriptTable cdt (Some t) True tbl =
              (Inr (Some (k, \<lparr>defaultLangSys = new_langSys, langSysRecords = []\<rparr>)),
               Some (l\<lparr>scripts := take k (scripts l)
                        @ [\<lparr>tag = t, script = \<lparr>defaultLangSys = new_langSys, langSysRecords = []\<rparr>\<rparr>]
                        @ drop k (scripts l)\<rparr>))"
    using getScriptTable_create_splices[of cdt tbl l t k] by simp
next
  assume "getScriptTable cdt script_arg True tbl = (Inr (Some (si, st)), Some l) \<and>
          t \<noteq> ''dflt'' \<and> t \<noteq> ''DFLT'' \<and>
          searchTag (langSysRecords st) t = Inr (- int k - 1)"
  then show "getLangSysTable cdt script_arg (Some t) True tbl =
              (Inr (Some (AtLangSysRecord si k, new_langSys)),
               Some (update_script si
                       (\<lambda>s. s\<lparr>langSysRecords := take k (langSysRecords s)
                                @ [\<lparr>tag = t, langSys = new_langSys\<rparr>]
                                @ drop k (langSysRecords s)\<rparr>) l))"
    using getLangSysTable_create_splices[of cdt script_arg tbl si st l t k] by simp
qed

theorem layout_operations_keep_sorted_witness:
  "tables_sorted (Some ex_layout) \<and> layout_sorted empty_layout \<and>
   getTable empty_layout True (Some ex_layout) = Some ex_layout \<and>
   searchTag (scripts ex_layout) ''cyrl'' = Inr (- int 1 - 1) \<and>
   getScriptTable empty_layout (Some ''cyrl'') True (Some ex_layout)
     = (Inr (Some (1, ex_script)), Some ex_layout_cyrl) \<and>
   searchTag (langSysRecords ex_script) ''SRB '' = Inr (- int 0 - 1) \<and>
   getLangSysTable empty_layout (Some ''cyrl'') (Some ''SRB '') True (Some ex_layout)
     = (Inr (Some (AtLangSysRecord 1 0, new_langSys)), Some ex_layout_srb) \<and>
   tables_sorted (Some ex_layout_cyrl) \<and>
   tables_sorted (Some ex_layout_srb)"
proof -
  have h1: "tables_sorted (Some ex_layout)"
    by (simp add: tables_sorted_def layout_sorted_def sorted_by_tag_def ex_layout_def
        ex_scripts_def ex_script_def)
  have h2: "layout_sorted empty_layout"
    by (simp add: layout_sorted_def sorted_by_tag_def empty_layout_def)
  note T = layout_operations_keep_sorted[OF h1 h2, where create = True
      and script_arg = "Some ''cyrl''" and language_arg = "Some ''SRB ''" and l = ex_layout]
  have g: "getTable empty_layout True (Some ex_layout) = Some ex_layout" by simp
  have s1: "searchTag (scripts ex_layout) ''cyrl'' = Inr (- int 1 - 1)"
    by (simp add: searchTag_def searchTag_loop.simps js_index_def ex_layout_def ex_scripts_def)
  have c1: "getScriptTable empty_layout (Some ''cyrl'') True (Some ex_layout)
     = (Inr (Some (1, ex_script)), Some ex_layout_cyrl)"
    using layout_operations_keep_sorted[OF h1 h2, where t = "''cyrl''" and l = ex_layout and k = 1]
      g s1
    by (simp add: ex_script_def ex_layout_cyrl_def ex_layout_def ex_scripts_def)
  have s2: "searchTag (langSysRecords ex_script) ''SRB '' = Inr (- int 0 - 1)"
    by (simp add: searchTag_def searchTag_loop.simps ex_script_def)
  have c2: "getLangSysTable empty_layout (Some ''cyrl'') (Some ''SRB '') True (Some ex_layout)
     = (Inr (Some (AtLangSysRecord 1 0, new_langSys)), Some ex_layout_srb)"
    using layout_operations_keep_sorted[OF h1 h2, where t = "''SRB ''" and l = ex_layout_cyrl
        and k = 0 and si = 1 and st = ex_script and script_arg = "Some ''cyrl''"]
      c1 s2
    by (simp add: ex_layout_cyrl_def ex_layout_srb_def ex_layout_def ex_scripts_def
        update_script_def ex_script_def)
  have r1: "tables_sorted (Some ex_layout_cyrl)"
    using layout_operations_keep_sorted[OF h1 h2, where create = True
      and script_arg = "Some ''cyrl''"] c1 by simp
  have r2: "tables_sorted (Some ex_layout_srb)"
    using layout_operations_keep_sorted[OF h1 h2, where create = True
      and script_arg = "Some ''cyrl''" and language_arg = "Some ''SRB ''"] c2 by simp
  from h1 h2 g s1 c1 s2 c2 r1 r2 show ?thesis by blast
qed

section \<open>The GDEF table: claims\<close>

lemma bind_Inr [simp]: "bind (Inr (x, p)) f = f x p"
  by (simp add: bind_def)

lemma bind_Inl [simp]: "bind (Inl e) f = Inl e"
  by (simp add: bind_def)

lemma bind_eq_Inr:
  "bind m f = Inr r \<longleftrightarrow> (\<exists>x p. m = Inr (x, p) \<and> f x p = Inr r)"
  by (cases m) (auto simp: bind_def)

lemma parsePointer_null:
  "parseUShort p = Inr (0, p') \<Longrightarrow> parsePointer description p = Inr (None, p')"
  by (simp add: parsePointer_def)

lemma parseGDEFTable_unfold:
  assumes "parseVersion 1 (Parser d (case start_arg of None \<Rightarrow> 0 | Some s \<Rightarrow> s)) = Inr (v, p1)"
  shows "parseGDEFTable parseVersion d start_arg =
     (if v = 1 \<or> v = 12 / 10 \<or> v = 13 / 10 then
        map_sum id fst
          (bind (parsePointer Parser_classDef p1) (\<lambda>cd p2.
           bind (parsePointer parse_attachList p2) (\<lambda>al p3.
           bind (parsePointer parse_ligCaretList p3) (\<lambda>lc p4.
           bind (parsePointer Parser_classDef p4) (\<lambda>ma p5.
             if v \<ge> 12 / 10 then
               bind (parsePointer parse_markGlyphSets p5)
                 (\<lambda>mg p6. Inr (\<lparr>version = v, classDef = cd, attachList = al,
                       ligCaretList = lc, markAttachClassDef = ma, markGlyphSets = Some mg\<rparr>, p6))
             else Inr (\<lparr>version = v, classDef = cd, attachList = al,
                       ligCaretList = lc, markAttachClassDef = ma, markGlyphSets = None\<rparr>, p5))))))
      else Inl (CheckFailed ''Unsupported GDEF table version.''))"
  using assms by (simp add: parseGDEFTable_def check_argument_def Let_def)

lemma map_sum_fst_eq_Inr: "map_sum id fst m = Inr g \<longleftrightarrow> (\<exists>p. m = Inr (g, p))"
  by (cases m) auto

lemma parsePointer_follows:
  assumes "parseUShort p = Inr (off, p')" "0 < off"
  shows "parsePointer description p =
     (case description (Parser (data p) (offset p + off)) of
        Inl e \<Rightarrow> Inl e
      | Inr (x, q) \<Rightarrow> Inr (Some x, p'))"
  using assms by (simp add: parsePointer_def)

lemma parseGDEFTable_version_raises:
  assumes "parseVersion 1 (Parser d (case start_arg of None \<Rightarrow> 0 | Some s \<Rightarrow> s)) = Inl e"
  shows "parseGDEFTable parseVersion d start_arg = Inl e"
  using assms by (simp add: parseGDEFTable_def Let_def)

lemma parseList_loop_numeral:
  "parseList_loop (numeral k) itemCallback acc p =
     bind (itemCallback p) (\<lambda>x p1. parseList_loop (pred_numeral k) itemCallback (acc @ [x]) p1)"
  by (simp add: numeral_eq_Suc)

lemmas gdef_eval_defs =
  readVersion16Dot16_def Parser_def parseUShort_def parseShort_def parsePointer_def
  Parser_pointer_def parseList_def Parser_uShortList_def parseList_loop_numeral
  parseCoverageRange_def Parser_coverage_def parseClassRange_def Parser_classDef_def
  parse_attachList_def parse_caretValue_def parse_ligGlyph_def parse_ligCaretList_def
  parse_markGlyphSets_def check_argument_def cursor_def

text \<open>
  Claim C3. \<^verbatim>\<open>parseGDEFTable\<close> fails with "Unsupported GDEF table version." for
  every version other than 1.0, 1.2 and 1.3, and with the exception of the version
  decoder when that one fails. For an accepted version it decodes the four pointer
  fields \<^verbatim>\<open>classDef\<close>, \<^verbatim>\<open>attachList\<close>, \<^verbatim>\<open>ligCaretList\<close> and \<^verbatim>\<open>markAttachClassDef\<close> in
  this order from the cursor that the version leaves: when the four decode, a version
  below 1.2 returns the table with these four fields and no field \<^verbatim>\<open>markGlyphSets\<close>,
  and a version from 1.2 on decodes the fifth pointer field and returns the table with
  the five fields, or fails with the exception of the fifth; when one of the four
  fails, the parse fails with its exception. Conversely every table it returns has
  an accepted version and these fields. A pointer field whose stored offset is 0
  decodes to absent, whatever its sub-decoder; one whose offset is not 0 decodes to
  what the sub-decoder returns at the base of the structure plus the offset, with
  the cursor just after the offset field, and fails when the sub-decoder fails. So a
  header of an accepted version with all pointer fields 0 yields all four fields
  absent, and \<^verbatim>\<open>markGlyphSets\<close> present and absent-valued from version 1.2 on and
  missing in version 1.0. The statement holds for every decoder of the version. The
  tables \<open>ex_gdef_12\<close> and \<open>ex_gdef_lig\<close>, whose pointer fields are not 0, decode to
  \<open>ex_gdef_12_table\<close> and \<open>ex_gdef_lig_table\<close>; a ClassDef of an unsupported format
  fails the whole parse.
\<close>

theorem parseGDEFTable_versions_and_pointers:
  "(parseVersion 1 (Parser d (case start_arg of None \<Rightarrow> 0 | Some s \<Rightarrow> s)) = Inr (v, p1) \<longrightarrow>
      (v \<noteq> 1 \<and> v \<noteq> 12 / 10 \<and> v \<noteq> 13 / 10 \<longrightarrow>
         parseGDEFTable parseVersion d start_arg
           = Inl (CheckFailed ''Unsupported GDEF table version.'')) \<and>
      (\<forall>g. parseGDEFTable parseVersion d start_arg = Inr g \<longrightarrow>
         (v = 1 \<or> v = 12 / 10 \<or> v = 13 / 10) \<and> version g = v \<and>
         (\<exists>p2 p3 p4 p5.
            parsePointer Parser_classDef p1 = Inr (classDef g, p2) \<and>
            parsePointer parse_attachList p2 = Inr (attachList g, p3) \<and>
            parsePointer parse_ligCaretList p3 = Inr (ligCaretList g, p4) \<and>
            parsePointer Parser_classDef p4 = Inr (markAttachClassDef g, p5) \<and>
            (if v \<ge> 12 / 10
             then \<exists>mg p6. parsePointer parse_markGlyphSets p5 = Inr (mg, p6) \<and>
                    markGlyphSets g = Some mg
             else markGlyphSets g = None))) \<and>
      ((v = 1 \<or> v = 12 / 10 \<or> v = 13 / 10) \<and>
       parseUShort p1 = Inr (0, q2) \<and> parseUShort q2 = Inr (0, q3) \<and>
       parseUShort q3 = Inr (0, q4) \<and> parseUShort q4 = Inr (0, q5) \<and>
       (v \<ge> 12 / 10 \<longrightarrow> parseUShort q5 = Inr (0, q6)) \<longrightarrow>
         parseGDEFTable parseVersion d start_arg
           = Inr \<lparr>version = v, classDef = None, attachList = None, ligCaretList = None,
                  markAttachClassDef = None,
                  markGlyphSets = (if v \<ge> 12 / 10 then Some None else None)\<rparr>) \<and>
      ((v = 1 \<or> v = 12 / 10 \<or> v = 13 / 10) \<and>
       parsePointer Parser_classDef p1 = Inr (cd, r2) \<and>
       parsePointer parse_attachList r2 = Inr (al, r3) \<and>
       parsePointer parse_ligCaretList r3 = Inr (lc, r4) \<and>
       parsePointer Parser_classDef r4 = Inr (ma, r5) \<longrightarrow>
         (\<not> v \<ge> 12 / 10 \<longrightarrow>
            parseGDEFTable parseVersion d start_arg
              = Inr \<lparr>version = v, classDef = cd, attachList = al, ligCaretList = lc,
                     markAttachClassDef = ma, markGlyphSets = None\<rparr>) \<and>
         (v \<ge> 12 / 10 \<longrightarrow>
            (\<forall>mg r6. parsePointer parse_markGlyphSets r5 = Inr (mg, r6) \<longrightarrow>
               parseGDEFTable parseVersion d start_arg
                 = Inr \<lparr>version = v, classDef = cd, attachList = al, ligCaretList = lc,
                        markAttachClassDef = ma, markGlyphSets = Some mg\<rparr>) \<and>
            (\<forall>e. parsePointer parse_markGlyphSets r5 = Inl e \<longrightarrow>
               parseGDEFTable parseVersion d start_arg = Inl e))) \<and>
      ((v = 1 \<or> v = 12 / 10 \<or> v = 13 / 10) \<longrightarrow>
         (\<forall>e. parsePointer Parser_classDef p1 = Inl e \<longrightarrow>
            parseGDEFTable parseVersion d start_arg = Inl e) \<and>
         (\<forall>e x s2. parsePointer Parser_classDef p1 = Inr (x, s2) \<and>
            parsePointer parse_attachList s2 = Inl e \<longrightarrow>
            parseGDEFTable parseVersion d start_arg = Inl e) \<and>
         (\<forall>e x s2 y s3. parsePointer Parser_classDef p1 = Inr (x, s2) \<and>
            parsePointer parse_attachList s2 = Inr (y, s3) \<and>
            parsePointer parse_ligCaretList s3 = Inl e \<longrightarrow>
            parseGDEFTable parseVersion d start_arg = Inl e) \<and>
         (\<forall>e x s2 y s3 z s4. parsePointer Parser_classDef p1 = Inr (x, s2) \<and>
            parsePointer parse_attachList s2 = Inr (y, s3) \<and>
            parsePointer parse_ligCaretList s3 = Inr (z, s4) \<and>
            parsePointer Parser_classDef s4 = Inl e \<longrightarrow>
            parseGDEFTable parseVersion d start_arg = Inl e))) \<and>
   (\<forall>e. parseVersion 1 (Parser d (case start_arg of None \<Rightarrow> 0 | Some s \<Rightarrow> s)) = Inl e \<longrightarrow>
      parseGDEFTable parseVersion d start_arg = Inl e) \<and>
   (parseUShort p = Inr (0, p') \<longrightarrow> parsePointer description p = Inr (None, p')) \<and>
   (parseUShort p = Inr (off, p') \<and> 0 < off \<longrightarrow>
      (\<forall>x q. description (Parser (data p) (offset p + off)) = Inr (x, q) \<longrightarrow>
         parsePointer description p = Inr (Some x, p')) \<and>
      (\<forall>e. description (Parser (data p) (offset p + off)) = Inl e \<longrightarrow>
         parsePointer description p = Inl e)) \<and>
   (\<forall>e. parseUShort p = Inl e \<longrightarrow> parsePointer description p = Inl e) \<and>
   parseGDEFTable (\<lambda>minorBase. readVersion16Dot16) ex_gdef_13 None
     = Inr \<lparr>version = 13 / 10, classDef = None, attachList = None, ligCaretList = None,
            markAttachClassDef = None, markGlyphSets = Some None\<rparr> \<and>
   parseGDEFTable (\<lambda>minorBase. readVersion16Dot16) ex_gdef_10 None
     = Inr \<lparr>version = 1, classDef = None, attachList = None, ligCaretList = None,
            markAttachClassDef = None, markGlyphSets = None\<rparr> \<and>
   parseGDEFTable (\<lambda>minorBase. readVersion16Dot16) ex_gdef_12 None = Inr ex_gdef_12_table \<and>
   parseGDEFTable (\<lambda>minorBase. readVersion16Dot16) ex_gdef_lig None = Inr ex_gdef_lig_table \<and>
   parseGDEFTable (\<lambda>minorBase. readVersion16Dot16) ex_gdef_bad_classDef None
     = Inl UnsupportedFormat"
proof (intro conjI impI allI)
  assume pv: "parseVersion 1 (Parser d (case start_arg of None \<Rightarrow> 0 | Some s \<Rightarrow> s)) = Inr (v, p1)"
  note U = parseGDEFTable_unfold[of parseVersion d start_arg v p1, OF pv]
  {
    assume "v \<noteq> 1 \<and> v \<noteq> 12 / 10 \<and> v \<noteq> 13 / 10"
    then show "parseGDEFTable parseVersion d start_arg
           = Inl (CheckFailed ''Unsupported GDEF table version.'')"
      by (simp add: U)
  }
  {
    fix g assume g: "parseGDEFTable parseVersion d start_arg = Inr g"
    show ok: "v = 1 \<or> v = 12 / 10 \<or> v = 13 / 10"
    proof (rule ccontr)
      assume "\<not> ?thesis"
      with g U show False by simp
    qed
    from g U ok obtain pe cd p2 al p3 lc p4 ma p5 where
      ps: "parsePointer Parser_classDef p1 = Inr (cd, p2)"
          "parsePointer parse_attachList p2 = Inr (al, p3)"
          "parsePointer parse_ligCaretList p3 = Inr (lc, p4)"
          "parsePointer Parser_classDef p4 = Inr (ma, p5)"
      and fin: "(if v \<ge> 12 / 10 then
               bind (parsePointer parse_markGlyphSets p5)
                 (\<lambda>mg p6. Inr (\<lparr>version = v, classDef = cd, attachList = al,
                       ligCaretList = lc, markAttachClassDef = ma, markGlyphSets = Some mg\<rparr>, p6))
             else Inr (\<lparr>version = v, classDef = cd, attachList = al,
                       ligCaretList = lc, markAttachClassDef = ma, markGlyphSets = None\<rparr>, p5))
          = Inr (g, pe)"
      by (simp add: map_sum_fst_eq_Inr bind_eq_Inr) blast
    have fields: "version g = v \<and> classDef g = cd \<and> attachList g = al \<and> ligCaretList g = lc \<and>
        markAttachClassDef g = ma \<and>
        (if v \<ge> 12 / 10
         then \<exists>mg p6. parsePointer parse_markGlyphSets p5 = Inr (mg, p6) \<and> markGlyphSets g = Some mg
         else markGlyphSets g = None)"
    proof (cases "v \<ge> 12 / 10")
      case True
      with fin obtain mg p6 where "parsePointer parse_markGlyphSets p5 = Inr (mg, p6)"
        "g = \<lparr>version = v, classDef = cd, attachList = al,
                       ligCaretList = lc, markAttachClassDef = ma, markGlyphSets = Some mg\<rparr>"
        by (auto simp: bind_eq_Inr)
      with True show ?thesis by auto
    next
      case False
      with fin show ?thesis by auto
    qed
    then show "version g = v" by simp
    from fields ps show "\<exists>p2 p3 p4 p5.
            parsePointer Parser_classDef p1 = Inr (classDef g, p2) \<and>
            parsePointer parse_attachList p2 = Inr (attachList g, p3) \<and>
            parsePointer parse_ligCaretList p3 = Inr (ligCaretList g, p4) \<and>
            parsePointer Parser_classDef p4 = Inr (markAttachClassDef g, p5) \<and>
            (if v \<ge> 12 / 10
             then \<exists>mg p6. parsePointer parse_markGlyphSets p5 = Inr (mg, p6) \<and>
                    markGlyphSets g = Some mg
             else markGlyphSets g = None)"
      by auto
  }
  {
    assume z: "(v = 1 \<or> v = 12 / 10 \<or> v = 13 / 10) \<and>
       parseUShort p1 = Inr (0, q2) \<and> parseUShort q2 = Inr (0, q3) \<and>
       parseUShort q3 = Inr (0, q4) \<and> parseUShort q4 = Inr (0, q5) \<and>
       (v \<ge> 12 / 10 \<longrightarrow> parseUShort q5 = Inr (0, q6))"
    then show "parseGDEFTable parseVersion d start_arg
           = Inr \<lparr>version = v, classDef = None, attachList = None, ligCaretList = None,
                  markAttachClassDef = None,
                  markGlyphSets = (if v \<ge> 12 / 10 then Some None else None)\<rparr>"
      by (auto simp: U parsePointer_null)
  }
  {
    assume s: "(v = 1 \<or> v = 12 / 10 \<or> v = 13 / 10) \<and>
       parsePointer Parser_classDef p1 = Inr (cd, r2) \<and>
       parsePointer parse_attachList r2 = Inr (al, r3) \<and>
       parsePointer parse_ligCaretList r3 = Inr (lc, r4) \<and>
       parsePointer Parser_classDef r4 = Inr (ma, r5)"
    then have V: "parseGDEFTable parseVersion d start_arg =
        map_sum id fst
          (if v \<ge> 12 / 10 then
               bind (parsePointer parse_markGlyphSets r5)
                 (\<lambda>mg p6. Inr (\<lparr>version = v, classDef = cd, attachList = al,
                       ligCaretList = lc, markAttachClassDef = ma, markGlyphSets = Some mg\<rparr>, p6))
             else Inr (\<lparr>version = v, classDef = cd, attachList = al,
                       ligCaretList = lc, markAttachClassDef = ma, markGlyphSets = None\<rparr>, r5))"
      by (simp add: U)
    {
      assume "\<not> v \<ge> 12 / 10"
      then show "parseGDEFTable parseVersion d start_arg
              = Inr \<lparr>version = v, classDef = cd, attachList = al, ligCaretList = lc,
                     markAttachClassDef = ma, markGlyphSets = None\<rparr>"
        by (simp add: V)
    }
    {
      fix mg r6
      assume "v \<ge> 12 / 10" "parsePointer parse_markGlyphSets r5 = Inr (mg, r6)"
      then show "parseGDEFTable parseVersion d start_arg
                 = Inr \<lparr>version = v, classDef = cd, attachList = al, ligCaretList = lc,
                        markAttachClassDef = ma, markGlyphSets = Some mg\<rparr>"
        by (simp add: V)
    }
    {
      fix e
      assume "v \<ge> 12 / 10" "parsePointer parse_markGlyphSets r5 = Inl e"
      then show "parseGDEFTable parseVersion d start_arg = Inl e"
        by (simp add: V)
    }
  }
  {
    assume ok: "v = 1 \<or> v = 12 / 10 \<or> v = 13 / 10"
    {
      fix e assume "parsePointer Parser_classDef p1 = Inl e"
      with ok show "parseGDEFTable parseVersion d start_arg = Inl e"
        by (simp add: U)
    }
    {
      fix e x s2
      assume "parsePointer Parser_classDef p1 = Inr (x, s2) \<and>
            parsePointer parse_attachList s2 = Inl e"
      with ok show "parseGDEFTable parseVersion d start_arg = Inl e"
        by (simp add: U)
    }
    {
      fix e x s2 y s3
      assume "parsePointer Parser_classDef p1 = Inr (x, s2) \<and>
            parsePointer parse_attachList s2 = Inr (y, s3) \<and>
            parsePointer parse_ligCaretList s3 = Inl e"
      with ok show "parseGDEFTable parseVersion d start_arg = Inl e"
        by (simp add: U)
    }
    {
      fix e x s2 y s3 z s4
      assume "parsePointer Parser_classDef p1 = Inr (x, s2) \<and>
            parsePointer parse_attachList s2 = Inr (y, s3) \<and>
            parsePointer parse_ligCaretList s3 = Inr (z, s4) \<and>
            parsePointer Parser_classDef s4 = Inl e"
      with ok show "parseGDEFTable parseVersion d start_arg = Inl e"
        by (simp add: U)
    }
  }
next
  fix e
  assume "parseVersion 1 (Parser d (case start_arg of None \<Rightarrow> 0 | Some s \<Rightarrow> s)) = Inl e"
  then show "parseGDEFTable parseVersion d start_arg = Inl e"
    by (rule parseGDEFTable_version_raises)
next
  assume "parseUShort p = Inr (0, p')"
  then show "parsePointer description p = Inr (None, p')" by (rule parsePointer_null)
next
  fix x q
  assume "parseUShort p = Inr (off, p') \<and> 0 < off"
    "description (Parser (data p) (offset p + off)) = Inr (x, q)"
  then show "parsePointer description p = Inr (Some x, p')"
    by (simp add: parsePointer_follows)
next
  fix e
  assume "parseUShort p = Inr (off, p') \<and> 0 < off"
    "description (Parser (data p) (offset p + off)) = Inl e"
  then show "parsePointer description p = Inl e"
    by (simp add: parsePointer_follows)
next
  fix e
  assume "parseUShort p = Inl e"
  then show "parsePointer description p = Inl e"
    by (simp add: parsePointer_def)
next
  show "parseGDEFTable (\<lambda>minorBase. readVersion16Dot16) ex_gdef_13 None
     = Inr \<lparr>version = 13 / 10, classDef = None, attachList = None, ligCaretList = None,
            markAttachClassDef = None, markGlyphSets = Some None\<rparr>"
    by (simp add: parseGDEFTable_def readVersion16Dot16_def Parser_def parseUShort_def
        parsePointer_def check_argument_def ex_gdef_13_def)
next
  show "parseGDEFTable (\<lambda>minorBase. readVersion16Dot16) ex_gdef_10 None
     = Inr \<lparr>version = 1, classDef = None, attachList = None, ligCaretList = None,
            markAttachClassDef = None, markGlyphSets = None\<rparr>"
    by (simp add: parseGDEFTable_def readVersion16Dot16_def Parser_def parseUShort_def
        parsePointer_def check_argument_def ex_gdef_10_def)
next
  show "parseGDEFTable (\<lambda>minorBase. readVersion16Dot16) ex_gdef_12 None = Inr ex_gdef_12_table"
    by (simp add: parseGDEFTable_def gdef_eval_defs ex_gdef_12_def ex_gdef_12_table_def)
next
  show "parseGDEFTable (\<lambda>minorBase. readVersion16Dot16) ex_gdef_lig None = Inr ex_gdef_lig_table"
    by (simp add: parseGDEFTable_def gdef_eval_defs ex_gdef_lig_def ex_gdef_lig_table_def)
next
  show "parseGDEFTable (\<lambda>minorBase. readVersion16Dot16) ex_gdef_bad_classDef None
     = Inl UnsupportedFormat"
    by (simp add: parseGDEFTable_def gdef_eval_defs ex_gdef_bad_classDef_def)
qed

theorem parseGDEFTable_versions_and_pointers_witness:
  "readVersion16Dot16 (Parser ex_gdef_13 0) = Inr (13 / 10, cursor ex_gdef_13 4) \<and>
   parseUShort (cursor ex_gdef_13 4) = Inr (0, cursor ex_gdef_13 6) \<and>
   parseUShort (cursor ex_gdef_13 6) = Inr (0, cursor ex_gdef_13 8) \<and>
   parseUShort (cursor ex_gdef_13 8) = Inr (0, cursor ex_gdef_13 10) \<and>
   parseUShort (cursor ex_gdef_13 10) = Inr (0, cursor ex_gdef_13 12) \<and>
   parseUShort (cursor ex_gdef_13 12) = Inr (0, cursor ex_gdef_13 14) \<and>
   parseGDEFTable (\<lambda>minorBase. readVersion16Dot16) ex_gdef_13 None
     = Inr \<lparr>version = 13 / 10, classDef = None, attachList = None, ligCaretList = None,
            markAttachClassDef = None, markGlyphSets = Some None\<rparr> \<and>
   readVersion16Dot16 (Parser ex_gdef_11 0) = Inr (11 / 10, cursor ex_gdef_11 4) \<and>
   parseGDEFTable (\<lambda>minorBase. readVersion16Dot16) ex_gdef_11 None
     = Inl (CheckFailed ''Unsupported GDEF table version.'') \<and>
   readVersion16Dot16 (Parser ex_gdef_10 0) = Inr (1, cursor ex_gdef_10 4) \<and>
   (\<exists>g. parseGDEFTable (\<lambda>minorBase. readVersion16Dot16) ex_gdef_10 None = Inr g \<and>
        markGlyphSets g = None) \<and>
   readVersion16Dot16 (Parser ex_gdef_12 0) = Inr (12 / 10, cursor ex_gdef_12 4) \<and>
   parsePointer Parser_classDef (cursor ex_gdef_12 4)
     = Inr (Some \<lparr>format = 1, ranges = [], startGlyph = 5, classes = [1, 2, 0]\<rparr>,
            cursor ex_gdef_12 6) \<and>
   parsePointer parse_attachList (cursor ex_gdef_12 6)
     = Inr (Some \<lparr>coverage = Some \<lparr>format = 1, ranges = [], glyphs = [4]\<rparr>,
                   attachPoints = [Some [9]]\<rparr>, cursor ex_gdef_12 8) \<and>
   parsePointer parse_ligCaretList (cursor ex_gdef_12 8) = Inr (None, cursor ex_gdef_12 10) \<and>
   parsePointer Parser_classDef (cursor ex_gdef_12 10) = Inr (None, cursor ex_gdef_12 12) \<and>
   parsePointer parse_markGlyphSets (cursor ex_gdef_12 12)
     = Inr (Some [Some \<lparr>format = 1, ranges = [], glyphs = [3, 7]\<rparr>], cursor ex_gdef_12 14) \<and>
   parseGDEFTable (\<lambda>minorBase. readVersion16Dot16) ex_gdef_12 None
     = Inr \<lparr>version = 12 / 10,
            classDef = Some \<lparr>format = 1, ranges = [], startGlyph = 5, classes = [1, 2, 0]\<rparr>,
            attachList = Some \<lparr>coverage = Some \<lparr>format = 1, ranges = [], glyphs = [4]\<rparr>,
                               attachPoints = [Some [9]]\<rparr>,
            ligCaretList = None, markAttachClassDef = None,
            markGlyphSets = Some (Some [Some \<lparr>format = 1, ranges = [], glyphs = [3, 7]\<rparr>])\<rparr> \<and>
   readVersion16Dot16 (Parser ex_gdef_lig 0) = Inr (1, cursor ex_gdef_lig 4) \<and>
   parsePointer Parser_classDef (cursor ex_gdef_lig 4) = Inr (None, cursor ex_gdef_lig 6) \<and>
   parsePointer parse_attachList (cursor ex_gdef_lig 6) = Inr (None, cursor ex_gdef_lig 8) \<and>
   parsePointer parse_ligCaretList (cursor ex_gdef_lig 8)
     = Inr (Some \<lparr>coverage = Some \<lparr>format = 1, ranges = [], glyphs = [8]\<rparr>,
                   ligGlyphs = [Some [Some (Coordinate (- 2)), Some (Pointindex 3)]]\<rparr>,
            cursor ex_gdef_lig 10) \<and>
   parsePointer Parser_classDef (cursor ex_gdef_lig 10)
     = Inr (Some \<lparr>format = 2, ranges = [\<lparr>start = 10, end' = 12, classId = 3\<rparr>],
                   startGlyph = 0, classes = []\<rparr>, cursor ex_gdef_lig 12) \<and>
   parseGDEFTable (\<lambda>minorBase. readVersion16Dot16) ex_gdef_lig None
     = Inr \<lparr>version = 1, classDef = None, attachList = None,
            ligCaretList = Some \<lparr>coverage = Some \<lparr>format = 1, ranges = [], glyphs = [8]\<rparr>,
                   ligGlyphs = [Some [Some (Coordinate (- 2)), Some (Pointindex 3)]]\<rparr>,
            markAttachClassDef = Some \<lparr>format = 2,
                   ranges = [\<lparr>start = 10, end' = 12, classId = 3\<rparr>],
                   startGlyph = 0, classes = []\<rparr>,
            markGlyphSets = None\<rparr> \<and>
   readVersion16Dot16 (Parser ex_gdef_bad_classDef 0) = Inr (1, cursor ex_gdef_bad_classDef 4) \<and>
   parsePointer Parser_classDef (cursor ex_gdef_bad_classDef 4) = Inl UnsupportedFormat \<and>
   parseGDEFTable (\<lambda>minorBase. readVersion16Dot16) ex_gdef_bad_classDef None
     = Inl UnsupportedFormat \<and>
   readVersion16Dot16 (Parser [0, 1, 0x20] 0) = Inl RangeError \<and>
   parseGDEFTable (\<lambda>minorBase. readVersion16Dot16) [0, 1, 0x20] None = Inl RangeError \<and>
   parseUShort (cursor ex_gdef_12 4) = Inr (14, cursor ex_gdef_12 6) \<and>
   Parser_classDef (Parser ex_gdef_12 14)
     = Inr (\<lparr>format = 1, ranges = [], startGlyph = 5, classes = [1, 2, 0]\<rparr>,
            \<lparr>data = ex_gdef_12, offset = 14, relativeOffset = 12\<rparr>) \<and>
   parseUShort (cursor ex_gdef_bad_classDef 4) = Inr (12, cursor ex_gdef_bad_classDef 6) \<and>
   Parser_classDef (Parser ex_gdef_bad_classDef 12) = Inl UnsupportedFormat"
proof -
  let ?pv = "\<lambda>minorBase. readVersion16Dot16"
  have v13: "readVersion16Dot16 (Parser ex_gdef_13 0) = Inr (13 / 10, cursor ex_gdef_13 4)"
    by (simp add: readVersion16Dot16_def Parser_def parseUShort_def cursor_def ex_gdef_13_def)
  have v11: "readVersion16Dot16 (Parser ex_gdef_11 0) = Inr (11 / 10, cursor ex_gdef_11 4)"
    by (simp add: readVersion16Dot16_def Parser_def parseUShort_def cursor_def ex_gdef_11_def)
  have v10: "readVersion16Dot16 (Parser ex_gdef_10 0) = Inr (1, cursor ex_gdef_10 4)"
    by (simp add: readVersion16Dot16_def Parser_def parseUShort_def cursor_def ex_gdef_10_def)
  have v12: "readVersion16Dot16 (Parser ex_gdef_12 0) = Inr (12 / 10, cursor ex_gdef_12 4)"
    by (simp add: readVersion16Dot16_def Parser_def parseUShort_def cursor_def ex_gdef_12_def)
  have vl: "readVersion16Dot16 (Parser ex_gdef_lig 0) = Inr (1, cursor ex_gdef_lig 4)"
    by (simp add: readVersion16Dot16_def Parser_def parseUShort_def cursor_def ex_gdef_lig_def)
  have vb: "readVersion16Dot16 (Parser ex_gdef_bad_classDef 0)
      = Inr (1, cursor ex_gdef_bad_classDef 4)"
    by (simp add: readVersion16Dot16_def Parser_def parseUShort_def cursor_def
        ex_gdef_bad_classDef_def)
  have vs: "readVersion16Dot16 (Parser [0, 1, 0x20] 0) = Inl RangeError"
    by (simp add: readVersion16Dot16_def Parser_def parseUShort_def)
  have v13': "readVersion16Dot16 (Parser ex_gdef_13 (case None of None \<Rightarrow> 0 | Some s \<Rightarrow> s))
      = Inr (13 / 10, cursor ex_gdef_13 4)"
    using v13 by simp
  have v11': "readVersion16Dot16 (Parser ex_gdef_11 (case None of None \<Rightarrow> 0 | Some s \<Rightarrow> s))
      = Inr (11 / 10, cursor ex_gdef_11 4)"
    using v11 by simp
  have v10': "readVersion16Dot16 (Parser ex_gdef_10 (case None of None \<Rightarrow> 0 | Some s \<Rightarrow> s))
      = Inr (1, cursor ex_gdef_10 4)"
    using v10 by simp
  have v12': "readVersion16Dot16 (Parser ex_gdef_12 (case None of None \<Rightarrow> 0 | Some s \<Rightarrow> s))
      = Inr (12 / 10, cursor ex_gdef_12 4)"
    using v12 by simp
  have vl': "readVersion16Dot16 (Parser ex_gdef_lig (case None of None \<Rightarrow> 0 | Some s \<Rightarrow> s))
      = Inr (1, cursor ex_gdef_lig 4)"
    using vl by simp
  have vb': "readVersion16Dot16 (Parser ex_gdef_bad_classDef (case None of None \<Rightarrow> 0 | Some s \<Rightarrow> s))
      = Inr (1, cursor ex_gdef_bad_classDef 4)"
    using vb by simp
  have z: "parseUShort (cursor ex_gdef_13 4) = Inr (0, cursor ex_gdef_13 6)"
    "parseUShort (cursor ex_gdef_13 6) = Inr (0, cursor ex_gdef_13 8)"
    "parseUShort (cursor ex_gdef_13 8) = Inr (0, cursor ex_gdef_13 10)"
    "parseUShort (cursor ex_gdef_13 10) = Inr (0, cursor ex_gdef_13 12)"
    "parseUShort (cursor ex_gdef_13 12) = Inr (0, cursor ex_gdef_13 14)"
    by (simp_all add: parseUShort_def cursor_def ex_gdef_13_def)
  have p12: "parsePointer Parser_classDef (cursor ex_gdef_12 4)
     = Inr (Some \<lparr>format = 1, ranges = [], startGlyph = 5, classes = [1, 2, 0]\<rparr>,
            cursor ex_gdef_12 6)"
    "parsePointer parse_attachList (cursor ex_gdef_12 6)
     = Inr (Some \<lparr>coverage = Some \<lparr>format = 1, ranges = [], glyphs = [4]\<rparr>,
                   attachPoints = [Some [9]]\<rparr>, cursor ex_gdef_12 8)"
    "parsePointer parse_ligCaretList (cursor ex_gdef_12 8) = Inr (None, cursor ex_gdef_12 10)"
    "parsePointer Parser_classDef (cursor ex_gdef_12 10) = Inr (None, cursor ex_gdef_12 12)"
    "parsePointer parse_markGlyphSets (cursor ex_gdef_12 12)
     = Inr (Some [Some \<lparr>format = 1, ranges = [], glyphs = [3, 7]\<rparr>], cursor ex_gdef_12 14)"
    by (simp_all add: gdef_eval_defs ex_gdef_12_def)
  have pl: "parsePointer Parser_classDef (cursor ex_gdef_lig 4) = Inr (None, cursor ex_gdef_lig 6)"
    "parsePointer parse_attachList (cursor ex_gdef_lig 6) = Inr (None, cursor ex_gdef_lig 8)"
    "parsePointer parse_ligCaretList (cursor ex_gdef_lig 8)
     = Inr (Some \<lparr>coverage = Some \<lparr>format = 1, ranges = [], glyphs = [8]\<rparr>,
                   ligGlyphs = [Some [Some (Coordinate (- 2)), Some (Pointindex 3)]]\<rparr>,
            cursor ex_gdef_lig 10)"
    "parsePointer Parser_classDef (cursor ex_gdef_lig 10)
     = Inr (Some \<lparr>format = 2, ranges = [\<lparr>start = 10, end' = 12, classId = 3\<rparr>],
                   startGlyph = 0, classes = []\<rparr>, cursor ex_gdef_lig 12)"
    by (simp_all add: gdef_eval_defs ex_gdef_lig_def)
  have pb: "parsePointer Parser_classDef (cursor ex_gdef_bad_classDef 4) = Inl UnsupportedFormat"
    by (simp add: gdef_eval_defs ex_gdef_bad_classDef_def)
  have u12: "parseUShort (cursor ex_gdef_12 4) = Inr (14, cursor ex_gdef_12 6)"
    by (simp add: parseUShort_def cursor_def ex_gdef_12_def)
  have c12: "Parser_classDef (Parser ex_gdef_12 14)
     = Inr (\<lparr>format = 1, ranges = [], startGlyph = 5, classes = [1, 2, 0]\<rparr>,
            \<lparr>data = ex_gdef_12, offset = 14, relativeOffset = 12\<rparr>)"
    by (simp add: gdef_eval_defs ex_gdef_12_def)
  have ub: "parseUShort (cursor ex_gdef_bad_classDef 4) = Inr (12, cursor ex_gdef_bad_classDef 6)"
    by (simp add: parseUShort_def cursor_def ex_gdef_bad_classDef_def)
  have cb: "Parser_classDef (Parser ex_gdef_bad_classDef 12) = Inl UnsupportedFormat"
    by (simp add: gdef_eval_defs ex_gdef_bad_classDef_def)
  have r13: "parseGDEFTable ?pv ex_gdef_13 None
     = Inr \<lparr>version = 13 / 10, classDef = None, attachList = None, ligCaretList = None,
            markAttachClassDef = None, markGlyphSets = Some None\<rparr>"
    using parseGDEFTable_versions_and_pointers[where parseVersion = ?pv
        and d = ex_gdef_13 and start_arg = None and v = "13 / 10" and ?p1.0 = "cursor ex_gdef_13 4"
        and ?q2.0 = "cursor ex_gdef_13 6" and ?q3.0 = "cursor ex_gdef_13 8"
        and ?q4.0 = "cursor ex_gdef_13 10" and ?q5.0 = "cursor ex_gdef_13 12"
        and ?q6.0 = "cursor ex_gdef_13 14", THEN conjunct1, THEN mp, OF v13',
        THEN conjunct2, THEN conjunct2, THEN conjunct1]
      z by simp
  have r11: "parseGDEFTable ?pv ex_gdef_11 None
     = Inl (CheckFailed ''Unsupported GDEF table version.'')"
    using parseGDEFTable_versions_and_pointers[where parseVersion = ?pv
        and d = ex_gdef_11 and start_arg = None and v = "11 / 10" and ?p1.0 = "cursor ex_gdef_11 4",
        THEN conjunct1, THEN mp, OF v11', THEN conjunct1]
      by simp
  have e10: "parseGDEFTable ?pv ex_gdef_10 None
     = Inr \<lparr>version = 1, classDef = None, attachList = None, ligCaretList = None,
            markAttachClassDef = None, markGlyphSets = None\<rparr>"
    by (simp add: parseGDEFTable_def readVersion16Dot16_def Parser_def parseUShort_def
        parsePointer_def check_argument_def ex_gdef_10_def)
  have r10: "\<exists>g. parseGDEFTable ?pv ex_gdef_10 None = Inr g \<and> markGlyphSets g = None"
    using parseGDEFTable_versions_and_pointers[where parseVersion = ?pv
        and d = ex_gdef_10 and start_arg = None and v = 1 and ?p1.0 = "cursor ex_gdef_10 4",
        THEN conjunct1, THEN mp, OF v10', THEN conjunct2, THEN conjunct1]
      e10 by simp
  have r12: "parseGDEFTable ?pv ex_gdef_12 None
     = Inr \<lparr>version = 12 / 10,
            classDef = Some \<lparr>format = 1, ranges = [], startGlyph = 5, classes = [1, 2, 0]\<rparr>,
            attachList = Some \<lparr>coverage = Some \<lparr>format = 1, ranges = [], glyphs = [4]\<rparr>,
                               attachPoints = [Some [9]]\<rparr>,
            ligCaretList = None, markAttachClassDef = None,
            markGlyphSets = Some (Some [Some \<lparr>format = 1, ranges = [], glyphs = [3, 7]\<rparr>])\<rparr>"
    using parseGDEFTable_versions_and_pointers[where parseVersion = ?pv
        and d = ex_gdef_12 and start_arg = None and v = "12 / 10" and ?p1.0 = "cursor ex_gdef_12 4"
        and ?r2.0 = "cursor ex_gdef_12 6" and ?r3.0 = "cursor ex_gdef_12 8"
        and ?r4.0 = "cursor ex_gdef_12 10" and ?r5.0 = "cursor ex_gdef_12 12"
        and cd = "Some \<lparr>format = 1, ranges = [], startGlyph = 5, classes = [1, 2, 0]\<rparr>"
        and al = "Some \<lparr>coverage = Some \<lparr>format = 1, ranges = [], glyphs = [4]\<rparr>,
                               attachPoints = [Some [9]]\<rparr>"
        and lc = None and ma = None, THEN conjunct1, THEN mp, OF v12',
        THEN conjunct2, THEN conjunct2, THEN conjunct2, THEN conjunct1]
      p12 by simp
  have rl: "parseGDEFTable ?pv ex_gdef_lig None
     = Inr \<lparr>version = 1, classDef = None, attachList = None,
            ligCaretList = Some \<lparr>coverage = Some \<lparr>format = 1, ranges = [], glyphs = [8]\<rparr>,
                   ligGlyphs = [Some [Some (Coordinate (- 2)), Some (Pointindex 3)]]\<rparr>,
            markAttachClassDef = Some \<lparr>format = 2,
                   ranges = [\<lparr>start = 10, end' = 12, classId = 3\<rparr>],
                   startGlyph = 0, classes = []\<rparr>,
            markGlyphSets = None\<rparr>"
    using parseGDEFTable_versions_and_pointers[where parseVersion = ?pv
        and d = ex_gdef_lig and start_arg = None and v = 1 and ?p1.0 = "cursor ex_gdef_lig 4"
        and ?r2.0 = "cursor ex_gdef_lig 6" and ?r3.0 = "cursor ex_gdef_lig 8"
        and ?r4.0 = "cursor ex_gdef_lig 10" and ?r5.0 = "cursor ex_gdef_lig 12"
        and cd = None and al = None
        and lc = "Some \<lparr>coverage = Some \<lparr>format = 1, ranges = [], glyphs = [8]\<rparr>,
                   ligGlyphs = [Some [Some (Coordinate (- 2)), Some (Pointindex 3)]]\<rparr>"
        and ma = "Some \<lparr>format = 2, ranges = [\<lparr>start = 10, end' = 12, classId = 3\<rparr>],
                   startGlyph = 0, classes = []\<rparr>", THEN conjunct1, THEN mp, OF vl',
        THEN conjunct2, THEN conjunct2, THEN conjunct2, THEN conjunct1]
      pl by simp
  have rb: "parseGDEFTable ?pv ex_gdef_bad_classDef None = Inl UnsupportedFormat"
    using parseGDEFTable_versions_and_pointers[where parseVersion = ?pv
        and d = ex_gdef_bad_classDef and start_arg = None and v = 1
        and ?p1.0 = "cursor ex_gdef_bad_classDef 4", THEN conjunct1, THEN mp, OF vb',
        THEN conjunct2, THEN conjunct2, THEN conjunct2, THEN conjunct2]
      pb by simp
  have rs: "parseGDEFTable ?pv [0, 1, 0x20] None = Inl RangeError"
    using parseGDEFTable_versions_and_pointers[where parseVersion = ?pv
        and d = "[0, 1, 0x20]" and start_arg = None, THEN conjunct2, THEN conjunct1]
      vs by simp
  have f12: "parsePointer Parser_classDef (cursor ex_gdef_12 4)
     = Inr (Some \<lparr>format = 1, ranges = [], startGlyph = 5, classes = [1, 2, 0]\<rparr>,
            cursor ex_gdef_12 6)"
    using parseGDEFTable_versions_and_pointers[where p = "cursor ex_gdef_12 4" and off = 14
        and p' = "cursor ex_gdef_12 6" and description = Parser_classDef,
        THEN conjunct2, THEN conjunct2, THEN conjunct2, THEN conjunct1]
      u12 c12 by (simp add: cursor_def)
  have fb: "parsePointer Parser_classDef (cursor ex_gdef_bad_classDef 4) = Inl UnsupportedFormat"
    using parseGDEFTable_versions_and_pointers[where p = "cursor ex_gdef_bad_classDef 4" and off = 12
        and p' = "cursor ex_gdef_bad_classDef 6" and description = Parser_classDef,
        THEN conjunct2, THEN conjunct2, THEN conjunct2, THEN conjunct1]
      ub cb by (simp add: cursor_def)
  show ?thesis
    by (intro conjI v13 z r13 v11 r11 v10 r10 v12 f12 p12 r12 vl pl rl vb fb rb vs rs u12 c12 ub cb)
qed

end
